(* ===== verification/Prelude.thy ===== *)
theory Prelude
  imports Main "HOL-Library.List_Lexorder" "HOL-Library.Char_ord" "HOL-Library.Word" "HOL-Library.AList"
begin

section \<open>Prelude: Go values shared by every component\<close>

text \<open>
  The types and generic lemmas the component theories share. A Go \<^verbatim>\<open>string\<close> is a byte
  string, here a \<open>string\<close> (a list of 8-bit characters), compared bytewise: the
  lexicographic order of \<open>HOL-Library.List_Lexorder\<close> over \<open>HOL-Library.Char_ord\<close> is Go's
  \<^verbatim>\<open><\<close> on strings. A Go \<^verbatim>\<open>map[string]string\<close> is \<open>gomap\<close>: \<open>None\<close> is the nil map, and
  \<open>Some al\<close> a map whose entries are listed in the order the runtime happens to iterate
  over them. The order carries no information in Go, so a definition that ranges over a
  map is shown not to depend on it (\<open>go_eqv\<close>).
\<close>

named_theorems go_defs \<open>definitions of the Go runtime operations, unfolded together\<close>
named_theorems cond_simps \<open>reading a condition after a condition-set operation\<close>
named_theorems status_frame \<open>the fields a status operation leaves alone\<close>

type_synonym gomap = "(string \<times> string) list option"

subsection \<open>Maps\<close>

definition go_entries :: "gomap \<Rightarrow> (string \<times> string) list" where
  "go_entries m = (case m of None \<Rightarrow> [] | Some al \<Rightarrow> al)"

definition go_lookup :: "gomap \<Rightarrow> string \<Rightarrow> string option" where
  "go_lookup m k = map_of (go_entries m) k"

definition go_index :: "gomap \<Rightarrow> string \<Rightarrow> string" where
  "go_index m k = (case go_lookup m k of None \<Rightarrow> [] | Some v \<Rightarrow> v)"

definition go_len :: "gomap \<Rightarrow> nat" where
  "go_len m = length (go_entries m)"

definition go_wf :: "gomap \<Rightarrow> bool" where
  "go_wf m \<longleftrightarrow> distinct (map fst (go_entries m))"

text \<open>Two well-formed maps denote the same Go map when they are both nil or both not nil and
  hold the same entries; the order of the entries is forgotten.\<close>

definition go_eqv :: "gomap \<Rightarrow> gomap \<Rightarrow> bool" where
  "go_eqv m n \<longleftrightarrow> (m = None) = (n = None) \<and> set (go_entries m) = set (go_entries n)"

text \<open>\<^verbatim>\<open>for key, val := range m { acc[key] = val }\<close>\<close>

fun copy_range :: "(string \<times> string) list \<Rightarrow> (string \<times> string) list \<Rightarrow> (string \<times> string) list" where
  "copy_range acc [] = acc"
| "copy_range acc ((k, v) # rest) = copy_range (AList.update k v acc) rest"

lemmas [go_defs] = go_entries_def go_lookup_def go_index_def go_len_def go_wf_def

lemma go_entries_simps [simp]:
  "go_entries None = []"
  "go_entries (Some al) = al"
  by (simp_all add: go_entries_def)

lemma go_lookup_None [simp]: "go_lookup None k = None"
  by (simp add: go_lookup_def)

lemma go_index_None [simp]: "go_index None k = []"
  by (simp add: go_index_def)

lemma go_wf_None [simp]: "go_wf None"
  by (simp add: go_wf_def)

lemma update_fresh: "k \<notin> fst ` set al \<Longrightarrow> AList.update k v al = al @ [(k, v)]"
  by (induction al) auto

lemma copy_range_append:
  "distinct (map fst (acc @ al)) \<Longrightarrow> copy_range acc al = acc @ al"
proof (induction acc al rule: copy_range.induct)
  case (2 acc k v rest)
  then have "k \<notin> fst ` set acc" by auto
  with 2 show ?case by (simp add: update_fresh)
qed simp

lemma copy_range_distinct: "distinct (map fst acc) \<Longrightarrow> distinct (map fst (copy_range acc al))"
  by (induction acc al rule: copy_range.induct) (simp_all add: distinct_update)

lemma copy_range_Nil: "distinct (map fst al) \<Longrightarrow> copy_range [] al = al"
  by (simp add: copy_range_append)

lemma map_of_eq_if_set_eq:
  assumes "distinct (map fst xs)" "distinct (map fst ys)" "set xs = set ys"
  shows "map_of xs = map_of ys"
  using assms by (rule map_of_inject_set [THEN iffD2])

lemma set_eq_if_map_of_eq:
  assumes "distinct (map fst xs)" "distinct (map fst ys)" "map_of xs = map_of ys"
  shows "set xs = set ys"
  using assms by (rule map_of_inject_set [THEN iffD1])

lemma go_eqv_lookup:
  assumes "go_wf m" "go_wf n" "go_eqv m n"
  shows "go_lookup m = go_lookup n"
  using assms by (auto simp: go_lookup_def go_wf_def go_eqv_def fun_eq_iff
      map_of_eq_if_set_eq [of "go_entries m" "go_entries n"])

lemma go_eqv_len:
  assumes "go_wf m" "go_wf n" "go_eqv m n"
  shows "go_len m = go_len n"
proof -
  have "go_len m = card (set (go_entries m))" if "go_wf m" for m
    using that by (simp add: go_len_def go_wf_def distinct_card distinct_map)
  with assms show ?thesis by (simp add: go_eqv_def)
qed

text \<open>Sorting the keys forgets the iteration order.\<close>

lemma sort_keys_unique:
  fixes xs ys :: "('a::linorder \<times> 'b) list"
  assumes "distinct (map fst xs)" "distinct (map fst ys)" "set xs = set ys"
  shows "sort (map fst xs) = sort (map fst ys)"
proof (rule sorted_distinct_set_unique)
  show "set (sort (map fst xs)) = set (sort (map fst ys))" using assms(3) by simp
qed (use assms in simp_all)

subsection \<open>Sorting lists of records by a key\<close>

text \<open>\<^verbatim>\<open>sort.Slice\<close> is not stable. Where the keys are distinct there is only one sorted
  arrangement, so every correct sort returns \<open>sort_key f xs\<close>.\<close>

lemma sort_key_unique:
  assumes "sorted (map f ys)" "distinct (map f ys)" "set ys = set xs" "distinct (map f xs)"
  shows "ys = sort_key f xs"
proof -
  have inj: "inj_on f (set xs)" using assms(4) by (simp add: distinct_map)
  have eq: "map f ys = map f (sort_key f xs)"
    by (rule sorted_distinct_set_unique) (use assms in \<open>simp_all add: distinct_map\<close>)
  show ?thesis
    by (rule map_inj_on [OF eq]) (use assms(3) inj in simp)
qed

lemma map_fst_sort_key_distinct:
  "distinct (map f xs) \<Longrightarrow> distinct (map f (sort_key f xs))"
  by (simp add: distinct_map)

subsection \<open>Results\<close>

text \<open>A Go result \<^verbatim>\<open>(T, error)\<close> is \<open>'e + 'a\<close>: \<open>Inl\<close> the error, \<open>Inr\<close> the value.\<close>

definition is_err :: "'e + 'a \<Rightarrow> bool" where
  "is_err r \<longleftrightarrow> (case r of Inl _ \<Rightarrow> True | Inr _ \<Rightarrow> False)"

lemma is_err_simps [simp]: "is_err (Inl e)" "\<not> is_err (Inr a)"
  by (simp_all add: is_err_def)

subsection \<open>Signed 64-bit integers\<close>

text \<open>Go's \<^verbatim>\<open>int64\<close> (and \<^verbatim>\<open>time.Duration\<close>) as an integer with the wrap-around written out.\<close>

definition min_int64 :: int where "min_int64 = - (2 ^ 63)"
definition max_int64 :: int where "max_int64 = 2 ^ 63 - 1"

definition wrap64 :: "int \<Rightarrow> int" where
  "wrap64 x = (x + 2 ^ 63) mod 2 ^ 64 - 2 ^ 63"

definition in_int64 :: "int \<Rightarrow> bool" where
  "in_int64 x \<longleftrightarrow> min_int64 \<le> x \<and> x \<le> max_int64"

lemma wrap64_in_int64 [simp]: "in_int64 (wrap64 x)"
  using pos_mod_bound [of "2 ^ 64" "x + 2 ^ 63"] pos_mod_sign [of "2 ^ 64" "x + 2 ^ 63"]
  by (simp add: in_int64_def wrap64_def min_int64_def max_int64_def)

lemma wrap64_id [simp]: "in_int64 x \<Longrightarrow> wrap64 x = x"
  by (simp add: in_int64_def wrap64_def min_int64_def max_int64_def)

end
