(* ===== verification/Go_Strings.thy ===== *)
theory Go_Strings
  imports Prelude
begin

section \<open>The Go string operations the sources call\<close>

text \<open>
  What the sources use of Go's \<^verbatim>\<open>strings\<close>, \<^verbatim>\<open>strconv\<close> and \<^verbatim>\<open>fmt\<close> packages (Go 1.17, the version
  of \<^verbatim>\<open>go.mod\<close>): splitting and joining, replacing one byte, decimal and hexadecimal
  numbers, UTF-8 decoding, \<^verbatim>\<open>%q\<close> quoting, and \<^verbatim>\<open>fmt.Sprintf\<close> called with a format and no
  operands, which is how knative's condition manager treats the messages that
  \<^verbatim>\<open>ResolutionRequestStatus.MarkFailed\<close> passes on.
  The Unicode table behind \<^verbatim>\<open>unicode.IsPrint\<close> beyond ASCII is data, not code: it is the
  parameter \<open>ip\<close> of \<open>quote\<close>.
\<close>

abbreviation byte :: "char \<Rightarrow> nat" where
  "byte c \<equiv> of_char c"

subsection \<open>Package strings\<close>

fun split_on :: "char \<Rightarrow> string \<Rightarrow> string list" where
  "split_on sep [] = [[]]"
| "split_on sep (c # cs) =
     (if c = sep then [] # split_on sep cs
      else (case split_on sep cs of [] \<Rightarrow> [[c]] | p # ps \<Rightarrow> (c # p) # ps))"

fun join :: "string \<Rightarrow> string list \<Rightarrow> string" where
  "join sep [] = []"
| "join sep [s] = s"
| "join sep (s # t # ss) = s @ sep @ join sep (t # ss)"

text \<open>\<^verbatim>\<open>strings.ReplaceAll(s, old, new)\<close> for a one-byte \<^verbatim>\<open>old\<close>.\<close>

fun replace_all :: "char \<Rightarrow> string \<Rightarrow> string \<Rightarrow> string" where
  "replace_all old new [] = []"
| "replace_all old new (c # cs) = (if c = old then new else [c]) @ replace_all old new cs"

definition has_prefix :: "string \<Rightarrow> string \<Rightarrow> bool" where
  "has_prefix s p \<longleftrightarrow> take (length p) s = p"

definition has_suffix :: "string \<Rightarrow> string \<Rightarrow> bool" where
  "has_suffix s p \<longleftrightarrow> length p \<le> length s \<and> drop (length s - length p) s = p"

lemma split_on_nonempty [simp]: "split_on sep s \<noteq> []"
  by (induction s) (auto split: list.splits)

lemma split_on_no_sep: "sep \<notin> set s \<Longrightarrow> split_on sep s = [s]"
  by (induction s) auto

lemma split_on_append:
  "sep \<notin> set a \<Longrightarrow> split_on sep (a @ sep # b) = a # split_on sep b"
  by (induction a) auto

lemma length_split_on: "length (split_on sep s) = Suc (count_list s sep)"
  by (induction s) (auto split: list.splits)

lemma join_split_on: "join [sep] (split_on sep s) = s"
proof (induction s)
  case (Cons c cs)
  obtain p ps where ps: "split_on sep cs = p # ps"
    by (cases "split_on sep cs") auto
  with Cons show ?case by (cases ps) auto
qed simp

lemma replace_all_absent: "old \<notin> set s \<Longrightarrow> replace_all old new s = s"
  by (induction s) auto

lemma replace_all_empty: "replace_all old [] s = filter (\<lambda>c. c \<noteq> old) s"
  by (induction s) auto

subsection \<open>Numbers\<close>

definition digit :: "nat \<Rightarrow> char" where
  "digit n = ''0123456789abcdef'' ! n"

fun utoa :: "nat \<Rightarrow> string" where
  "utoa n = (if n < 10 then [digit n] else utoa (n div 10) @ [digit (n mod 10)])"

declare utoa.simps [simp del]

definition itoa :: "int \<Rightarrow> string" where
  "itoa i = (if i < 0 then CHR ''-'' # utoa (nat (- i)) else utoa (nat i))"

definition is_digit :: "char \<Rightarrow> bool" where
  "is_digit c \<longleftrightarrow> 48 \<le> byte c \<and> byte c \<le> 57"

definition digit_val :: "char \<Rightarrow> nat" where
  "digit_val c = byte c - 48"

definition digits_val :: "nat \<Rightarrow> string \<Rightarrow> nat" where
  "digits_val a s = foldl (\<lambda>n c. n * 10 + digit_val c) a s"

lemma digit_cases: "n < 10 \<Longrightarrow> n \<in> {0, 1, 2, 3, 4, 5, 6, 7, 8, 9 :: nat}"
  by auto

lemma digit_digit [simp]: "n < 10 \<Longrightarrow> is_digit (digit n)" "n < 10 \<Longrightarrow> digit_val (digit n) = n"
  by (auto dest!: digit_cases simp: is_digit_def digit_val_def digit_def)

lemma digits_val_append: "digits_val a (s @ t) = digits_val (digits_val a s) t"
  by (simp add: digits_val_def)

lemma utoa_digits: "list_all is_digit (utoa n)"
proof (induction n rule: utoa.induct)
  case (1 n)
  then show ?case by (subst utoa.simps) auto
qed

lemma utoa_nonempty [simp]: "utoa n \<noteq> []"
  by (subst utoa.simps) simp

lemma digits_val_utoa: "digits_val 0 (utoa n) = n"
proof (induction n rule: utoa.induct)
  case (1 n)
  show ?case
  proof (cases "n < 10")
    case True
    then show ?thesis by (simp add: utoa.simps [of n] digits_val_def)
  next
    case False
    with 1 have "digits_val 0 (utoa (n div 10)) = n div 10" by simp
    with False show ?thesis
      by (simp add: utoa.simps [of n] digits_val_append) (simp add: digits_val_def)
  qed
qed

subsection \<open>UTF-8\<close>

definition cont_byte :: "nat \<Rightarrow> bool" where
  "cont_byte b \<longleftrightarrow> 128 \<le> b \<and> b \<le> 191"

definition rune_error :: nat where
  "rune_error = 65533"

text \<open>\<^verbatim>\<open>utf8.DecodeRuneInString\<close>: the rune and its width; an invalid or truncated sequence is
  \<open>rune_error\<close> of width one.\<close>

fun decode_rune :: "string \<Rightarrow> nat \<times> nat" where
  "decode_rune [] = (rune_error, 0)"
| "decode_rune (c0 # s) =
     (let p0 = byte c0 in
      if p0 < 128 then (p0, 1)
      else if p0 < 194 \<or> 244 < p0 then (rune_error, 1)
      else case s of [] \<Rightarrow> (rune_error, 1)
        | c1 # s1 \<Rightarrow>
          (let b1 = byte c1;
               lo = (if p0 = 224 then 160 else if p0 = 240 then 144 else 128);
               hi = (if p0 = 237 then 159 else if p0 = 244 then 143 else 191) in
           if b1 < lo \<or> hi < b1 then (rune_error, 1)
           else if p0 < 224 then ((p0 mod 32) * 64 + b1 mod 64, 2)
           else case s1 of [] \<Rightarrow> (rune_error, 1)
             | c2 # s2 \<Rightarrow>
               (let b2 = byte c2 in
                if \<not> cont_byte b2 then (rune_error, 1)
                else if p0 < 240 then ((p0 mod 16) * 4096 + (b1 mod 64) * 64 + b2 mod 64, 3)
                else case s2 of [] \<Rightarrow> (rune_error, 1)
                  | c3 # s3 \<Rightarrow>
                    (let b3 = byte c3 in
                     if \<not> cont_byte b3 then (rune_error, 1)
                     else ((p0 mod 8) * 262144 + (b1 mod 64) * 4096 + (b2 mod 64) * 64 + b3 mod 64, 4)))))"

definition chr :: "nat \<Rightarrow> char" where
  "chr n = char_of n"

definition encode_rune :: "nat \<Rightarrow> string" where
  "encode_rune r =
     (if r < 128 then [chr r]
      else if r < 2048 then [chr (192 + r div 64), chr (128 + r mod 64)]
      else if 1114111 < r \<or> (55296 \<le> r \<and> r \<le> 57343) then [chr 239, chr 191, chr 189]
      else if r < 65536 then [chr (224 + r div 4096), chr (128 + r div 64 mod 64), chr (128 + r mod 64)]
      else [chr (240 + r div 262144), chr (128 + r div 4096 mod 64), chr (128 + r div 64 mod 64), chr (128 + r mod 64)])"

lemma decode_rune_ascii [simp]: "byte c < 128 \<Longrightarrow> decode_rune (c # s) = (byte c, 1)"
  by simp

subsection \<open>Quoting: the verb q\<close>

fun hex_digits :: "nat \<Rightarrow> nat \<Rightarrow> string" where
  "hex_digits 0 n = []"
| "hex_digits (Suc w) n = hex_digits w (n div 16) @ [digit (n mod 16)]"

definition is_print :: "(nat \<Rightarrow> bool) \<Rightarrow> nat \<Rightarrow> bool" where
  "is_print ip r \<longleftrightarrow> (if r < 128 then 32 \<le> r \<and> r < 127 else ip r)"

definition escape_rune :: "(nat \<Rightarrow> bool) \<Rightarrow> nat \<Rightarrow> string" where
  "escape_rune ip r =
     (if r = 34 \<or> r = 92 then [chr 92, chr r]
      else if is_print ip r then encode_rune r
      else if r = 7 then [chr 92, CHR ''a'']
      else if r = 8 then [chr 92, CHR ''b'']
      else if r = 12 then [chr 92, CHR ''f'']
      else if r = 10 then [chr 92, CHR ''n'']
      else if r = 13 then [chr 92, CHR ''r'']
      else if r = 9 then [chr 92, CHR ''t'']
      else if r = 11 then [chr 92, CHR ''v'']
      else if r < 32 then [chr 92, CHR ''x''] @ hex_digits 2 r
      else if r < 65536 then [chr 92, CHR ''u''] @ hex_digits 4 r
      else [chr 92, CHR ''U''] @ hex_digits 8 r)"

function quote_body :: "(nat \<Rightarrow> bool) \<Rightarrow> string \<Rightarrow> string" where
  "quote_body ip [] = []"
| "quote_body ip (c # cs) =
     (let (r, width) = decode_rune (c # cs) in
      if width = 1 \<and> r = rune_error
      then [chr 92, CHR ''x''] @ hex_digits 2 (byte c) @ quote_body ip cs
      else escape_rune ip r @ quote_body ip (drop (width - 1) cs))"
  by pat_completeness auto
termination
  by (relation "measure (\<lambda>(ip, s). length s)") (auto simp del: decode_rune.simps)

definition quote :: "(nat \<Rightarrow> bool) \<Rightarrow> string \<Rightarrow> string" where
  "quote ip s = [chr 34] @ quote_body ip s @ [chr 34]"

definition plain_char :: "char \<Rightarrow> bool" where
  "plain_char c \<longleftrightarrow> 32 \<le> byte c \<and> byte c < 127 \<and> byte c \<noteq> 34 \<and> byte c \<noteq> 92"

lemma quote_body_plain: "list_all plain_char s \<Longrightarrow> quote_body ip s = s"
proof (induction s)
  case (Cons c cs)
  then have "byte c < 127" "32 \<le> byte c" "byte c \<noteq> 34" "byte c \<noteq> 92"
    by (simp_all add: plain_char_def)
  with Cons show ?case
    by (simp add: escape_rune_def is_print_def encode_rune_def chr_def rune_error_def del: decode_rune.simps)
qed simp

text \<open>Text without quotes, backslashes or unprintable bytes is quoted by putting it between
  double quotes, whatever the Unicode table says.\<close>

lemma quote_plain: "list_all plain_char s \<Longrightarrow> quote ip s = [chr 34] @ s @ [chr 34]"
  by (simp add: quote_def quote_body_plain)

subsection \<open>fmt.Sprintf with no operands\<close>

fun parsenum_loop :: "nat \<Rightarrow> bool \<Rightarrow> string \<Rightarrow> nat \<times> bool \<times> string" where
  "parsenum_loop num isnum [] = (num, isnum, [])"
| "parsenum_loop num isnum (c # cs) =
     (if is_digit c then
        (if 1000000 < num then (0, False, []) else parsenum_loop (num * 10 + digit_val c) True cs)
      else (num, isnum, c # cs))"

definition parsenum :: "string \<Rightarrow> nat \<times> bool \<times> string" where
  "parsenum s = parsenum_loop 0 False s"

text \<open>\<^verbatim>\<open>parseArgNumber\<close> on a text that starts with an opening bracket: how many bytes to skip,
  and whether the bracketed text is a number.\<close>

definition parse_arg_number :: "string \<Rightarrow> nat \<times> bool" where
  "parse_arg_number s =
     (if length s < 3 then (1, False)
      else let inner = takeWhile (\<lambda>c. c \<noteq> CHR '']'') (tl s) in
        if length inner = length (tl s) then (1, False)
        else (case parsenum inner of (_, ok, rest) \<Rightarrow> (length inner + 2, ok \<and> rest = [])))"

text \<open>\<^verbatim>\<open>pp.argNumber\<close> with no operands: the rest of the format, \<^verbatim>\<open>goodArgNum\<close> and \<^verbatim>\<open>found\<close>.\<close>

definition arg_number :: "string \<Rightarrow> bool \<Rightarrow> string \<times> bool \<times> bool" where
  "arg_number s good =
     (case s of [] \<Rightarrow> (s, good, False)
      | c # _ \<Rightarrow> if c \<noteq> CHR ''['' then (s, good, False)
                else (case parse_arg_number s of (wid, ok) \<Rightarrow> (drop wid s, False, ok)))"

definition starts_with :: "char \<Rightarrow> string \<Rightarrow> bool" where
  "starts_with c s \<longleftrightarrow> (case s of [] \<Rightarrow> False | d # _ \<Rightarrow> d = c)"

text \<open>The width: \<^verbatim>\<open>*\<close> finds no operand and reports it; otherwise digits are skipped.\<close>

definition verb_width :: "string \<times> bool \<times> bool \<Rightarrow> string \<times> string \<times> bool \<times> bool" where
  "verb_width st = (case st of (s, good, after) \<Rightarrow>
     if starts_with (CHR ''*'') s then (''%!(BADWIDTH)'', tl s, good, False)
     else (case parsenum s of (_, present, rest) \<Rightarrow> ([], rest, good \<and> \<not> (after \<and> present), after)))"

definition verb_precision :: "string \<times> string \<times> bool \<times> bool \<Rightarrow> string \<times> string \<times> bool \<times> bool" where
  "verb_precision st = (case st of (out, s, good, after) \<Rightarrow>
     if starts_with (CHR ''.'') s then
       (case arg_number (tl s) (good \<and> \<not> after) of (s1, good1, after1) \<Rightarrow>
          if starts_with (CHR ''*'') s1 then (out @ ''%!(BADPREC)'', tl s1, good1, False)
          else (case parsenum s1 of (_, _, rest) \<Rightarrow> (out, rest, good1, after1)))
     else (out, s, good, after))"

text \<open>One verb, after the percent sign: what is written, and the rest of the format.\<close>

definition format_verb :: "string \<Rightarrow> string \<times> string" where
  "format_verb s =
     (case verb_precision (verb_width (arg_number (dropWhile (\<lambda>c. c \<in> set ''#0+- '') s) True)) of
       (out, s1, good1, after1) \<Rightarrow>
         (case (if after1 then (s1, good1, after1) else arg_number s1 good1) of (s2, good2, _) \<Rightarrow>
            if s2 = [] then (out @ ''%!(NOVERB)'', [])
            else (case decode_rune s2 of (verb, width) \<Rightarrow>
              (out @ (if verb = 37 then ''%''
                 else ''%!'' @ encode_rune verb @ (if good2 then ''(MISSING)'' else ''(BADINDEX)'')),
               drop width s2))))"

lemma parsenum_loop_length: "parsenum_loop n b s = (m, p, rest) \<Longrightarrow> length rest \<le> length s"
  by (induction n b s rule: parsenum_loop.induct) (auto split: if_splits)

lemma parsenum_length: "parsenum s = (m, p, rest) \<Longrightarrow> length rest \<le> length s"
  by (simp add: parsenum_def parsenum_loop_length)

lemma arg_number_length: "arg_number s g = (rest, g', f) \<Longrightarrow> length rest \<le> length s"
  by (auto simp: arg_number_def split: list.splits if_splits prod.splits)

lemma verb_width_length: "verb_width (s, g, f) = (out, rest, g', f') \<Longrightarrow> length rest \<le> length s"
  by (auto simp: verb_width_def dest: parsenum_length split: if_splits prod.splits)

lemma verb_precision_length:
  assumes "verb_precision (out, s, g, f) = (out', rest, g', f')"
  shows "length rest \<le> length s"
proof (cases "starts_with (CHR ''.'') s")
  case True
  obtain s1 g1 f1 where a: "arg_number (tl s) (g \<and> \<not> f) = (s1, g1, f1)"
    by (metis prod_cases3)
  have "length s1 \<le> length s" using arg_number_length [OF a] by simp
  moreover have "length rest \<le> length s1"
    using assms True a
    by (auto simp: verb_precision_def dest: parsenum_length split: if_splits prod.splits)
  ultimately show ?thesis by simp
next
  case False
  with assms show ?thesis by (simp add: verb_precision_def)
qed

lemma format_verb_length: "length (snd (format_verb s)) \<le> length s"
proof -
  let ?s0 = "dropWhile (\<lambda>c. c \<in> set ''#0+- '') s"
  obtain s1 g1 f1 where 1: "arg_number ?s0 True = (s1, g1, f1)" by (metis prod_cases3)
  obtain o2 s2 g2 f2 where 2: "verb_width (s1, g1, f1) = (o2, s2, g2, f2)" by (metis prod_cases4)
  obtain o3 s3 g3 f3 where 3: "verb_precision (o2, s2, g2, f2) = (o3, s3, g3, f3)"
    by (metis prod_cases4)
  obtain s4 g4 f4 where 4: "(if f3 then (s3, g3, f3) else arg_number s3 g3) = (s4, g4, f4)"
    by (metis prod_cases3)
  have "length s4 \<le> length s3"
    using 4 by (auto dest: arg_number_length split: if_splits)
  also have "\<dots> \<le> length ?s0"
    using arg_number_length [OF 1] verb_width_length [OF 2] verb_precision_length [OF 3] by linarith
  also have "\<dots> \<le> length s" by (rule length_dropWhile_le)
  finally have "length s4 \<le> length s" .
  moreover have "length (snd (format_verb s)) \<le> length s4"
    using 1 2 3 4 by (simp add: format_verb_def split: prod.splits del: decode_rune.simps)
  ultimately show ?thesis by simp
qed

function sprintf0 :: "string \<Rightarrow> string" where
  "sprintf0 [] = []"
| "sprintf0 (c # cs) =
     (if c \<noteq> CHR ''%'' then c # sprintf0 cs
      else fst (format_verb cs) @ sprintf0 (snd (format_verb cs)))"
  by pat_completeness auto
termination
  by (relation "measure length") (auto simp: le_imp_less_Suc format_verb_length)

text \<open>A format without a percent sign is written as it is.\<close>

lemma sprintf0_no_percent: "CHR ''%'' \<notin> set s \<Longrightarrow> sprintf0 s = s"
  by (induction s) auto

lemma sprintf0_append: "CHR ''%'' \<notin> set s \<Longrightarrow> sprintf0 (s @ t) = s @ sprintf0 t"
  by (induction s) auto

end
