(* ===== verification/Go_Time.thy ===== *)
theory Go_Time
  imports Go_Strings
begin

section \<open>Durations and times\<close>

text \<open>
  What the sources use of Go's \<^verbatim>\<open>time\<close> package. A \<^verbatim>\<open>time.Duration\<close> is a signed 64-bit number of
  nanoseconds (an \<open>int\<close> with \<open>in_int64\<close>), a \<^verbatim>\<open>time.Time\<close> the nanoseconds since some epoch as
  an unbounded \<open>int\<close>. \<^verbatim>\<open>time.ParseDuration\<close> computes the fraction of a component in floating
  point; that one expression is the parameter \<open>frac\<close> of \<open>parse_duration\<close>
  (\<open>frac f unit scale\<close> is \<^verbatim>\<open>int64(float64(f) * (float64(unit) / scale))\<close>).
\<close>

type_synonym duration = int
type_synonym time = int

definition nanosecond :: duration where "nanosecond = 1"
definition microsecond :: duration where "microsecond = 1000"
definition millisecond :: duration where "millisecond = 1000000"
definition second :: duration where "second = 1000000000"
definition minute :: duration where "minute = 60000000000"
definition hour :: duration where "hour = 3600000000000"

lemmas duration_units = nanosecond_def microsecond_def millisecond_def second_def minute_def hour_def

text \<open>\<^verbatim>\<open>Time.Sub\<close> saturates at the ends of \<^verbatim>\<open>int64\<close> instead of wrapping.\<close>

definition time_sub :: "time \<Rightarrow> time \<Rightarrow> duration" where
  "time_sub t u = (if t - u < min_int64 then min_int64
                   else if max_int64 < t - u then max_int64 else t - u)"

text \<open>Subtraction of durations is plain \<^verbatim>\<open>int64\<close> arithmetic.\<close>

definition dur_sub :: "duration \<Rightarrow> duration \<Rightarrow> duration" where
  "dur_sub a b = wrap64 (a - b)"

lemma time_sub_in_int64 [simp]: "in_int64 (time_sub t u)"
  by (simp add: time_sub_def in_int64_def min_int64_def max_int64_def)

lemma time_sub_exact: "in_int64 (t - u) \<Longrightarrow> time_sub t u = t - u"
  by (simp add: time_sub_def in_int64_def)

lemma time_sub_mono: "t \<le> t' \<Longrightarrow> time_sub t u \<le> time_sub t' u"
  by (simp add: time_sub_def min_int64_def max_int64_def)

lemma time_sub_less_iff:
  "in_int64 d \<Longrightarrow> d < max_int64 \<Longrightarrow> d < time_sub t u \<longleftrightarrow> d < t - u"
  by (auto simp: time_sub_def in_int64_def)

subsection \<open>time.Duration.String\<close>

text \<open>\<^verbatim>\<open>fmtFrac\<close>: the digits of \<open>v mod 10 ^ prec\<close> after a point, trailing zeros omitted, and the
  rest of \<open>v\<close>.\<close>

fun fmt_frac :: "nat \<Rightarrow> bool \<Rightarrow> nat \<Rightarrow> string \<Rightarrow> string \<times> nat" where
  "fmt_frac 0 pr v acc = (if pr then CHR ''.'' # acc else acc, v)"
| "fmt_frac (Suc prec) pr v acc =
     (let d = v mod 10; pr' = (pr \<or> d \<noteq> 0)
      in fmt_frac prec pr' (v div 10) (if pr' then digit d # acc else acc))"

definition duration_string :: "duration \<Rightarrow> string" where
  "duration_string d =
     (let u = nat \<bar>d\<bar>;
          body =
            (if u < nat second then
               (if u = 0 then ''0s''
                else if u < nat microsecond then
                  (case fmt_frac 0 False u [] of (f, v) \<Rightarrow> utoa v @ f @ ''ns'')
                else if u < nat millisecond then
                  (case fmt_frac 3 False u [] of (f, v) \<Rightarrow> utoa v @ f @ [chr 194, chr 181, CHR ''s''])
                else (case fmt_frac 6 False u [] of (f, v) \<Rightarrow> utoa v @ f @ ''ms''))
             else
               (case fmt_frac 9 False u [] of (f, s) \<Rightarrow>
                  (if 0 < s div 60 then
                     (if 0 < s div 60 div 60 then utoa (s div 60 div 60) @ ''h'' else [])
                       @ utoa (s div 60 mod 60) @ ''m''
                   else []) @ utoa (s mod 60) @ f @ ''s''))
      in if d < 0 then CHR ''-'' # body else body)"

subsection \<open>time.ParseDuration\<close>

text \<open>\<^verbatim>\<open>leadingInt\<close>: the leading digits as an \<^verbatim>\<open>int64\<close>, \<open>None\<close> on overflow.\<close>

fun leading_int :: "int \<Rightarrow> string \<Rightarrow> (int \<times> string) option" where
  "leading_int x [] = Some (x, [])"
| "leading_int x (c # s) =
     (if \<not> is_digit c then Some (x, c # s)
      else if max_int64 div 10 < x then None
      else (let x' = wrap64 (x * 10 + int (digit_val c)) in
            if x' < 0 then None else leading_int x' s))"

text \<open>\<^verbatim>\<open>leadingFraction\<close>: the leading digits and the power of ten they are scaled by; digits that
  would overflow are skipped.\<close>

fun leading_fraction :: "int \<Rightarrow> int \<Rightarrow> bool \<Rightarrow> string \<Rightarrow> int \<times> int \<times> string" where
  "leading_fraction x scale ovf [] = (x, scale, [])"
| "leading_fraction x scale ovf (c # s) =
     (if \<not> is_digit c then (x, scale, c # s)
      else if ovf then leading_fraction x scale ovf s
      else if max_int64 div 10 < x then leading_fraction x scale True s
      else (let y = wrap64 (x * 10 + int (digit_val c)) in
            if y < 0 then leading_fraction x scale True s
            else leading_fraction y (scale * 10) ovf s))"

definition unit_map :: "string \<Rightarrow> int option" where
  "unit_map u =
     (if u = ''ns'' then Some nanosecond
      else if u = ''us'' then Some microsecond
      else if u = [chr 194, chr 181, CHR ''s''] then Some microsecond
      else if u = [chr 206, chr 188, CHR ''s''] then Some microsecond
      else if u = ''ms'' then Some millisecond
      else if u = ''s'' then Some second
      else if u = ''m'' then Some minute
      else if u = ''h'' then Some hour
      else None)"

definition num_char :: "char \<Rightarrow> bool" where
  "num_char c \<longleftrightarrow> c = CHR ''.'' \<or> is_digit c"

text \<open>One component \<^verbatim>\<open>[0-9]*(\.[0-9]*)?[a-z]+\<close>: its number (the integer, the fraction and
  the fraction's scale), its unit, and its value.\<close>

definition component_number :: "string \<Rightarrow> (int \<times> int \<times> int \<times> string) option" where
  "component_number s =
     (case leading_int 0 s of None \<Rightarrow> None
      | Some (v, s1) \<Rightarrow>
        if s1 \<noteq> [] \<and> hd s1 = CHR ''.'' then
          (case leading_fraction 0 1 False (tl s1) of (f, scale, s2) \<Rightarrow>
             if length s1 = length s \<and> length s2 = length (tl s1) then None
             else Some (v, f, scale, s2))
        else if length s1 = length s then None
        else Some (v, 0, 1, s1))"

definition component_unit :: "string \<Rightarrow> (int \<times> string) option" where
  "component_unit s =
     (let u = takeWhile (\<lambda>c. \<not> num_char c) s in
      if u = [] then None
      else map_option (\<lambda>unit. (unit, dropWhile (\<lambda>c. \<not> num_char c) s)) (unit_map u))"

definition component_value :: "(int \<Rightarrow> int \<Rightarrow> int \<Rightarrow> int) \<Rightarrow> int \<Rightarrow> int \<Rightarrow> int \<Rightarrow> int \<Rightarrow> int option" where
  "component_value frac v f scale unit =
     (if max_int64 div unit < v then None
      else (let v2 = (if 0 < f then wrap64 (v * unit + frac f unit scale) else v * unit) in
            if v2 < 0 then None else Some v2))"

definition parse_component :: "(int \<Rightarrow> int \<Rightarrow> int \<Rightarrow> int) \<Rightarrow> string \<Rightarrow> (int \<times> string) option" where
  "parse_component frac s =
     (case component_number s of None \<Rightarrow> None
      | Some (v, f, scale, s2) \<Rightarrow>
        (case component_unit s2 of None \<Rightarrow> None
         | Some (unit, s3) \<Rightarrow>
           map_option (\<lambda>w. (w, s3)) (component_value frac v f scale unit)))"

text \<open>The loop over the components; every pass consumes text, so the length of the text is
  enough fuel (\<open>parse_components_fuel\<close>).\<close>

fun parse_components :: "nat \<Rightarrow> (int \<Rightarrow> int \<Rightarrow> int \<Rightarrow> int) \<Rightarrow> int \<Rightarrow> string \<Rightarrow> int option" where
  "parse_components fuel frac d [] = Some d"
| "parse_components 0 frac d (c # s) = None"
| "parse_components (Suc fuel) frac d (c # s) =
     (if \<not> num_char c then None
      else case parse_component frac (c # s) of None \<Rightarrow> None
        | Some (v, rest) \<Rightarrow>
          (let d' = wrap64 (d + v) in
           if d' < 0 then None else parse_components fuel frac d' rest))"

definition parse_duration :: "(int \<Rightarrow> int \<Rightarrow> int \<Rightarrow> int) \<Rightarrow> string \<Rightarrow> duration option" where
  "parse_duration frac s0 =
     (let sign = (s0 \<noteq> [] \<and> (hd s0 = CHR ''-'' \<or> hd s0 = CHR ''+''));
          neg = (sign \<and> hd s0 = CHR ''-'');
          s = (if sign then tl s0 else s0) in
      if s = ''0'' then Some 0
      else if s = [] then None
      else map_option (\<lambda>d. if neg then - d else d) (parse_components (length s) frac 0 s))"

subsection \<open>The parser consumes text, and its results are 64-bit\<close>

lemma leading_int_split:
  "leading_int x s = Some (v, rest) \<Longrightarrow> length rest \<le> length s"
  by (induction x s rule: leading_int.induct) (auto simp: Let_def split: if_splits)

lemma leading_fraction_split:
  "leading_fraction x sc ov s = (f, scale, rest) \<Longrightarrow> length rest \<le> length s"
  by (induction x sc ov s rule: leading_fraction.induct)
    (auto simp: Let_def split: if_splits dest: le_SucI)

lemma leading_int_range:
  "leading_int x s = Some (v, rest) \<Longrightarrow> 0 \<le> x \<Longrightarrow> in_int64 x \<Longrightarrow> 0 \<le> v \<and> in_int64 v"
  by (induction x s rule: leading_int.induct) (auto simp: Let_def split: if_splits)

lemma length_dropWhile_less:
  "takeWhile P s \<noteq> [] \<Longrightarrow> length (dropWhile P s) < length s"
  by (cases s) (auto simp: le_imp_less_Suc length_dropWhile_le split: if_splits)

lemma component_number_length:
  assumes "component_number s = Some (v, f, scale, rest)"
  shows "length rest \<le> length s"
proof -
  obtain w s1 where l: "leading_int 0 s = Some (w, s1)"
    using assms by (auto simp: component_number_def split: option.splits)
  have "length rest \<le> length s1"
    using assms l
    by (auto simp: component_number_def split: if_splits prod.splits dest!: leading_fraction_split)
  with leading_int_split [OF l] show ?thesis by simp
qed

lemma component_unit_shorter:
  "component_unit s = Some (unit, rest) \<Longrightarrow> length rest < length s"
  by (auto simp: component_unit_def Let_def length_dropWhile_less split: if_splits)

lemma parse_component_shorter:
  assumes "parse_component frac s = Some (v, rest)"
  shows "length rest < length s"
  using assms
  by (auto simp: parse_component_def split: option.splits prod.splits
      dest!: component_number_length component_unit_shorter)

text \<open>Fuel beyond the length of the text changes nothing: the loop always ends by itself.\<close>

lemma parse_components_fuel:
  "length s \<le> m \<Longrightarrow> length s \<le> n \<Longrightarrow> parse_components m frac d s = parse_components n frac d s"
proof (induction m arbitrary: n d s)
  case (Suc m)
  show ?case
  proof (cases s)
    case (Cons c cs)
    with Suc.prems obtain n' where n: "n = Suc n'" by (cases n) auto
    have "parse_components m frac d' rest = parse_components n' frac d' rest"
      if "parse_component frac (c # cs) = Some (v, rest)" for v rest d'
      using parse_component_shorter [OF that] Suc.prems Cons n by (intro Suc.IH) auto
    with Cons n show ?thesis by (simp add: Let_def split: option.split)
  qed simp
qed simp

lemma parse_components_range:
  "parse_components n frac d s = Some r \<Longrightarrow> 0 \<le> d \<Longrightarrow> in_int64 d \<Longrightarrow> 0 \<le> r \<and> in_int64 r"
  by (induction n frac d s rule: parse_components.induct)
    (auto simp: Let_def split: if_splits option.splits)

lemma in_int64_uminus: "0 \<le> x \<Longrightarrow> in_int64 x \<Longrightarrow> in_int64 (- x)"
  by (simp add: in_int64_def min_int64_def max_int64_def)

lemma parse_duration_in_int64:
  assumes "parse_duration frac s = Some d"
  shows "in_int64 d"
proof -
  have zero: "in_int64 0" by (simp add: in_int64_def min_int64_def max_int64_def)
  show ?thesis
    using assms zero
    by (auto simp: parse_duration_def Let_def in_int64_uminus
        dest!: parse_components_range split: if_splits)
qed

end
