(* ===== verification/Common.thy ===== *)
theory Common
  imports Go_Time
begin

section \<open>Package common: errors, reasons and the request context\<close>

text \<open>
  The package \<^verbatim>\<open>pkg/common\<close>: the error types and \<^verbatim>\<open>ReasonError\<close> of \<^verbatim>\<open>errors.go\<close>, the constants of
  \<^verbatim>\<open>labels.go\<close>, \<^verbatim>\<open>messages.go\<close>, \<^verbatim>\<open>statuses.go\<close> and \<^verbatim>\<open>annotations.go\<close>, and the request-scoped values of
  \<^verbatim>\<open>context.go\<close>. The datatype \<open>err\<close> holds every error value the program handles: the error
  structs of this package, the errors knative's controller reacts to (\<^verbatim>\<open>permanentError\<close>,
  \<^verbatim>\<open>skipKeyError\<close>, \<^verbatim>\<open>requeueKeyError\<close>), API status errors, \<^verbatim>\<open>fmt.Errorf\<close> with \<^verbatim>\<open>%w\<close>
  (\<open>WrapError\<close>: the text before the verb and the wrapped error) and plain texts
  (\<open>ErrorString\<close>). An \<^verbatim>\<open>Original\<close> error is never nil: every construction in the sources passes
  an error it has just found not to be nil.
\<close>

subsection \<open>Errors\<close>

datatype err =
    ErrorString string
  | WrapError string err
  | Error (Error_Reason: string) (Error_Original: err)
  | ErrorInvalidResourceKey string err
  | ErrorInvalidRequest string string
  | ErrorGettingResource string string err
  | ErrorUpdatingRequest string err
  | PermanentError err
  | SkipKeyError string
  | RequeueKeyError duration
  | StatusError string int string
  | ReconcilerEvent string string string
  | DeadlineExceeded
  | Canceled

type_synonym 'a res = "err + 'a"

text \<open>The \<^verbatim>\<open>Error()\<close> methods.\<close>

primrec err_message :: "(nat \<Rightarrow> bool) \<Rightarrow> err \<Rightarrow> string" where
  "err_message ip (ErrorString msg) = msg"
| "err_message ip (WrapError prefix e) = prefix @ err_message ip e"
| "err_message ip (Error reason original) = err_message ip original"
| "err_message ip (ErrorInvalidResourceKey key original) =
     ''invalid resource key '' @ quote ip key @ '': '' @ err_message ip original"
| "err_message ip (ErrorInvalidRequest key message) =
     ''invalid resource request '' @ quote ip key @ '': '' @ message"
| "err_message ip (ErrorGettingResource resolverName key original) =
     ''error getting '' @ quote ip resolverName @ '' '' @ quote ip key @ '': '' @ err_message ip original"
| "err_message ip (ErrorUpdatingRequest key original) =
     ''error updating resource request '' @ quote ip key @ '' with data: '' @ err_message ip original"
| "err_message ip (PermanentError e) = err_message ip e"
| "err_message ip (SkipKeyError key) = ''skipped key: '' @ quote ip key"
| "err_message ip (RequeueKeyError d) = ''requeue after: '' @ duration_string d"
| "err_message ip (StatusError reason code message) = message"
| "err_message ip (ReconcilerEvent ty reason message) = message"
| "err_message ip DeadlineExceeded = ''context deadline exceeded''"
| "err_message ip Canceled = ''context canceled''"

text \<open>The \<^verbatim>\<open>Unwrap()\<close> methods; \<open>None\<close> where there is none.\<close>

fun err_unwrap :: "err \<Rightarrow> err option" where
  "err_unwrap (WrapError prefix e) = Some e"
| "err_unwrap (Error reason original) = Some original"
| "err_unwrap (ErrorInvalidResourceKey key original) = Some original"
| "err_unwrap (ErrorGettingResource resolverName key original) = Some original"
| "err_unwrap (ErrorUpdatingRequest key original) = Some original"
| "err_unwrap (PermanentError e) = Some e"
| "err_unwrap _ = None"

text \<open>The chain \<^verbatim>\<open>errors.Is\<close> and \<^verbatim>\<open>errors.As\<close> walk: the error, then what it unwraps to, and so on.\<close>

lemma err_unwrap_size [termination_simp]: "err_unwrap e = Some e' \<Longrightarrow> size e' < size e"
  by (cases e) auto

fun err_chain :: "err \<Rightarrow> err list" where
  "err_chain e = e # (case err_unwrap e of None \<Rightarrow> [] | Some e' \<Rightarrow> err_chain e')"

declare err_chain.simps [simp del]

definition NewError :: "string \<Rightarrow> err \<Rightarrow> err" where
  "NewError reason e = Error reason e"

definition ErrorRequestInProgress :: err where
  "ErrorRequestInProgress =
     NewError ''RequestInProgress'' (ErrorString ''Resource request is still in-progress'')"

subsection \<open>Constants\<close>

definition AnnotationKeyContentType :: string where
  "AnnotationKeyContentType = ''content-type''"

definition LabelKeyResolverType :: string where
  "LabelKeyResolverType = ''resolution.tekton.dev/type''"

definition MessageWaitingForResolver :: string where
  "MessageWaitingForResolver = ''waiting for resolver''"

definition ReasonResolutionInProgress :: string where
  "ReasonResolutionInProgress = ''ResolutionInProgress''"

definition ReasonResolutionSuccessful :: string where
  "ReasonResolutionSuccessful = ''ResolutionSuccessful''"

definition ReasonResolutionFailed :: string where
  "ReasonResolutionFailed = ''ResolutionFailed''"

definition ReasonResolutionTimedOut :: string where
  "ReasonResolutionTimedOut = ''ResolutionTimedOut''"

subsection \<open>ReasonError\<close>

definition ReasonError :: "err \<Rightarrow> string \<times> err" where
  "ReasonError e =
     (case e of Error reason original \<Rightarrow> (reason, original)
      | _ \<Rightarrow> (ReasonResolutionFailed, e))"

subsection \<open>The errors knative's controller reacts to\<close>

definition IsPermanentError :: "err \<Rightarrow> bool" where
  "IsPermanentError e \<longleftrightarrow> list_ex (\<lambda>x. case x of PermanentError _ \<Rightarrow> True | _ \<Rightarrow> False) (err_chain e)"

definition IsSkipKey :: "err \<Rightarrow> bool" where
  "IsSkipKey e \<longleftrightarrow> list_ex (\<lambda>x. case x of SkipKeyError _ \<Rightarrow> True | _ \<Rightarrow> False) (err_chain e)"

fun first_requeue :: "err list \<Rightarrow> duration option" where
  "first_requeue [] = None"
| "first_requeue (RequeueKeyError d # es) = Some d"
| "first_requeue (e # es) = first_requeue es"

definition IsRequeueKey :: "err \<Rightarrow> duration option" where
  "IsRequeueKey e = first_requeue (err_chain e)"

text \<open>\<^verbatim>\<open>reasonAndCodeForError\<close>: the first API status in the chain.\<close>

fun first_status :: "err list \<Rightarrow> string \<times> int" where
  "first_status [] = ([], 0)"
| "first_status (StatusError reason code message # es) = (reason, code)"
| "first_status (e # es) = first_status es"

text \<open>The predicates of \<^verbatim>\<open>k8s.io/apimachinery/pkg/api/errors\<close>, with the reason and the HTTP code
  each of them looks for; an unknown reason is judged by the code.\<close>

definition known_reasons :: "string list" where
  "known_reasons =
     [''Unauthorized'', ''Forbidden'', ''NotFound'', ''AlreadyExists'', ''Conflict'', ''Gone'', ''Invalid'',
      ''ServerTimeout'', ''Timeout'', ''TooManyRequests'', ''BadRequest'', ''MethodNotAllowed'',
      ''NotAcceptable'', ''RequestEntityTooLarge'', ''UnsupportedMediaType'', ''InternalError'',
      ''Expired'', ''ServiceUnavailable'']"

definition status_is :: "string \<Rightarrow> int \<Rightarrow> err \<Rightarrow> bool" where
  "status_is reason code e =
     (case first_status (err_chain e) of (r, c) \<Rightarrow>
        r = reason \<or> (r \<notin> set known_reasons \<and> c = code))"

definition IsNotFound :: "err \<Rightarrow> bool" where
  "IsNotFound e = status_is ''NotFound'' 404 e"

definition IsConflict :: "err \<Rightarrow> bool" where
  "IsConflict e = status_is ''Conflict'' 409 e"

subsection \<open>The request context\<close>

text \<open>
  A \<^verbatim>\<open>context.Context\<close> as the chain of derivations that made it. The keys are values of two
  different Go types (\<^verbatim>\<open>contextKey{}\<close> of \<^verbatim>\<open>context.go\<close>, \<^verbatim>\<open>struct{}{}\<close> of \<^verbatim>\<open>configstore.go\<close>), so they
  never shadow each other. A deadline (\<^verbatim>\<open>context.WithTimeout\<close>) passes every value through.
\<close>

datatype ctx_key = RequestNamespaceKey | ResolverConfigKey

datatype ctx_val = StringVal string | MapVal gomap

datatype ctx = Background | WithValue ctx ctx_key ctx_val | WithTimeout ctx duration

fun ctx_value :: "ctx \<Rightarrow> ctx_key \<Rightarrow> ctx_val option" where
  "ctx_value Background k = None"
| "ctx_value (WithValue c k' v) k = (if k = k' then Some v else ctx_value c k)"
| "ctx_value (WithTimeout c d) k = ctx_value c k"

definition InjectRequestNamespace :: "ctx \<Rightarrow> string \<Rightarrow> ctx" where
  "InjectRequestNamespace c ns =
     (case ctx_value c RequestNamespaceKey of
        Some _ \<Rightarrow> c
      | None \<Rightarrow> WithValue c RequestNamespaceKey (StringVal ns))"

definition RequestNamespace :: "ctx \<Rightarrow> string" where
  "RequestNamespace c =
     (case ctx_value c RequestNamespaceKey of
        Some (StringVal s) \<Rightarrow> s
      | _ \<Rightarrow> [])"

subsection \<open>Lemmas\<close>

lemmas [go_defs] = NewError_def RequestNamespace_def InjectRequestNamespace_def

lemma err_chain_self [simp]: "e \<in> set (err_chain e)"
  by (subst err_chain.simps) simp

lemma IsPermanentError_PermanentError [simp]: "IsPermanentError (PermanentError e)"
  by (simp add: IsPermanentError_def err_chain.simps)

lemma IsPermanentError_unwrap: "err_unwrap e = Some e' \<Longrightarrow> IsPermanentError e' \<Longrightarrow> IsPermanentError e"
  by (simp add: IsPermanentError_def err_chain.simps [of e])

lemma first_status_unwrap:
  "err_unwrap e = Some e' \<Longrightarrow> first_status (err_chain e) = first_status (err_chain e')"
  by (subst err_chain.simps) (cases e; simp)

lemma ReasonError_message [simp]: "err_message ip (snd (ReasonError e)) = err_message ip e"
  by (cases e) (simp_all add: ReasonError_def)

lemma ReasonError_other:
  "(\<And>r x. e \<noteq> Error r x) \<Longrightarrow> ReasonError e = (ReasonResolutionFailed, e)"
  by (auto simp: ReasonError_def split: err.split)

lemma ctx_value_Inject:
  "ctx_value (InjectRequestNamespace c ns) k =
     (if k = RequestNamespaceKey \<and> ctx_value c k = None then Some (StringVal ns) else ctx_value c k)"
  by (auto simp: InjectRequestNamespace_def split: option.splits)

lemma RequestNamespace_timeout [simp]: "RequestNamespace (WithTimeout c d) = RequestNamespace c"
  by (simp add: RequestNamespace_def)

end
