(* ===== verification/Json.thy ===== *)
theory Json
  imports Common
begin

section \<open>JSON values\<close>

text \<open>
  What the sources use of \<^verbatim>\<open>encoding/json\<close> and of the JSON merge patches of
  \<^verbatim>\<open>github.com/evanphx/json-patch\<close>, on values instead of text: the tree that the text of a document
  denotes. Numbers are integers, since no type of the program has another kind; an object is the
  list of its members in the order of the text. The text of a type mismatch names Go types and
  positions; it is the argument \<open>mm\<close> of the decoders, a function of the field and the value.
\<close>

datatype json = JNull | JBool bool | JNum int | JStr string | JArr "json list" | JObj "(string \<times> json) list"

subsection \<open>Strings\<close>

text \<open>Strings are coerced to valid UTF-8 when they are encoded.\<close>

function json_string :: "string \<Rightarrow> string" where
  "json_string s =
     (if s = [] then []
      else case decode_rune s of (r, w) \<Rightarrow> encode_rune r @ json_string (drop (max 1 w) s))"
  by pat_completeness auto
termination by (relation "measure length") auto

declare json_string.simps [simp del]

lemma json_string_Nil [simp]: "json_string [] = []"
  by (simp add: json_string.simps)

lemma json_string_ascii: "\<forall>c \<in> set s. byte c < 128 \<Longrightarrow> json_string s = s"
proof (induction s)
  case (Cons c s)
  then show ?case
    by (subst json_string.simps) (simp add: encode_rune_def chr_def del: decode_rune.simps)
qed simp

subsection \<open>Encoding\<close>

definition enc_str :: "string \<Rightarrow> json" where
  "enc_str s = JStr (json_string s)"

text \<open>A map is an object with its keys in sorted order.\<close>

definition enc_map :: "gomap \<Rightarrow> json" where
  "enc_map m =
     (case m of None \<Rightarrow> JNull
      | Some al \<Rightarrow> JObj (map (\<lambda>(k, v). (json_string k, enc_str v)) (sort_key fst al)))"

text \<open>The members of struct fields with the option \<^verbatim>\<open>omitempty\<close>.\<close>

definition omit_str :: "string \<Rightarrow> string \<Rightarrow> (string \<times> json) list" where
  "omit_str name s = (if s = [] then [] else [(name, enc_str s)])"

definition omit_int :: "string \<Rightarrow> int \<Rightarrow> (string \<times> json) list" where
  "omit_int name i = (if i = 0 then [] else [(name, JNum i)])"

definition omit_map :: "string \<Rightarrow> gomap \<Rightarrow> (string \<times> json) list" where
  "omit_map name m = (if go_entries m = [] then [] else [(name, enc_map m)])"

definition omit_list :: "string \<Rightarrow> ('a \<Rightarrow> json) \<Rightarrow> 'a list \<Rightarrow> (string \<times> json) list" where
  "omit_list name enc xs = (if xs = [] then [] else [(name, JArr (map enc xs))])"

lemmas enc_defs = enc_str_def omit_str_def omit_int_def omit_map_def omit_list_def

subsection \<open>Decoding\<close>

text \<open>The field of a struct a key stands for: the one with that name, otherwise the first one whose
  name is equal under case folding (where the Kelvin sign folds to \<^verbatim>\<open>k\<close> and the long s to \<^verbatim>\<open>s\<close>).\<close>

fun fold_key :: "string \<Rightarrow> string" where
  "fold_key [] = []"
| "fold_key (c # s) =
     (if c = chr 226 \<and> take 2 s = [chr 132, chr 170] then CHR ''k'' # fold_key (drop 2 s)
      else if c = chr 197 \<and> take 1 s = [chr 191] then CHR ''s'' # fold_key (drop 1 s)
      else (if 65 \<le> byte c \<and> byte c \<le> 90 then chr (byte c + 32) else c) # fold_key s)"

type_synonym 'a setter = "json \<Rightarrow> 'a \<Rightarrow> 'a res"

definition find_field :: "(string \<times> 'b) list \<Rightarrow> string \<Rightarrow> 'b option" where
  "find_field fields key =
     (case map_of fields key of
        Some f \<Rightarrow> Some f
      | None \<Rightarrow> map_option snd (find (\<lambda>(name, _). fold_key name = fold_key key) fields))"

text \<open>The members of an object are decoded one after the other into the target. An unknown member is
  skipped, or an error when the decoder disallows it. The first error is the one returned.\<close>

fun dec_members :: "(nat \<Rightarrow> bool) \<Rightarrow> bool \<Rightarrow> (string \<times> 'a setter) list \<Rightarrow> (string \<times> json) list \<Rightarrow> 'a \<Rightarrow> 'a res" where
  "dec_members ip strict fields [] x = Inr x"
| "dec_members ip strict fields ((key, v) # members) x =
     (case find_field fields key of
        None \<Rightarrow>
          if strict then Inl (ErrorString (''json: unknown field '' @ quote ip key))
          else dec_members ip strict fields members x
      | Some set_field \<Rightarrow>
          (case set_field v x of
             Inl e \<Rightarrow> Inl e
           | Inr y \<Rightarrow> dec_members ip strict fields members y))"

text \<open>A value into a struct: null leaves it alone.\<close>

definition dec_struct :: "(string \<Rightarrow> json \<Rightarrow> string) \<Rightarrow> (nat \<Rightarrow> bool) \<Rightarrow> bool \<Rightarrow> string \<Rightarrow> (string \<times> 'a setter) list \<Rightarrow> 'a setter" where
  "dec_struct mm ip strict name fields j x =
     (case j of
        JObj members \<Rightarrow> dec_members ip strict fields members x
      | JNull \<Rightarrow> Inr x
      | _ \<Rightarrow> Inl (ErrorString (mm name j)))"

text \<open>Values into strings, integers, maps of strings and slices. A map that is there already is
  extended. A slice is decoded from its beginning.\<close>

definition dec_str :: "(string \<Rightarrow> json \<Rightarrow> string) \<Rightarrow> string \<Rightarrow> json \<Rightarrow> string \<Rightarrow> string res" where
  "dec_str mm name j old =
     (case j of JStr s \<Rightarrow> Inr s | JNull \<Rightarrow> Inr old | _ \<Rightarrow> Inl (ErrorString (mm name j)))"

definition dec_int :: "(string \<Rightarrow> json \<Rightarrow> string) \<Rightarrow> string \<Rightarrow> json \<Rightarrow> int \<Rightarrow> int res" where
  "dec_int mm name j old =
     (case j of
        JNum i \<Rightarrow> if in_int64 i then Inr i else Inl (ErrorString (mm name j))
      | JNull \<Rightarrow> Inr old
      | _ \<Rightarrow> Inl (ErrorString (mm name j)))"

fun dec_entries :: "(string \<Rightarrow> json \<Rightarrow> string) \<Rightarrow> string \<Rightarrow> (string \<times> json) list \<Rightarrow> (string \<times> string) list \<Rightarrow> (string \<times> string) list res" where
  "dec_entries mm name [] al = Inr al"
| "dec_entries mm name ((k, j) # members) al =
     (case dec_str mm name j [] of
        Inl e \<Rightarrow> Inl e
      | Inr v \<Rightarrow> dec_entries mm name members (AList.update k v al))"

definition dec_map :: "(string \<Rightarrow> json \<Rightarrow> string) \<Rightarrow> string \<Rightarrow> json \<Rightarrow> gomap \<Rightarrow> gomap res" where
  "dec_map mm name j old =
     (case j of
        JObj members \<Rightarrow> map_sum id Some (dec_entries mm name members (go_entries old))
      | JNull \<Rightarrow> Inr None
      | _ \<Rightarrow> Inl (ErrorString (mm name j)))"

fun dec_elems :: "(json \<Rightarrow> 'a res) \<Rightarrow> json list \<Rightarrow> 'a list res" where
  "dec_elems dec [] = Inr []"
| "dec_elems dec (j # js) =
     (case dec j of
        Inl e \<Rightarrow> Inl e
      | Inr x \<Rightarrow> (case dec_elems dec js of Inl e \<Rightarrow> Inl e | Inr xs \<Rightarrow> Inr (x # xs)))"

definition dec_list :: "(string \<Rightarrow> json \<Rightarrow> string) \<Rightarrow> string \<Rightarrow> (json \<Rightarrow> 'a res) \<Rightarrow> json \<Rightarrow> 'a list res" where
  "dec_list mm name dec j =
     (case j of
        JArr js \<Rightarrow> dec_elems dec js
      | JNull \<Rightarrow> Inr []
      | _ \<Rightarrow> Inl (ErrorString (mm name j)))"

definition fld :: "('a \<Rightarrow> 'b) \<Rightarrow> ('b \<Rightarrow> 'a \<Rightarrow> 'a) \<Rightarrow> (json \<Rightarrow> 'b \<Rightarrow> 'b res) \<Rightarrow> 'a setter" where
  "fld get put dec j x = map_sum id (\<lambda>v. put v x) (dec j (get x))"

subsection \<open>Merge patches\<close>

text \<open>\<^verbatim>\<open>jsonpatch.MergePatch\<close> (RFC 7386) on documents that are objects: a null member of the patch removes,
  an object is merged into an object, anything else replaces; where nothing is replaced the null
  members inside the new value are dropped.\<close>

fun prune :: "json \<Rightarrow> json" where
  "prune (JObj ms) = JObj (map (\<lambda>(k, v). (k, prune v)) (filter (\<lambda>(k, v). v \<noteq> JNull) ms))"
| "prune (JArr js) = JArr (map prune js)"
| "prune j = j"

fun merge_json :: "json \<Rightarrow> json \<Rightarrow> json"
  and merge_docs :: "(string \<times> json) list \<Rightarrow> (string \<times> json) list \<Rightarrow> (string \<times> json) list" where
  "merge_json (JObj doc) (JObj patch) = JObj (merge_docs doc patch)"
| "merge_json (JObj doc) patch = patch"
| "merge_json cur patch = prune patch"
| "merge_docs doc [] = doc"
| "merge_docs doc ((k, v) # patch) =
     merge_docs
       (if v = JNull then AList.delete k doc
        else case map_of doc k of
          None \<Rightarrow> AList.update k (prune v) doc
        | Some cur \<Rightarrow> if cur = JNull then AList.update k (prune v) doc else AList.update k (merge_json cur v) doc)
       patch"

subsection \<open>Lemmas\<close>

lemma dec_members_append:
  "dec_members ip strict fields (a @ b) x =
     (case dec_members ip strict fields a x of Inl e \<Rightarrow> Inl e | Inr y \<Rightarrow> dec_members ip strict fields b y)"
  by (induction ip strict fields a x rule: dec_members.induct) (simp_all split: option.split sum.split)

lemma dec_step:
  "dec_members ip strict fields a x = Inr y \<Longrightarrow> dec_members ip strict fields b y = z \<Longrightarrow>
   dec_members ip strict fields (a @ b) x = z"
  by (simp add: dec_members_append)

lemma dec_field:
  "find_field fields name = Some F \<Longrightarrow> F v x = Inr y \<Longrightarrow> dec_members ip strict fields [(name, v)] x = Inr y"
  by simp

text \<open>Members that are there only when they are not empty decode to the field, into a target that has
  the zero value in it.\<close>

lemma dec_omit_str:
  assumes "find_field fields name = Some (fld get put (dec_str mm name))" "put (get x) x = x" "get x = []"
    and "json_string s = s"
  shows "dec_members ip strict fields (omit_str name s) x = Inr (put s x)"
  using assms by (auto simp: omit_str_def enc_str_def fld_def dec_str_def)

lemma dec_omit_int:
  assumes "find_field fields name = Some (fld get put (dec_int mm name))" "put (get x) x = x" "get x = 0"
    and "in_int64 i"
  shows "dec_members ip strict fields (omit_int name i) x = Inr (put i x)"
  using assms by (auto simp: omit_int_def fld_def dec_int_def)

lemma dec_elems_map: "(\<And>x. x \<in> set xs \<Longrightarrow> dec (enc x) = Inr (f x)) \<Longrightarrow> dec_elems dec (map enc xs) = Inr (map f xs)"
  by (induction xs) simp_all

lemma dec_omit_list:
  assumes "find_field fields name = Some (fld get put (\<lambda>j _. dec_list mm name dec j))" "put (get x) x = x" "get x = []"
    and "\<And>y. y \<in> set ys \<Longrightarrow> dec (enc y) = Inr (f y)"
  shows "dec_members ip strict fields (omit_list name enc ys) x = Inr (put (map f ys) x)"
  using assms by (auto simp: omit_list_def fld_def dec_list_def dec_elems_map)

text \<open>A map whose strings are valid UTF-8 decodes to the same map, in the order of its keys.\<close>

definition utf8_map :: "gomap \<Rightarrow> bool" where
  "utf8_map m = list_all (\<lambda>(k, v). json_string k = k \<and> json_string v = v) (go_entries m)"

lemma dec_entries_sorted:
  assumes "list_all (\<lambda>(k, v). json_string k = k \<and> json_string v = v) al" "distinct (map fst (acc @ al))"
  shows "dec_entries mm name (map (\<lambda>(k, v). (json_string k, enc_str v)) al) acc = Inr (acc @ al)"
  using assms
proof (induction al arbitrary: acc)
  case (Cons p al)
  obtain k v where p: "p = (k, v)" by fastforce
  have new: "AList.update k v acc = acc @ [(k, v)]"
    using Cons.prems(2) unfolding p by (intro update_fresh) auto
  then show ?case using Cons.IH [of "acc @ [(k, v)]"] Cons.prems unfolding p
    by (simp add: enc_str_def dec_str_def)
qed simp

definition sorted_map :: "gomap \<Rightarrow> gomap" where
  "sorted_map m = (if go_entries m = [] then None else Some (sort_key fst (go_entries m)))"

lemma sorted_map_entries: "set (go_entries (sorted_map m)) = set (go_entries m)"
  by (simp add: sorted_map_def)

lemma dec_omit_map:
  assumes "find_field fields name = Some (fld get put (dec_map mm name))" "put (get x) x = x" "get x = None"
    and "go_wf m" "utf8_map m"
  shows "dec_members ip strict fields (omit_map name m) x = Inr (put (sorted_map m) x)"
proof (cases "go_entries m = []")
  case True
  with assms(2,3) show ?thesis by (simp add: omit_map_def sorted_map_def)
next
  case False
  then obtain al where m: "m = Some al" by (cases m) simp_all
  have "dec_entries mm name (map (\<lambda>(k, v). (json_string k, enc_str v)) (sort_key fst al)) [] = Inr (sort_key fst al)"
    using assms(4,5) dec_entries_sorted [of "sort_key fst al" "[]"]
    by (simp add: m go_wf_def utf8_map_def list_all_iff map_fst_sort_key_distinct)
  with False assms(1,3) show ?thesis
    by (simp add: m omit_map_def sorted_map_def enc_map_def fld_def dec_map_def)
qed

end
