(* ===== verification/Conditions.thy ===== *)
theory Conditions
  imports Common
begin

section \<open>Condition sets\<close>

text \<open>
  The knative condition manager (\<^verbatim>\<open>vendor/knative.dev/pkg/apis/condition_set.go\<close> and
  \<^verbatim>\<open>condition_types.go\<close>) that every status change of a ResolutionRequest goes through. The
  manager's accessor is the list of conditions; the manager's methods take that list and
  return the new one. The methods read \<^verbatim>\<open>time.Now()\<close> once per condition they set:
  \<open>clk i\<close> is the \<open>i\<close>-th reading. Messages are formats without operands, as in every call of
  this program, hence \<open>sprintf0\<close>.
\<close>

subsection \<open>Conditions\<close>

record condition =
  c_type :: string
  c_status :: string
  c_severity :: string
  c_ltt :: time
  c_reason :: string
  c_message :: string

type_synonym clock = "nat \<Rightarrow> time"

definition ConditionReady :: string where "ConditionReady = ''Ready''"
definition ConditionSucceeded :: string where "ConditionSucceeded = ''Succeeded''"

definition ConditionTrue :: string where "ConditionTrue = ''True''"
definition ConditionFalse :: string where "ConditionFalse = ''False''"
definition ConditionUnknown :: string where "ConditionUnknown = ''Unknown''"

definition SeverityError :: string where "SeverityError = []"
definition SeverityInfo :: string where "SeverityInfo = ''Info''"

lemmas cond_consts =
  ConditionReady_def ConditionSucceeded_def ConditionTrue_def ConditionFalse_def ConditionUnknown_def
  SeverityError_def SeverityInfo_def

text \<open>A condition with the zero values of its unset fields.\<close>

definition mk_condition :: "string \<Rightarrow> string \<Rightarrow> string \<Rightarrow> string \<Rightarrow> string \<Rightarrow> condition" where
  "mk_condition ty st sev reason message =
     \<lparr> c_type = ty, c_status = st, c_severity = sev, c_ltt = 0, c_reason = reason, c_message = message \<rparr>"

text \<open>The methods of \<^verbatim>\<open>*Condition\<close> accept a nil receiver.\<close>

definition IsTrue :: "condition option \<Rightarrow> bool" where
  "IsTrue c = (case c of None \<Rightarrow> False | Some c \<Rightarrow> c_status c = ConditionTrue)"

definition IsFalse :: "condition option \<Rightarrow> bool" where
  "IsFalse c = (case c of None \<Rightarrow> False | Some c \<Rightarrow> c_status c = ConditionFalse)"

definition IsUnknown :: "condition option \<Rightarrow> bool" where
  "IsUnknown c = (case c of None \<Rightarrow> True | Some c \<Rightarrow> c_status c = ConditionUnknown)"

definition GetReason :: "condition option \<Rightarrow> string" where
  "GetReason c = (case c of None \<Rightarrow> [] | Some c \<Rightarrow> c_reason c)"

definition GetMessage :: "condition option \<Rightarrow> string" where
  "GetMessage c = (case c of None \<Rightarrow> [] | Some c \<Rightarrow> c_message c)"

subsection \<open>The condition set\<close>

record cond_set =
  happy :: string
  dependents :: "string list"

fun new_deps :: "string \<Rightarrow> string list \<Rightarrow> string list \<Rightarrow> string list" where
  "new_deps h deps [] = deps"
| "new_deps h deps (d # ds) =
     (if d = h \<or> d \<in> set deps then new_deps h deps ds else new_deps h (deps @ [d]) ds)"

definition newConditionSet :: "string \<Rightarrow> string list \<Rightarrow> cond_set" where
  "newConditionSet h ds = \<lparr> happy = h, dependents = new_deps h [] ds \<rparr>"

definition NewBatchConditionSet :: "string list \<Rightarrow> cond_set" where
  "NewBatchConditionSet ds = newConditionSet ConditionSucceeded ds"

subsection \<open>Reading and setting one condition\<close>

definition GetCondition :: "condition list \<Rightarrow> string \<Rightarrow> condition option" where
  "GetCondition conds t = List.find (\<lambda>c. c_type c = t) conds"

text \<open>The loop of \<^verbatim>\<open>SetCondition\<close>: \<open>None\<close> is the early return, when only the transition time would
  change.\<close>

fun set_loop :: "condition \<Rightarrow> condition list \<Rightarrow> condition list \<Rightarrow> condition list option" where
  "set_loop cond acc [] = Some acc"
| "set_loop cond acc (c # cs) =
     (if c_type c \<noteq> c_type cond then set_loop cond (acc @ [c]) cs
      else if cond\<lparr>c_ltt := c_ltt c\<rparr> = c then None
      else set_loop cond acc cs)"

definition SetCondition :: "time \<Rightarrow> condition list \<Rightarrow> condition \<Rightarrow> condition list" where
  "SetCondition now conds cond =
     (case set_loop cond [] conds of
        None \<Rightarrow> conds
      | Some acc \<Rightarrow> sort_key c_type (acc @ [cond\<lparr>c_ltt := now\<rparr>]))"

definition isTerminal :: "cond_set \<Rightarrow> string \<Rightarrow> bool" where
  "isTerminal cs t \<longleftrightarrow> t \<in> set (dependents cs) \<or> t = happy cs"

definition severity :: "cond_set \<Rightarrow> string \<Rightarrow> string" where
  "severity cs t = (if isTerminal cs t then SeverityError else SeverityInfo)"

subsection \<open>The marking operations\<close>

definition findUnhappyDependent :: "cond_set \<Rightarrow> condition list \<Rightarrow> condition option" where
  "findUnhappyDependent cs conds =
     (if dependents cs = [] then None
      else let terminal = sort_key (\<lambda>c. - c_ltt c)
                 (filter (\<lambda>c. c_severity c = SeverityError \<and> c_type c \<noteq> happy cs) conds) in
        case List.find (\<lambda>c. IsFalse (Some c)) terminal of
          Some c \<Rightarrow> Some c
        | None \<Rightarrow>
          (case List.find (\<lambda>c. IsUnknown (Some c)) terminal of
             Some c \<Rightarrow> Some c
           | None \<Rightarrow>
             (if length terminal < length (dependents cs)
              then Some (mk_condition [] ConditionUnknown [] [] []) else None)))"

definition recomputeHappiness :: "cond_set \<Rightarrow> time \<Rightarrow> condition list \<Rightarrow> string \<Rightarrow> condition list" where
  "recomputeHappiness cs now conds t =
     (case findUnhappyDependent cs conds of
        Some c \<Rightarrow> SetCondition now conds
          (mk_condition (happy cs) (c_status c) (severity cs (happy cs)) (c_reason c) (c_message c))
      | None \<Rightarrow>
        (if t \<noteq> happy cs
         then SetCondition now conds (mk_condition (happy cs) ConditionTrue (severity cs (happy cs)) [] [])
         else conds))"

definition MarkTrue :: "cond_set \<Rightarrow> clock \<Rightarrow> condition list \<Rightarrow> string \<Rightarrow> condition list" where
  "MarkTrue cs clk conds t =
     (let conds1 = SetCondition (clk 0) conds (mk_condition t ConditionTrue (severity cs t) [] [])
      in recomputeHappiness cs (clk 1) conds1 t)"

definition MarkTrueWithReason :: "cond_set \<Rightarrow> clock \<Rightarrow> condition list \<Rightarrow> string \<Rightarrow> string \<Rightarrow> string \<Rightarrow> condition list" where
  "MarkTrueWithReason cs clk conds t reason format =
     (let conds1 = SetCondition (clk 0) conds (mk_condition t ConditionTrue (severity cs t) reason (sprintf0 format))
      in recomputeHappiness cs (clk 1) conds1 t)"

text \<open>Only conditions that are not terminal can be cleared.\<close>

definition ClearCondition :: "cond_set \<Rightarrow> condition list \<Rightarrow> string \<Rightarrow> condition list \<times> string option" where
  "ClearCondition cs conds t =
     (if isTerminal cs t then (conds, Some ''clearing terminal conditions not implemented'')
      else if GetCondition conds t = None then (conds, None)
      else (sort_key c_type (filter (\<lambda>c. c_type c \<noteq> t) conds), None))"

definition IsHappy :: "cond_set \<Rightarrow> condition list \<Rightarrow> bool" where
  "IsHappy cs conds = IsTrue (GetCondition conds (happy cs))"

fun mark_false_types :: "cond_set \<Rightarrow> string \<Rightarrow> string list \<Rightarrow> string list" where
  "mark_false_types cs t [] = []"
| "mark_false_types cs t (d # ds) = (if d = t then [happy cs] else []) @ mark_false_types cs t ds"

fun mark_false_loop :: "cond_set \<Rightarrow> clock \<Rightarrow> nat \<Rightarrow> condition list \<Rightarrow> string \<Rightarrow> string \<Rightarrow> string list \<Rightarrow> condition list" where
  "mark_false_loop cs clk i conds reason format [] = conds"
| "mark_false_loop cs clk i conds reason format (t # ts) =
     mark_false_loop cs clk (Suc i)
       (SetCondition (clk i) conds (mk_condition t ConditionFalse (severity cs t) reason (sprintf0 format)))
       reason format ts"

definition MarkFalse :: "cond_set \<Rightarrow> clock \<Rightarrow> condition list \<Rightarrow> string \<Rightarrow> string \<Rightarrow> string \<Rightarrow> condition list" where
  "MarkFalse cs clk conds t reason format =
     mark_false_loop cs clk 0 conds reason format (t # mark_false_types cs t (dependents cs))"

text \<open>The loop of \<^verbatim>\<open>MarkUnknown\<close> over the dependents: \<open>Inl\<close> the conditions it returns with at a failed
  dependent, \<open>Inr isDependent\<close> at its end.\<close>

fun mark_unknown_loop :: "cond_set \<Rightarrow> clock \<Rightarrow> condition list \<Rightarrow> string \<Rightarrow> string \<Rightarrow> string \<Rightarrow> bool \<Rightarrow> string list \<Rightarrow> condition list + bool" where
  "mark_unknown_loop cs clk conds t reason format isDep [] = Inr isDep"
| "mark_unknown_loop cs clk conds t reason format isDep (d # ds) =
     (if IsFalse (GetCondition conds d) then
        Inl (if \<not> IsFalse (GetCondition conds (happy cs))
             then MarkFalse cs clk conds (happy cs) reason format else conds)
      else mark_unknown_loop cs clk conds t reason format (isDep \<or> d = t) ds)"

definition MarkUnknown :: "cond_set \<Rightarrow> clock \<Rightarrow> condition list \<Rightarrow> string \<Rightarrow> string \<Rightarrow> string \<Rightarrow> condition list" where
  "MarkUnknown cs clk conds t reason format =
     (let conds1 = SetCondition (clk 0) conds
            (mk_condition t ConditionUnknown (severity cs t) reason (sprintf0 format)) in
      case mark_unknown_loop cs (\<lambda>i. clk (Suc i)) conds1 t reason format False (dependents cs) of
        Inl conds2 \<Rightarrow> conds2
      | Inr isDep \<Rightarrow>
        (if isDep then SetCondition (clk 1) conds1
           (mk_condition (happy cs) ConditionUnknown (severity cs (happy cs)) reason (sprintf0 format))
         else conds1))"

fun init_loop :: "clock \<Rightarrow> nat \<Rightarrow> condition list \<Rightarrow> string \<Rightarrow> string list \<Rightarrow> condition list" where
  "init_loop clk i conds st [] = conds"
| "init_loop clk i conds st (t # ts) =
     init_loop clk (Suc i)
       (case GetCondition conds t of
          Some _ \<Rightarrow> conds
        | None \<Rightarrow> SetCondition (clk i) conds (mk_condition t st SeverityError [] [])) st ts"

definition InitializeConditions :: "cond_set \<Rightarrow> clock \<Rightarrow> condition list \<Rightarrow> condition list" where
  "InitializeConditions cs clk conds =
     (let fresh = mk_condition (happy cs) ConditionUnknown SeverityError [] [];
          hc = (case GetCondition conds (happy cs) of None \<Rightarrow> fresh | Some c \<Rightarrow> c);
          conds1 = (if GetCondition conds (happy cs) = None then SetCondition (clk 0) conds fresh else conds);
          st = (if c_status hc = ConditionTrue then ConditionTrue else ConditionUnknown)
      in init_loop clk 1 conds1 st (dependents cs))"

subsection \<open>Well-formed condition lists\<close>

definition conds_wf :: "condition list \<Rightarrow> bool" where
  "conds_wf conds \<longleftrightarrow> distinct (map c_type conds)"

definition same_condition :: "condition \<Rightarrow> condition \<Rightarrow> bool" where
  "same_condition a b \<longleftrightarrow> a\<lparr>c_ltt := 0\<rparr> = b\<lparr>c_ltt := 0\<rparr>"

lemma mk_condition_sel [simp]:
  "c_type (mk_condition ty st sev r m) = ty"
  "c_status (mk_condition ty st sev r m) = st"
  "c_severity (mk_condition ty st sev r m) = sev"
  "c_reason (mk_condition ty st sev r m) = r"
  "c_message (mk_condition ty st sev r m) = m"
  by (simp_all add: mk_condition_def)

lemma conds_wf_Nil [simp]: "conds_wf []"
  by (simp add: conds_wf_def)

lemma same_condition_refl [simp]: "same_condition a a"
  by (simp add: same_condition_def)

lemma same_condition_ltt [simp]: "same_condition (a\<lparr>c_ltt := t\<rparr>) b \<longleftrightarrow> same_condition a b"
  by (simp add: same_condition_def)

lemma same_condition_sel:
  assumes "same_condition a b"
  shows "c_type a = c_type b" "c_status a = c_status b" "c_severity a = c_severity b"
    "c_reason a = c_reason b" "c_message a = c_message b"
  using assms by (cases a; cases b; simp add: same_condition_def)+

lemma only_ltt_differs: "b\<lparr>c_ltt := c_ltt a\<rparr> = a \<longleftrightarrow> same_condition a b"
  by (cases a; cases b) (auto simp: same_condition_def)

lemma GetCondition_SomeD: "GetCondition conds t = Some c \<Longrightarrow> c \<in> set conds \<and> c_type c = t"
  by (auto simp: GetCondition_def find_Some_iff)

lemma GetCondition_None_iff: "GetCondition conds t = None \<longleftrightarrow> t \<notin> c_type ` set conds"
  by (auto simp: GetCondition_def find_None_iff)

lemma GetCondition_Some_iff:
  assumes "conds_wf conds"
  shows "GetCondition conds t = Some c \<longleftrightarrow> c \<in> set conds \<and> c_type c = t"
proof
  assume c: "c \<in> set conds \<and> c_type c = t"
  then obtain c' where c': "GetCondition conds t = Some c'"
    using GetCondition_None_iff [of conds t] by (cases "GetCondition conds t") auto
  have "inj_on c_type (set conds)" using assms by (simp add: conds_wf_def distinct_map)
  with c GetCondition_SomeD [OF c'] have "c' = c" by (auto dest: inj_onD)
  with c' show "GetCondition conds t = Some c" by simp
qed (rule GetCondition_SomeD)

lemma set_loop_eq:
  "set_loop cond acc conds =
     (if \<exists>c \<in> set conds. c_type c = c_type cond \<and> cond\<lparr>c_ltt := c_ltt c\<rparr> = c then None
      else Some (acc @ filter (\<lambda>c. c_type c \<noteq> c_type cond) conds))"
  by (induction conds arbitrary: acc) auto

lemma set_SetCondition:
  "SetCondition now conds cond = conds \<and> (\<exists>c \<in> set conds. c_type c = c_type cond \<and> cond\<lparr>c_ltt := c_ltt c\<rparr> = c) \<or>
   set (SetCondition now conds cond) =
     insert (cond\<lparr>c_ltt := now\<rparr>) {c \<in> set conds. c_type c \<noteq> c_type cond}"
  by (auto simp: SetCondition_def set_loop_eq)

lemma SetCondition_wf: "conds_wf conds \<Longrightarrow> conds_wf (SetCondition now conds cond)"
  by (auto simp: SetCondition_def set_loop_eq conds_wf_def distinct_map inj_on_def)

lemma SetCondition_other:
  assumes "conds_wf conds" "t \<noteq> c_type cond"
  shows "GetCondition (SetCondition now conds cond) t = GetCondition conds t"
proof -
  have "GetCondition (SetCondition now conds cond) t = Some c \<longleftrightarrow> GetCondition conds t = Some c" for c
    using assms set_SetCondition [of now conds cond]
    by (auto simp: GetCondition_Some_iff SetCondition_wf)
  then show ?thesis by (metis option.exhaust)
qed

lemma SetCondition_same:
  assumes "conds_wf conds"
  obtains c where "GetCondition (SetCondition now conds cond) (c_type cond) = Some c" "same_condition c cond"
proof -
  from set_SetCondition [of now conds cond]
  obtain c where "c \<in> set (SetCondition now conds cond)" "c_type c = c_type cond" "same_condition c cond"
    by (auto simp: only_ltt_differs)
  then show ?thesis
    using that assms by (simp add: GetCondition_Some_iff SetCondition_wf)
qed

text \<open>Setting a condition that is already there, up to its transition time, changes nothing.\<close>

lemma SetCondition_idem:
  assumes "conds_wf conds" "GetCondition conds (c_type cond) = Some c" "same_condition c cond"
  shows "SetCondition now conds cond = conds"
proof -
  have "c \<in> set conds" "c_type c = c_type cond"
    using GetCondition_SomeD [OF assms(2)] by auto
  moreover have "cond\<lparr>c_ltt := c_ltt c\<rparr> = c" using assms(3) by (simp add: only_ltt_differs)
  ultimately show ?thesis by (auto simp: SetCondition_def set_loop_eq)
qed

subsection \<open>The interface: a store of conditions\<close>

text \<open>
  What the lifecycle methods rely on: a store that returns, up to the transition time, the
  condition that was set last, keeps the others and stays well formed.
\<close>

locale condition_store =
  fixes get_c :: "'s \<Rightarrow> string \<Rightarrow> condition option"
    and set_c :: "time \<Rightarrow> 's \<Rightarrow> condition \<Rightarrow> 's"
    and inv_c :: "'s \<Rightarrow> bool"
  assumes get_set_same: "inv_c s \<Longrightarrow> \<exists>c. get_c (set_c now s cond) (c_type cond) = Some c \<and> same_condition c cond"
    and get_set_other: "inv_c s \<Longrightarrow> t \<noteq> c_type cond \<Longrightarrow> get_c (set_c now s cond) t = get_c s t"
    and inv_set: "inv_c s \<Longrightarrow> inv_c (set_c now s cond)"
begin

lemma get_set_status:
  assumes "inv_c s"
  shows "IsTrue (get_c (set_c now s cond) (c_type cond)) = (c_status cond = ConditionTrue)"
    and "IsFalse (get_c (set_c now s cond) (c_type cond)) = (c_status cond = ConditionFalse)"
    and "IsUnknown (get_c (set_c now s cond) (c_type cond)) = (c_status cond = ConditionUnknown)"
  using get_set_same [OF assms, of now cond]
  by (auto simp: IsTrue_def IsFalse_def IsUnknown_def dest: same_condition_sel)

lemma get_set_text:
  assumes "inv_c s"
  shows "GetReason (get_c (set_c now s cond) (c_type cond)) = c_reason cond"
    and "GetMessage (get_c (set_c now s cond) (c_type cond)) = c_message cond"
  using get_set_same [OF assms, of now cond]
  by (auto simp: GetReason_def GetMessage_def dest: same_condition_sel)

text \<open>Two settings of one type: the last one wins.\<close>

lemma last_set_wins:
  assumes "inv_c s" "c_type b = c_type a"
  shows "\<exists>c. get_c (set_c u (set_c t s a) b) (c_type a) = Some c \<and> same_condition c b"
  using get_set_same [OF inv_set [OF assms(1)], of u t a b] assms(2) by simp

end

interpretation conds: condition_store GetCondition SetCondition conds_wf
proof
  show "\<exists>c. GetCondition (SetCondition now s cond) (c_type cond) = Some c \<and> same_condition c cond"
    if "conds_wf s" for s now cond
    using SetCondition_same [OF that, of now cond] by blast
qed (simp_all add: SetCondition_other SetCondition_wf)

lemmas [cond_simps] = conds.get_set_status [where cond = "mk_condition ty st sev r m" for ty st sev r m, simplified]
  conds.get_set_text [where cond = "mk_condition ty st sev r m" for ty st sev r m, simplified]

subsection \<open>Every operation keeps the list well formed\<close>

lemma recomputeHappiness_wf: "conds_wf conds \<Longrightarrow> conds_wf (recomputeHappiness cs now conds t)"
  by (auto simp: recomputeHappiness_def SetCondition_wf split: option.splits)

lemma MarkTrue_wf: "conds_wf conds \<Longrightarrow> conds_wf (MarkTrue cs clk conds t)"
  by (simp add: MarkTrue_def Let_def recomputeHappiness_wf SetCondition_wf)

lemma MarkTrueWithReason_wf: "conds_wf conds \<Longrightarrow> conds_wf (MarkTrueWithReason cs clk conds t reason format)"
  by (simp add: MarkTrueWithReason_def Let_def recomputeHappiness_wf SetCondition_wf)

lemma mark_false_loop_wf: "conds_wf conds \<Longrightarrow> conds_wf (mark_false_loop cs clk i conds reason format ts)"
  by (induction ts arbitrary: i conds) (auto simp: SetCondition_wf)

lemma MarkFalse_wf: "conds_wf conds \<Longrightarrow> conds_wf (MarkFalse cs clk conds t reason format)"
  unfolding MarkFalse_def by (rule mark_false_loop_wf)

lemma mark_unknown_loop_wf:
  "conds_wf conds \<Longrightarrow> mark_unknown_loop cs clk conds t reason format b ds = Inl conds' \<Longrightarrow> conds_wf conds'"
  by (induction ds arbitrary: b) (auto simp: MarkFalse_wf split: if_splits)

lemma MarkUnknown_wf: "conds_wf conds \<Longrightarrow> conds_wf (MarkUnknown cs clk conds t reason format)"
  by (auto simp: MarkUnknown_def Let_def SetCondition_wf split: sum.splits
      dest: mark_unknown_loop_wf [OF SetCondition_wf])

lemma init_loop_wf: "conds_wf conds \<Longrightarrow> conds_wf (init_loop clk i conds st ts)"
  by (induction ts arbitrary: i conds) (auto simp: SetCondition_wf split: option.splits)

lemma InitializeConditions_wf: "conds_wf conds \<Longrightarrow> conds_wf (InitializeConditions cs clk conds)"
  by (simp add: InitializeConditions_def Let_def init_loop_wf SetCondition_wf)

lemmas conds_wf_ops [simp, intro] =
  SetCondition_wf MarkTrue_wf MarkTrueWithReason_wf MarkFalse_wf MarkUnknown_wf InitializeConditions_wf

text \<open>Clearing takes exactly the conditions of one type away, and never changes whether the object is happy.\<close>

lemma ClearCondition_get:
  assumes "conds_wf conds" "\<not> isTerminal cs t" "ClearCondition cs conds t = (conds', e)"
  shows "e = None" "conds_wf conds'" "GetCondition conds' u = (if u = t then None else GetCondition conds u)"
proof -
  have set: "set conds' = set (filter (\<lambda>c. c_type c \<noteq> t) conds)" and "e = None"
    using assms(2,3) by (auto simp: ClearCondition_def GetCondition_None_iff split: if_splits)
  from this(2) show "e = None" .
  show wf: "conds_wf conds'"
    using assms by (auto simp: ClearCondition_def conds_wf_def distinct_map inj_on_def split: if_splits)
  have "GetCondition conds' u = Some c \<longleftrightarrow> u \<noteq> t \<and> GetCondition conds u = Some c" for c
    using wf assms(1) set by (auto simp: GetCondition_Some_iff)
  then show "GetCondition conds' u = (if u = t then None else GetCondition conds u)"
    by (metis option.exhaust)
qed

lemma ClearCondition_IsHappy:
  assumes "conds_wf conds"
  shows "IsHappy cs (fst (ClearCondition cs conds t)) = IsHappy cs conds"
proof (cases "isTerminal cs t")
  case True
  then show ?thesis by (simp add: ClearCondition_def)
next
  case False
  obtain conds' e where c: "ClearCondition cs conds t = (conds', e)" by fastforce
  from False have "happy cs \<noteq> t" by (auto simp: isTerminal_def)
  with ClearCondition_get(3) [OF assms False c, of "happy cs"] c show ?thesis by (simp add: IsHappy_def)
qed

end
