(* ===== verification/Field_Error.thy ===== *)
theory Field_Error
  imports Common "HOL-Library.Product_Lexorder"
begin

section \<open>Validation errors\<close>

text \<open>
  The knative \<^verbatim>\<open>FieldError\<close> (\<^verbatim>\<open>vendor/knative.dev/pkg/apis/field_error.go\<close>) in which the
  validating webhook reports what is wrong with a ResolutionRequest. A \<^verbatim>\<open>*FieldError\<close> is a
  \<open>field_error option\<close>, \<open>None\<close> for nil: every method accepts a nil receiver.
\<close>

datatype field_error =
  FieldError (fe_Message: string) (fe_Paths: "string list") (fe_Details: string) (fe_errors: "field_error list")

definition fe_isEmpty :: "field_error option \<Rightarrow> bool" where
  "fe_isEmpty fe =
     (case fe of None \<Rightarrow> True
      | Some e \<Rightarrow> fe_Message e = [] \<and> fe_Details e = [] \<and> fe_errors e = [] \<and> fe_Paths e = [])"

definition fe_Also :: "field_error option \<Rightarrow> field_error option list \<Rightarrow> field_error option" where
  "fe_Also fe errs =
     (if errs = [] \<or> (length errs = 1 \<and> fe_isEmpty (hd errs)) then fe
      else let base = (case fe of None \<Rightarrow> FieldError [] [] [] []
                       | Some e \<Rightarrow> if fe_isEmpty fe then FieldError [] [] [] [] else e);
               newErr = FieldError (fe_Message base) (fe_Paths base) (fe_Details base)
                 (fe_errors base @ map the (filter (\<lambda>e. \<not> fe_isEmpty e) errs))
           in if fe_isEmpty (Some newErr) then None else Some newErr)"

subsection \<open>Field paths\<close>

definition isIndex :: "string \<Rightarrow> bool" where
  "isIndex part \<longleftrightarrow> has_prefix part ''['' \<and> has_suffix part '']''"

text \<open>One component of a path is appended, except that an empty one is dropped and an index
  sticks to the component before it.\<close>

definition flatten_step :: "string list \<Rightarrow> string \<Rightarrow> string list" where
  "flatten_step newPath p =
     (if p = [] then newPath
      else if newPath \<noteq> [] \<and> isIndex p then butlast newPath @ [last newPath @ p]
      else newPath @ [p])"

definition flatten :: "string list \<Rightarrow> string" where
  "flatten path = join ''.'' (foldl flatten_step [] (concat (map (split_on (CHR ''.'')) path)))"

fun fe_ViaField :: "string list \<Rightarrow> field_error \<Rightarrow> field_error option" where
  "fe_ViaField prefix (FieldError msg paths details errs) =
     foldl (\<lambda>newErr e. fe_Also newErr [e])
       (Some (FieldError msg (map (\<lambda>old. flatten (prefix @ [old])) paths) details []))
       (map (fe_ViaField prefix) errs)"

definition ViaField :: "field_error option \<Rightarrow> string list \<Rightarrow> field_error option" where
  "ViaField fe prefix = (case fe of None \<Rightarrow> None | Some e \<Rightarrow> fe_ViaField prefix e)"

subsection \<open>Rendering\<close>

fun fe_normalized :: "field_error \<Rightarrow> field_error list" where
  "fe_normalized (FieldError msg paths details errs) =
     (if msg \<noteq> [] then [FieldError msg paths details []] else []) @ concat (map fe_normalized errs)"

definition mergePaths :: "string list \<Rightarrow> string list \<Rightarrow> string list" where
  "mergePaths a b = foldl (\<lambda>ps bi. if bi \<in> set ps then ps else ps @ [bi]) a b"

definition fe_key :: "field_error \<Rightarrow> string" where
  "fe_key e = fe_Message e @ ''-'' @ fe_Details e"

definition merge_step :: "(string \<times> field_error) list \<Rightarrow> field_error \<Rightarrow> (string \<times> field_error) list" where
  "merge_step m e =
     (case map_of m (fe_key e) of
        Some v \<Rightarrow> AList.update (fe_key e)
          (FieldError (fe_Message v) (mergePaths (fe_Paths v) (fe_Paths e)) (fe_Details v) (fe_errors v)) m
      | None \<Rightarrow> AList.update (fe_key e) e m)"

definition fe_merge :: "field_error list \<Rightarrow> field_error list" where
  "fe_merge errs =
     sort_key (\<lambda>e. (fe_Message e, fe_Details e))
       (map (\<lambda>(k, v). FieldError (fe_Message v) (sort (fe_Paths v)) (fe_Details v) (fe_errors v))
          (foldl merge_step [] errs))"

definition fe_line :: "field_error \<Rightarrow> string" where
  "fe_line e =
     (if fe_Details e = [] then fe_Message e @ '': '' @ join '', '' (fe_Paths e)
      else fe_Message e @ '': '' @ join '', '' (fe_Paths e) @ [CHR 0x0A] @ fe_Details e)"

definition fe_Error :: "field_error option \<Rightarrow> string" where
  "fe_Error fe =
     join [CHR 0x0A] (map fe_line (fe_merge (case fe of None \<Rightarrow> [] | Some e \<Rightarrow> fe_normalized e)))"

definition ErrMissingField :: "string list \<Rightarrow> field_error" where
  "ErrMissingField fieldPaths = FieldError ''missing field(s)'' fieldPaths [] []"

subsection \<open>Lemmas\<close>

lemma fe_isEmpty_None [simp]: "fe_isEmpty None"
  by (simp add: fe_isEmpty_def)

lemma fe_Also_nil [simp]: "fe_Also fe [None] = fe"
  by (simp add: fe_Also_def)

lemma ViaField_nil [simp]: "ViaField None prefix = None"
  by (simp add: ViaField_def)

text \<open>Collecting an error into a nil collection: one nested error, and it renders as itself.\<close>

lemma fe_Also_None_Some:
  "\<not> fe_isEmpty (Some e) \<Longrightarrow> fe_Also None [Some e] = Some (FieldError [] [] [] [e])"
  by (simp add: fe_Also_def fe_isEmpty_def Let_def)

lemma flatten_foldl_no_index:
  assumes "list_all (\<lambda>p. p \<noteq> [] \<and> \<not> isIndex p) ps"
  shows "foldl flatten_step acc ps = acc @ ps"
  using assms by (induction ps arbitrary: acc) (auto simp: flatten_step_def)

text \<open>Joining what was split at dots gives the path back, so names that contain dots (a label
  key such as \<^verbatim>\<open>resolution.tekton.dev/type\<close>) survive \<open>flatten\<close>.\<close>

lemma join_append:
  "xs \<noteq> [] \<Longrightarrow> ys \<noteq> [] \<Longrightarrow> join sep (xs @ ys) = join sep xs @ sep @ join sep ys"
  by (induction sep xs rule: join.induct) (auto simp: neq_Nil_conv)

lemma flatten_pair:
  assumes "list_all (\<lambda>p. p \<noteq> [] \<and> \<not> isIndex p) (split_on (CHR ''.'') a)"
    and "list_all (\<lambda>p. p \<noteq> [] \<and> \<not> isIndex p) (split_on (CHR ''.'') b)"
  shows "flatten [a, b] = a @ ''.'' @ b"
  using assms by (simp add: flatten_def flatten_foldl_no_index join_append join_split_on)

end
