(* ===== verification/V1alpha1.thy ===== *)
theory V1alpha1
  imports Conditions Field_Error
begin

section \<open>The ResolutionRequest API type\<close>

text \<open>
  The package \<^verbatim>\<open>pkg/apis/resolution/v1alpha1\<close>: the object, its lifecycle methods, defaulting and
  validation. Of Kubernetes' \<^verbatim>\<open>ObjectMeta\<close> the fields this program reads or writes are kept;
  a pointer \<^verbatim>\<open>*bool\<close> is its address and its target, because the sources compare the
  \<^verbatim>\<open>Controller\<close> fields of owner references as pointers.
\<close>

subsection \<open>Types\<close>

type_synonym bool_ptr = "(nat \<times> bool) option"

record owner_ref =
  or_apiVersion :: string
  or_kind :: string
  or_name :: string
  or_uid :: string
  or_controller :: bool_ptr

record object_meta =
  m_name :: string
  m_namespace :: string
  m_labels :: gomap
  m_generation :: int
  m_resourceVersion :: string
  m_creationTimestamp :: time
  m_deletionTimestamp :: "time option"
  m_ownerReferences :: "owner_ref list"
  m_finalizers :: "string list"

record rr_status =
  s_observedGeneration :: int
  s_conditions :: "condition list"
  s_annotations :: gomap
  s_data :: string

record resolution_request =
  t_kind :: string
  t_apiVersion :: string
  meta :: object_meta
  spec_params :: gomap
  rr_status :: rr_status

type_synonym rr = resolution_request

definition empty_meta :: object_meta where
  "empty_meta = \<lparr> m_name = [], m_namespace = [], m_labels = None, m_generation = 0,
     m_resourceVersion = [], m_creationTimestamp = 0, m_deletionTimestamp = None,
     m_ownerReferences = [], m_finalizers = [] \<rparr>"

definition empty_status :: rr_status where
  "empty_status = \<lparr> s_observedGeneration = 0, s_conditions = [], s_annotations = None, s_data = [] \<rparr>"

text \<open>A request as a client creates it, for examples: created at time 0, with no status yet.\<close>

definition example_request :: rr where
  "example_request =
     \<lparr> t_kind = ''ResolutionRequest'', t_apiVersion = ''resolution.tekton.dev/v1alpha1'',
       meta = empty_meta\<lparr>m_name := ''git-1'', m_namespace := ''ns'', m_generation := 1,
         m_labels := Some [(''resolution.tekton.dev/type'', ''git'')]\<rparr>,
       spec_params = Some [(''url'', ''u''), (''path'', ''p'')],
       rr_status = empty_status \<rparr>"

subsection \<open>Lifecycle\<close>

definition resolutionRequestCondSet :: cond_set where
  "resolutionRequestCondSet = NewBatchConditionSet []"

definition status_condition :: "rr_status \<Rightarrow> condition option" where
  "status_condition s = GetCondition (s_conditions s) ConditionSucceeded"

definition HasStarted :: "rr \<Rightarrow> bool" where
  "HasStarted r = IsUnknown (status_condition (rr_status r))"

definition IsDone :: "rr \<Rightarrow> bool" where
  "IsDone r = (\<not> IsUnknown (status_condition (rr_status r)))"

definition InitializeStatus :: "clock \<Rightarrow> rr_status \<Rightarrow> rr_status" where
  "InitializeStatus clk s =
     s\<lparr>s_conditions := InitializeConditions resolutionRequestCondSet clk (s_conditions s)\<rparr>"

definition MarkFailed :: "clock \<Rightarrow> rr_status \<Rightarrow> string \<Rightarrow> string \<Rightarrow> rr_status" where
  "MarkFailed clk s reason message =
     s\<lparr>s_conditions := MarkFalse resolutionRequestCondSet clk (s_conditions s) ConditionSucceeded reason message\<rparr>"

definition MarkSucceeded :: "clock \<Rightarrow> rr_status \<Rightarrow> rr_status" where
  "MarkSucceeded clk s =
     s\<lparr>s_conditions := MarkTrue resolutionRequestCondSet clk (s_conditions s) ConditionSucceeded\<rparr>"

definition MarkInProgress :: "clock \<Rightarrow> rr_status \<Rightarrow> string \<Rightarrow> rr_status" where
  "MarkInProgress clk s message =
     s\<lparr>s_conditions := MarkUnknown resolutionRequestCondSet clk (s_conditions s) ConditionSucceeded
         ReasonResolutionInProgress message\<rparr>"

subsection \<open>Defaults and validation\<close>

definition SetDefaults :: "rr \<Rightarrow> rr" where
  "SetDefaults r =
     (let r1 = (if t_kind r = [] then r\<lparr>t_kind := ''ResolutionRequest''\<rparr> else r)
      in if t_apiVersion r1 = [] then r1\<lparr>t_apiVersion := ''resolution.tekton.dev/v1alpha1''\<rparr> else r1)"

definition getTypeLabel :: "gomap \<Rightarrow> string" where
  "getTypeLabel labels = (case labels of None \<Rightarrow> [] | Some _ \<Rightarrow> go_index labels LabelKeyResolverType)"

definition validateTypeLabel :: "rr \<Rightarrow> field_error option" where
  "validateTypeLabel r =
     (if getTypeLabel (m_labels (meta r)) = []
      then ViaField (ViaField (Some (ErrMissingField [LabelKeyResolverType])) [''labels'']) [''meta'']
      else None)"

definition ValidateSpec :: "rr \<Rightarrow> field_error option" where
  "ValidateSpec r = None"

definition Validate :: "rr \<Rightarrow> field_error option" where
  "Validate r = fe_Also (fe_Also None [validateTypeLabel r]) [ViaField (ValidateSpec r) [''spec'']]"

subsection \<open>Well-formed objects\<close>

definition status_wf :: "rr_status \<Rightarrow> bool" where
  "status_wf s \<longleftrightarrow> conds_wf (s_conditions s) \<and> go_wf (s_annotations s)"

definition rr_wf :: "rr \<Rightarrow> bool" where
  "rr_wf r \<longleftrightarrow> status_wf (rr_status r) \<and> go_wf (spec_params r) \<and> go_wf (m_labels (meta r))"

lemma example_request_wf [simp]: "rr_wf example_request"
  by (simp add: rr_wf_def status_wf_def example_request_def empty_status_def empty_meta_def go_wf_def conds_wf_def)

subsection \<open>The lifecycle methods on the one condition of a ResolutionRequest\<close>

lemma condset_simps [simp]:
  "happy resolutionRequestCondSet = ConditionSucceeded"
  "dependents resolutionRequestCondSet = []"
  by (simp_all add: resolutionRequestCondSet_def NewBatchConditionSet_def newConditionSet_def)

lemma severity_succeeded [simp]: "severity resolutionRequestCondSet ConditionSucceeded = SeverityError"
  by (simp add: severity_def isTerminal_def)

lemma cond_strings_distinct [simp]:
  "ConditionTrue \<noteq> ConditionFalse" "ConditionTrue \<noteq> ConditionUnknown"
  "ConditionFalse \<noteq> ConditionTrue" "ConditionFalse \<noteq> ConditionUnknown"
  "ConditionUnknown \<noteq> ConditionTrue" "ConditionUnknown \<noteq> ConditionFalse"
  by (simp_all add: cond_consts)

text \<open>With no dependents each method sets the one condition.\<close>

lemma MarkFailed_eq:
  "MarkFailed clk s reason message = s\<lparr>s_conditions := SetCondition (clk 0) (s_conditions s)
     (mk_condition ConditionSucceeded ConditionFalse SeverityError reason (sprintf0 message))\<rparr>"
  by (simp add: MarkFailed_def MarkFalse_def)

lemma MarkSucceeded_eq:
  "MarkSucceeded clk s = s\<lparr>s_conditions := SetCondition (clk 0) (s_conditions s)
     (mk_condition ConditionSucceeded ConditionTrue SeverityError [] [])\<rparr>"
  by (simp add: MarkSucceeded_def MarkTrue_def recomputeHappiness_def findUnhappyDependent_def)

lemma MarkInProgress_eq:
  "MarkInProgress clk s message = s\<lparr>s_conditions := SetCondition (clk 0) (s_conditions s)
     (mk_condition ConditionSucceeded ConditionUnknown SeverityError ReasonResolutionInProgress (sprintf0 message))\<rparr>"
  by (simp add: MarkInProgress_def MarkUnknown_def)

lemma InitializeStatus_eq:
  "InitializeStatus clk s =
     (if status_condition s = None then s\<lparr>s_conditions := SetCondition (clk 0) (s_conditions s)
        (mk_condition ConditionSucceeded ConditionUnknown SeverityError [] [])\<rparr> else s)"
  by (simp add: InitializeStatus_def InitializeConditions_def Let_def status_condition_def)

lemmas lifecycle_eqs = MarkFailed_eq MarkSucceeded_eq MarkInProgress_eq InitializeStatus_eq

text \<open>Only the conditions change.\<close>

lemma lifecycle_frame [simp, status_frame]:
  "s_data (MarkFailed clk s reason message) = s_data s"
  "s_data (MarkSucceeded clk s) = s_data s"
  "s_data (MarkInProgress clk s message) = s_data s"
  "s_data (InitializeStatus clk s) = s_data s"
  "s_annotations (MarkFailed clk s reason message) = s_annotations s"
  "s_annotations (MarkSucceeded clk s) = s_annotations s"
  "s_annotations (MarkInProgress clk s message) = s_annotations s"
  "s_annotations (InitializeStatus clk s) = s_annotations s"
  "s_observedGeneration (MarkFailed clk s reason message) = s_observedGeneration s"
  "s_observedGeneration (MarkSucceeded clk s) = s_observedGeneration s"
  "s_observedGeneration (MarkInProgress clk s message) = s_observedGeneration s"
  "s_observedGeneration (InitializeStatus clk s) = s_observedGeneration s"
  by (simp_all add: lifecycle_eqs)

lemma lifecycle_wf [simp, intro]:
  assumes "status_wf s"
  shows "status_wf (MarkFailed clk s reason message)" "status_wf (MarkSucceeded clk s)"
    "status_wf (MarkInProgress clk s message)" "status_wf (InitializeStatus clk s)"
  using assms by (simp_all add: lifecycle_eqs status_wf_def)

text \<open>Which condition is read back.\<close>

lemma status_after_mark [cond_simps]:
  assumes "status_wf s"
  shows "IsFalse (status_condition (MarkFailed clk s reason message))"
    "GetReason (status_condition (MarkFailed clk s reason message)) = reason"
    "GetMessage (status_condition (MarkFailed clk s reason message)) = sprintf0 message"
    "IsTrue (status_condition (MarkSucceeded clk s))"
    "GetReason (status_condition (MarkSucceeded clk s)) = []"
    "GetMessage (status_condition (MarkSucceeded clk s)) = []"
    "IsUnknown (status_condition (MarkInProgress clk s m))"
    "GetReason (status_condition (MarkInProgress clk s m)) = ReasonResolutionInProgress"
    "GetMessage (status_condition (MarkInProgress clk s m)) = sprintf0 m"
  using assms by (simp_all add: lifecycle_eqs status_condition_def status_wf_def cond_simps)

lemma cond_exclusive:
  "IsTrue c \<Longrightarrow> \<not> IsFalse c" "IsTrue c \<Longrightarrow> \<not> IsUnknown c" "IsFalse c \<Longrightarrow> \<not> IsUnknown c"
  "IsUnknown c \<Longrightarrow> \<not> IsTrue c" "IsUnknown c \<Longrightarrow> \<not> IsFalse c"
  by (auto simp: IsTrue_def IsFalse_def IsUnknown_def split: option.splits)

lemma status_known [cond_simps]:
  assumes "status_wf s"
  shows "\<not> IsUnknown (status_condition (MarkFailed clk s reason message))"
    "\<not> IsUnknown (status_condition (MarkSucceeded clk s))"
    "\<not> IsTrue (status_condition (MarkFailed clk s reason message))"
    "\<not> IsTrue (status_condition (MarkInProgress clk s m))"
    "\<not> IsFalse (status_condition (MarkInProgress clk s m))"
  using status_after_mark [OF assms] by (blast dest: cond_exclusive)+

lemma InitializeStatus_unknown:
  assumes "status_wf s" "IsUnknown (status_condition s)"
  shows "IsUnknown (status_condition (InitializeStatus clk s))"
  using assms by (simp add: lifecycle_eqs status_condition_def status_wf_def cond_simps)

lemma status_condition_update [simp]:
  "status_condition (s\<lparr>s_observedGeneration := g\<rparr>) = status_condition s"
  "status_condition (s\<lparr>s_data := d\<rparr>) = status_condition s"
  "status_condition (s\<lparr>s_annotations := a\<rparr>) = status_condition s"
  by (simp_all add: status_condition_def)

subsection \<open>Defaults and validation\<close>

lemma SetDefaults_idem: "SetDefaults (SetDefaults r) = SetDefaults r"
  by (simp add: SetDefaults_def Let_def)

lemma SetDefaults_frame [simp]:
  "meta (SetDefaults r) = meta r" "spec_params (SetDefaults r) = spec_params r"
  "rr_status (SetDefaults r) = rr_status r"
  by (simp_all add: SetDefaults_def Let_def)

lemma type_label_path:
  "ViaField (ViaField (Some (ErrMissingField [LabelKeyResolverType])) [''labels'']) [''meta''] =
     Some (FieldError ''missing field(s)'' [''meta.labels.resolution.tekton.dev/type''] [] [])"
  by (simp add: ViaField_def ErrMissingField_def LabelKeyResolverType_def flatten_def flatten_step_def
      isIndex_def has_prefix_def has_suffix_def)

lemma Validate_cases:
  "Validate r =
     (if getTypeLabel (m_labels (meta r)) = []
      then Some (FieldError [] [] [] [FieldError ''missing field(s)'' [''meta.labels.resolution.tekton.dev/type''] [] []])
      else None)"
proof -
  let ?e = "FieldError ''missing field(s)'' [''meta.labels.resolution.tekton.dev/type''] [] []"
  have "fe_Also None [Some ?e] = Some (FieldError [] [] [] [?e])"
    by (rule fe_Also_None_Some) (simp add: fe_isEmpty_def)
  then show ?thesis
    by (simp add: Validate_def ValidateSpec_def validateTypeLabel_def type_label_path)
qed

lemma getTypeLabel_eq: "getTypeLabel labels = go_index labels LabelKeyResolverType"
  by (simp add: getTypeLabel_def split: option.split)

text \<open>Sequences of the lifecycle methods on one status, each call with its own readings of the clock.\<close>

datatype lifecycle_op = Initialize | Fail string string | Succeed | Progress string

fun lifecycle_apply :: "clock \<Rightarrow> lifecycle_op \<Rightarrow> rr_status \<Rightarrow> rr_status" where
  "lifecycle_apply clk Initialize s = InitializeStatus clk s"
| "lifecycle_apply clk (Fail reason message) s = MarkFailed clk s reason message"
| "lifecycle_apply clk Succeed s = MarkSucceeded clk s"
| "lifecycle_apply clk (Progress message) s = MarkInProgress clk s message"

fun lifecycle_run :: "rr_status \<Rightarrow> (clock \<times> lifecycle_op) list \<Rightarrow> rr_status" where
  "lifecycle_run s [] = s"
| "lifecycle_run s ((clk, x) # ops) = lifecycle_run (lifecycle_apply clk x s) ops"

lemma lifecycle_run_append: "lifecycle_run s (a @ b) = lifecycle_run (lifecycle_run s a) b"
  by (induction s a rule: lifecycle_run.induct) simp_all

lemma lifecycle_apply_wf: "status_wf s \<Longrightarrow> status_wf (lifecycle_apply clk x s)"
  by (cases x) (simp_all add: lifecycle_wf)

lemma lifecycle_run_wf: "status_wf s \<Longrightarrow> status_wf (lifecycle_run s ops)"
  by (induction s ops rule: lifecycle_run.induct) (simp_all add: lifecycle_apply_wf)

lemma lifecycle_run_frame:
  "s_data (lifecycle_run s ops) = s_data s \<and> s_annotations (lifecycle_run s ops) = s_annotations s \<and>
   s_observedGeneration (lifecycle_run s ops) = s_observedGeneration s"
proof (induction s ops rule: lifecycle_run.induct)
  case (2 s clk x ops)
  then show ?case by (cases x) simp_all
qed simp

lemma marked_some:
  assumes "status_wf s"
  shows "status_condition (MarkFailed clk s reason message) \<noteq> None" "status_condition (MarkSucceeded clk s) \<noteq> None"
    "status_condition (MarkInProgress clk s m) \<noteq> None"
proof -
  have "status_condition s' \<noteq> None" if "IsTrue (status_condition s') \<or> IsFalse (status_condition s')" for s'
    using that by (cases "status_condition s'") (simp_all add: IsTrue_def IsFalse_def)
  then show "status_condition (MarkFailed clk s reason message) \<noteq> None" "status_condition (MarkSucceeded clk s) \<noteq> None"
    using status_after_mark(1,4) [OF assms] by blast+
  have "GetReason (status_condition (MarkInProgress clk s m)) \<noteq> []"
    unfolding status_after_mark(8) [OF assms] by (simp add: ReasonResolutionInProgress_def)
  then show "status_condition (MarkInProgress clk s m) \<noteq> None" by (cases "status_condition (MarkInProgress clk s m)") (simp_all add: GetReason_def)
qed

lemma missing_type_text:
  "fe_Error (Some (FieldError [] [] [] [FieldError ''missing field(s)'' [path] [] []])) = ''missing field(s): '' @ path"
  by (simp add: fe_Error_def fe_line_def fe_merge_def merge_step_def fe_key_def)

subsection \<open>Properties\<close>

text \<open>
  C33. The last mark decides: after any sequence of calls of \<^verbatim>\<open>InitializeConditions\<close>, \<^verbatim>\<open>MarkFailed\<close>,
  \<^verbatim>\<open>MarkSucceeded\<close> and \<^verbatim>\<open>MarkInProgress\<close> on a well-formed status, the condition that is read back is
  the one of the last mark, whatever came before and however often the status is initialised
  after it; the status stays well-formed, and data and annotations are untouched.
\<close>

theorem lifecycle_last_mark:
  assumes "status_wf s" "x \<noteq> Initialize" "list_all (\<lambda>(clk, y). y = Initialize) later"
  shows "let s' = lifecycle_run s (earlier @ (clk, x) # later) in
     status_wf s' \<and> s_data s' = s_data s \<and> s_annotations s' = s_annotations s \<and>
     (case x of
        Fail reason message \<Rightarrow> IsFalse (status_condition s') \<and> GetReason (status_condition s') = reason \<and>
          GetMessage (status_condition s') = sprintf0 message
      | Progress message \<Rightarrow> IsUnknown (status_condition s') \<and>
          GetReason (status_condition s') = ReasonResolutionInProgress \<and> GetMessage (status_condition s') = sprintf0 message
      | _ \<Rightarrow> IsTrue (status_condition s'))"
proof -
  let ?s1 = "lifecycle_run s earlier"
  let ?s2 = "lifecycle_apply clk x ?s1"
  have wf: "status_wf ?s1" by (rule lifecycle_run_wf [OF assms(1)])
  have some: "status_condition ?s2 \<noteq> None"
    using assms(2) marked_some [OF wf, of clk] by (cases x) simp_all
  have "lifecycle_run y later = y" if "status_condition y \<noteq> None" for y
    using assms(3) that by (induction later arbitrary: y) (auto simp: InitializeStatus_eq)
  with some have "lifecycle_run s (earlier @ (clk, x) # later) = ?s2" by (simp add: lifecycle_run_append)
  then show ?thesis
    using lifecycle_run_frame [of s "earlier @ (clk, x) # later"] lifecycle_wf [OF wf] status_after_mark [OF wf, of clk] assms(2)
    by (cases x) (simp_all add: Let_def)
qed

theorem lifecycle_last_mark_witness:
  "let s' = lifecycle_run empty_status ([((\<lambda>_. 0), Progress ''p'')] @ ((\<lambda>_. 1), Fail ''r'' ''m'') # [((\<lambda>_. 2), Initialize)]) in
     status_wf s' \<and> IsFalse (status_condition s') \<and> GetReason (status_condition s') = ''r''"
  using lifecycle_last_mark [of empty_status "Fail ''r'' ''m''" "[((\<lambda>_. 2), Initialize)]" "[((\<lambda>_. 0), Progress ''p'')]" "\<lambda>_. 1"]
  by (simp add: Let_def status_wf_def empty_status_def conds_wf_def go_wf_def)

text \<open>
  What the admission webhooks let through: after defaulting, a request is rejected exactly when
  its type label is missing or empty, with the text
  \<^verbatim>\<open>missing field(s): meta.labels.resolution.tekton.dev/type\<close>.
\<close>

theorem Validate_defaulted:
  "case Validate (SetDefaults r) of
     None \<Rightarrow> go_index (m_labels (meta r)) ''resolution.tekton.dev/type'' \<noteq> []
   | Some e \<Rightarrow> go_index (m_labels (meta r)) ''resolution.tekton.dev/type'' = [] \<and>
       fe_Error (Some e) = ''missing field(s): '' @ ''meta.labels.resolution.tekton.dev/type''"
  by (simp add: Validate_cases getTypeLabel_eq LabelKeyResolverType_def missing_type_text)

end
