(* ===== verification/Go_Calendar.thy ===== *)
theory Go_Calendar
  imports Go_Time
begin

section \<open>Dates and the format of RFC 3339\<close>

text \<open>
  What Go's \<^verbatim>\<open>time\<close> package makes of a time in JSON: the date of an instant (\<^verbatim>\<open>absDate\<close>), the instant of a
  date (\<^verbatim>\<open>Date\<close>), \<^verbatim>\<open>Format\<close> and \<^verbatim>\<open>Parse\<close> with the layout \<^verbatim>\<open>time.RFC3339\<close>, for UTC. An instant is the number of
  nanoseconds since the zero time, the first of January of the year 1. \<^verbatim>\<open>Parse\<close> is the one of Go 1.17:
  an hour may have one digit, a fraction of a second is accepted, and the offset of a zone is two
  numbers without a range check.
\<close>

subsection \<open>Dates\<close>

definition daysBefore :: "nat list" where
  "daysBefore = [0, 31, 59, 90, 120, 151, 181, 212, 243, 273, 304, 334, 365]"

definition isLeap :: "int \<Rightarrow> bool" where
  "isLeap year \<longleftrightarrow> year mod 4 = 0 \<and> (year mod 100 \<noteq> 0 \<or> year mod 400 = 0)"

definition daysIn :: "nat \<Rightarrow> int \<Rightarrow> nat" where
  "daysIn m year = (if m = 2 \<and> isLeap year then 29 else daysBefore ! m - daysBefore ! (m - 1))"

text \<open>Month and day of a day of the year, both from one.\<close>

definition month_day :: "bool \<Rightarrow> nat \<Rightarrow> nat \<times> nat" where
  "month_day leap yday =
     (if leap \<and> yday = 31 + 29 - 1 then (2, 29)
      else let day = (if leap \<and> yday > 31 + 29 - 1 then yday - 1 else yday);
               month = day div 31;
               end' = daysBefore ! (month + 1);
               (month, begin') = (if day \<ge> end' then (month + 1, end') else (month, daysBefore ! month))
           in (month + 1, day - begin' + 1))"

text \<open>Year and day of the year of a number of days: cycles of 400, 100, 4 and one years.\<close>

definition year_day :: "int \<Rightarrow> int \<times> nat" where
  "year_day d =
     (let n = d div 146097; y = 400 * n; d = d - 146097 * n;
          n = d div 36524; n = n - n div 4; y = y + 100 * n; d = d - 36524 * n;
          n = d div 1461; y = y + 4 * n; d = d - 1461 * n;
          n = d div 365; n = n - n div 4; y = y + n; d = d - 365 * n
      in (y + 1, nat d))"

definition absDate :: "int \<Rightarrow> int \<times> nat \<times> nat" where
  "absDate d = (case year_day d of (year, yday) \<Rightarrow> (year, month_day (isLeap year) yday))"

definition daysSinceEpoch :: "int \<Rightarrow> int" where
  "daysSinceEpoch year =
     (let y = year - 1; n = y div 400; y = y - 400 * n; d = 146097 * n;
          n = y div 100; y = y - 100 * n; d = d + 36524 * n;
          n = y div 4; y = y - 4 * n; d = d + 1461 * n
      in d + 365 * y)"

definition date_days :: "int \<Rightarrow> nat \<Rightarrow> nat \<Rightarrow> int" where
  "date_days year month day =
     daysSinceEpoch year + int (daysBefore ! (month - 1)) + (if isLeap year \<and> month \<ge> 3 then 1 else 0) + int day - 1"

subsection \<open>Format\<close>

definition appendInt :: "int \<Rightarrow> nat \<Rightarrow> string" where
  "appendInt x width =
     (if x < 0 then ''-'' else []) @
     (let s = utoa (nat \<bar>x\<bar>) in replicate (width - length s) (CHR ''0'') @ s)"

definition format_rfc3339 :: "time \<Rightarrow> string" where
  "format_rfc3339 t =
     (let sec = t div second; (year, month, day) = absDate (sec div 86400); s = sec mod 86400 in
      appendInt year 4 @ ''-'' @ appendInt (int month) 2 @ ''-'' @ appendInt (int day) 2 @ ''T'' @
      appendInt (s div 3600) 2 @ '':'' @ appendInt (s mod 3600 div 60) 2 @ '':'' @ appendInt (s mod 60) 2 @ ''Z'')"

subsection \<open>Parse\<close>

text \<open>One or two digits; two are needed when \<open>fixed\<close>.\<close>

definition getnum :: "bool \<Rightarrow> string \<Rightarrow> (nat \<times> string) option" where
  "getnum fixed s =
     (case s of
        a # rest \<Rightarrow>
          if \<not> is_digit a then None
          else (case rest of
              b # rest' \<Rightarrow>
                if is_digit b then Some (digit_val a * 10 + digit_val b, rest')
                else if fixed then None else Some (digit_val a, rest)
            | [] \<Rightarrow> if fixed then None else Some (digit_val a, rest))
      | [] \<Rightarrow> None)"

definition skip_char :: "char \<Rightarrow> string \<Rightarrow> string option" where
  "skip_char c s = (case s of a # rest \<Rightarrow> if a = c then Some rest else None | [] \<Rightarrow> None)"

text \<open>A number followed by a separator, below a limit.\<close>

definition field :: "bool \<Rightarrow> nat \<Rightarrow> char \<Rightarrow> string \<Rightarrow> (nat \<times> string) option" where
  "field fixed limit sep s =
     (case getnum fixed s of
        None \<Rightarrow> None
      | Some (n, rest) \<Rightarrow>
          if n \<ge> limit then None
          else (case skip_char sep rest of None \<Rightarrow> None | Some rest' \<Rightarrow> Some (n, rest')))"

text \<open>The fraction of a second, in nanoseconds.\<close>

definition fraction :: "string \<Rightarrow> (int \<times> string) option" where
  "fraction s =
     (case s of
        p # d # rest \<Rightarrow>
          if (p = CHR ''.'' \<or> p = CHR '','') \<and> is_digit d then
            (let ds = takeWhile is_digit (d # rest); ns = int (digits_val 0 ds) in
             if ns \<ge> 1000000000 then None else Some (ns * 10 ^ (9 - length ds), dropWhile is_digit (d # rest)))
          else Some (0, s)
      | _ \<Rightarrow> Some (0, s))"

text \<open>The offset of the zone, in seconds; nothing may follow it.\<close>

definition zone :: "string \<Rightarrow> int option" where
  "zone s =
     (case s of
        z # rest \<Rightarrow>
          if z = CHR ''Z'' then (if rest = [] then Some 0 else None)
          else (case rest of
              [a, b, c, d, e] \<Rightarrow>
                if c = CHR '':'' \<and> list_all is_digit [a, b, d, e] \<and> (z = CHR ''+'' \<or> z = CHR ''-'') then
                  (let off = int (digits_val 0 [a, b] * 60 + digits_val 0 [d, e]) * 60 in Some (if z = CHR ''-'' then - off else off))
                else None
            | _ \<Rightarrow> None)
      | [] \<Rightarrow> None)"

definition parse_rfc3339 :: "string \<Rightarrow> time option" where
  "parse_rfc3339 s =
     (let p = take 4 s in
      if length s < 4 \<or> \<not> list_all is_digit p then None
      else let year = int (digits_val 0 p) in
        Option.bind (skip_char (CHR ''-'') (drop 4 s)) (\<lambda>s.
        Option.bind (field True 13 (CHR ''-'') s) (\<lambda>(month, s).
        Option.bind (field True 100 (CHR ''T'') s) (\<lambda>(day, s).
        Option.bind (field False 24 (CHR '':'') s) (\<lambda>(h, s).
        Option.bind (field True 60 (CHR '':'') s) (\<lambda>(mi, s).
        Option.bind (getnum True s) (\<lambda>(sec, s).
        Option.bind (fraction s) (\<lambda>(nsec, s).
        Option.bind (zone s) (\<lambda>offset.
          if sec \<ge> 60 \<or> month = 0 \<or> day < 1 \<or> day > daysIn month year then None
          else Some ((date_days year month day * 86400 + int (h * 3600 + mi * 60 + sec) - offset) * second + nsec))))))))))"

subsection \<open>Lemmas: dates\<close>

text \<open>The last 100 years of 400 and the last year of four have a day more, which the quotient must not
  count as another cycle.\<close>

lemma cycle:
  fixes d k :: int
  assumes "0 \<le> d" "d \<le> 4 * k" "0 < k"
  defines "n \<equiv> d div k - d div k div 4"
  shows "0 \<le> n" "n \<le> 3" "0 \<le> d - k * n" "d - k * n \<le> k" "d - k * n = k \<Longrightarrow> d = 4 * k \<and> n = 3"
proof -
  define q where "q = d div k"
  define r where "r = d mod k"
  have dq: "d = k * q + r" "0 \<le> r" "r < k" using assms(3) by (simp_all add: q_def r_def)
  have q: "0 \<le> q" "q \<le> 4"
  proof -
    show "0 \<le> q" using assms(1,3) by (simp add: q_def pos_imp_zdiv_nonneg_iff)
    have "q \<le> 4 * k div k" unfolding q_def using assms(2,3) by (intro zdiv_mono1) simp_all
    then show "q \<le> 4" using assms(3) by simp
  qed
  then have "q \<in> {0, 1, 2, 3, 4}" by auto
  then have "0 \<le> n \<and> n \<le> 3 \<and> 0 \<le> d - k * n \<and> d - k * n \<le> k \<and> (d - k * n = k \<longrightarrow> d = 4 * k \<and> n = 3)"
    using dq assms(2) unfolding n_def q_def [symmetric] by (elim insertE emptyE) auto
  then show "0 \<le> n" "n \<le> 3" "0 \<le> d - k * n" "d - k * n \<le> k" "d - k * n = k \<Longrightarrow> d = 4 * k \<and> n = 3" by blast+
qed

lemma daysSinceEpoch_cycles:
  fixes a b c e :: int
  assumes "0 \<le> b" "b \<le> 3" "0 \<le> c" "c \<le> 24" "0 \<le> e" "e \<le> 3"
  shows "daysSinceEpoch (400 * a + 100 * b + 4 * c + e + 1) = 146097 * a + 36524 * b + 1461 * c + 365 * e"
proof -
  have "(400 * a + 100 * b + 4 * c + e) div 400 = a"
    using assms by (intro int_div_pos_eq [where r = "100 * b + 4 * c + e"]) simp_all
  moreover have "(100 * b + 4 * c + e) div 100 = b"
    using assms by (intro int_div_pos_eq [where r = "4 * c + e"]) simp_all
  moreover have "(4 * c + e) div 4 = c"
    using assms by (intro int_div_pos_eq [where r = e]) simp_all
  ultimately show ?thesis by (simp add: daysSinceEpoch_def Let_def algebra_simps)
qed

lemma isLeap_cycles:
  fixes a b c e :: int
  assumes "0 \<le> b" "b \<le> 3" "0 \<le> c" "c \<le> 24" "0 \<le> e" "e \<le> 3"
  shows "isLeap (400 * a + 100 * b + 4 * c + e + 1) \<longleftrightarrow> e = 3 \<and> (c = 24 \<longrightarrow> b = 3)"
proof -
  let ?y = "400 * a + 100 * b + 4 * c + e + 1"
  have "?y = (e + 1) + 4 * (100 * a + 25 * b + c)" by simp
  then have "?y mod 4 = (e + 1) mod 4" by (metis mod_mult_self2)
  then have m4: "?y mod 4 = 0 \<longleftrightarrow> e = 3" using assms(5,6) by presburger
  show ?thesis
  proof (cases "e = 3")
    case True
    then have "?y = (4 * c + 4) + 100 * (4 * a + b)" by simp
    then have "?y mod 100 = (4 * c + 4) mod 100" by (metis mod_mult_self2)
    then have m100: "?y mod 100 = 0 \<longleftrightarrow> c = 24" using assms(3,4) by (cases "c = 24") simp_all
    have "?y mod 400 = 0 \<longleftrightarrow> b = 3" if "c = 24"
    proof -
      have "?y = (100 * b + 100) + 400 * a" using True that by simp
      then have "?y mod 400 = (100 * b + 100) mod 400" by (metis mod_mult_self2)
      then show ?thesis using assms(1,2) by (cases "b = 3") simp_all
    qed
    with m4 m100 True show ?thesis unfolding isLeap_def by (cases "c = 24") simp_all
  qed (simp add: isLeap_def m4)
qed

lemma year_day_props:
  assumes "year_day d = (y, yd)"
  shows "daysSinceEpoch y + int yd = d" "yd < (if isLeap y then 366 else 365)" "daysSinceEpoch y \<le> d"
    "400 * (d div 146097) + 1 \<le> y" "y \<le> 400 * (d div 146097) + 400"
proof -
  define a where "a = d div 146097"
  define r1 where "r1 = d - 146097 * a"
  define b where "b = r1 div 36524 - r1 div 36524 div 4"
  define r2 where "r2 = r1 - 36524 * b"
  define c where "c = r2 div 1461"
  define r3 where "r3 = r2 - 1461 * c"
  define e where "e = r3 div 365 - r3 div 365 div 4"
  define r4 where "r4 = r3 - 365 * e"
  have r1: "0 \<le> r1" "r1 \<le> 4 * 36524" unfolding r1_def a_def by presburger+
  note b = cycle [OF r1, folded b_def, folded r2_def, simplified]
  have "r3 = r2 mod 1461" by (simp add: r3_def c_def minus_mult_div_eq_mod)
  then have "0 \<le> r3" "r3 < 1461" by simp_all
  then have r3: "0 \<le> r3" "r3 \<le> 4 * 365" by simp_all
  have c: "0 \<le> c" "c \<le> 24"
    using b(3) zdiv_mono1 [OF b(4), of 1461] by (simp_all add: c_def pos_imp_zdiv_nonneg_iff)
  note e = cycle [OF r3, folded e_def, folded r4_def, simplified]
  have y: "y = 400 * a + 100 * b + 4 * c + e + 1" and yd: "int yd = r4"
    using assms e(3) unfolding year_day_def Let_def a_def [symmetric] r1_def [symmetric] b_def [symmetric] r2_def [symmetric]
      c_def [symmetric] r3_def [symmetric] e_def [symmetric] r4_def [symmetric] by auto
  note days = daysSinceEpoch_cycles [OF b(1,2) c e(1,2), of a]
  have sum: "146097 * a + 36524 * b + 1461 * c + 365 * e + r4 = d" by (simp add: r1_def r2_def r3_def r4_def)
  show "400 * (d div 146097) + 1 \<le> y" "y \<le> 400 * (d div 146097) + 400"
    unfolding y a_def [symmetric] using b(1,2) c e(1,2) by simp_all
  show "daysSinceEpoch y + int yd = d" unfolding y days yd using sum by simp
  then show "daysSinceEpoch y \<le> d" by simp
  show "yd < (if isLeap y then 366 else 365)"
  proof (cases "r4 = 365")
    case True
    with e have "r3 = 1460" "e = 3" by auto
    moreover have "b = 3" if "c = 24"
    proof -
      have "r2 = 36524" using that \<open>r3 = 1460\<close> by (simp add: r3_def)
      with b show ?thesis by simp
    qed
    ultimately have "isLeap y" unfolding y isLeap_cycles [OF b(1,2) c e(1,2)] by simp
    with True yd show ?thesis by simp
  next
    case False
    with e yd show ?thesis by auto
  qed
qed

lemma months:
  fixes k :: nat
  assumes "k \<le> 11"
  shows "k \<in> {0, 1, 2, 3, 4, 5, 6, 7, 8, 9, 10, 11}"
proof -
  have "k \<in> {..<Suc (Suc (Suc (Suc (Suc (Suc (Suc (Suc (Suc (Suc (Suc (Suc 0)))))))))))}" using assms by simp
  then show ?thesis unfolding lessThan_Suc by auto
qed

lemma month_of:
  assumes "day < 365"
  defines "m \<equiv> (if day \<ge> daysBefore ! (day div 31 + 1) then day div 31 + 1 else day div 31)"
  shows "m \<le> 11" "daysBefore ! m \<le> day" "day < daysBefore ! (m + 1)"
proof -
  define k where "k = day div 31"
  have k: "31 * k \<le> day" "day < 31 * k + 31" unfolding k_def by presburger+
  have "k \<in> {0, 1, 2, 3, 4, 5, 6, 7, 8, 9, 10, 11}" using assms(1) k(1) by (intro months) linarith
  then have "m \<le> 11 \<and> daysBefore ! m \<le> day \<and> day < daysBefore ! (m + 1)"
    using k assms(1) unfolding m_def k_def [symmetric] by (elim insertE emptyE) (simp_all add: daysBefore_def split: if_splits)
  then show "m \<le> 11" "daysBefore ! m \<le> day" "day < daysBefore ! (m + 1)" by blast+
qed

lemma month_day_props:
  assumes "yd < (if leap then 366 else 365)" "month_day leap yd = (m, day)"
  shows "1 \<le> m \<and> m \<le> 12 \<and> 1 \<le> day \<and> day \<le> (if m = 2 \<and> leap then 29 else daysBefore ! m - daysBefore ! (m - 1)) \<and>
    daysBefore ! (m - 1) + (if leap \<and> m \<ge> 3 then 1 else 0) + day = yd + 1"
proof (cases "leap \<and> yd = 59")
  case True
  with assms(2) show ?thesis by (auto simp: month_day_def daysBefore_def)
next
  case False
  define d where "d = (if leap \<and> yd > 59 then yd - 1 else yd)"
  define k where "k = (if d \<ge> daysBefore ! (d div 31 + 1) then d div 31 + 1 else d div 31)"
  have "d < 365" using assms(1) False by (auto simp: d_def split: if_splits)
  note k = month_of [OF this, folded k_def]
  have md: "m = k + 1" "day = d - daysBefore ! k + 1"
    using assms(2) False by (auto simp: month_day_def Let_def k_def d_def split: if_splits)
  have "k \<in> {0, 1, 2, 3, 4, 5, 6, 7, 8, 9, 10, 11}" using k(1) by (rule months)
  then show ?thesis using k False assms(1) unfolding md d_def
    by (elim insertE emptyE) (simp_all add: daysBefore_def split: if_splits)
qed

lemma absDate_props:
  assumes "absDate d = (y, m, day)"
  shows "1 \<le> m" "m \<le> 12" "1 \<le> day" "day \<le> daysIn m y" "date_days y m day = d"
proof -
  obtain yd where yd: "year_day d = (y, yd)" "month_day (isLeap y) yd = (m, day)"
    using assms by (auto simp: absDate_def split: prod.splits)
  note y = year_day_props [OF yd(1)]
  note tab = month_day_props [OF y(2) yd(2)]
  from tab show "1 \<le> m" "m \<le> 12" "1 \<le> day" "day \<le> daysIn m y" by (simp_all add: daysIn_def)
  from tab have "int (daysBefore ! (m - 1)) + (if isLeap y \<and> m \<ge> 3 then 1 else 0) + int day = int yd + 1" by auto
  then show "date_days y m day = d" using y(1) by (simp add: date_days_def)
qed

lemma absDate_year:
  assumes "absDate d = (y, m, day)" "0 \<le> d" "d < 3652059"
  shows "1 \<le> y" "y \<le> 9999"
proof -
  obtain yd where "year_day d = (y, yd)" using assms(1) by (auto simp: absDate_def split: prod.splits)
  note y = year_day_props [OF this]
  have "0 \<le> d div 146097" using assms(2) by (simp add: pos_imp_zdiv_nonneg_iff)
  with y(4) show "1 \<le> y" by simp
  have "d div 146097 \<le> 24" using zdiv_mono1 [of d 3652058 146097] assms(3) by simp
  with y(5) have "y \<le> 10000" by simp
  moreover have "y \<noteq> 10000" using y(3) assms(3) by (auto simp: daysSinceEpoch_def)
  ultimately show "y \<le> 9999" by simp
qed

subsection \<open>Lemmas: digits\<close>

lemma utoa_small: "n < 10 \<Longrightarrow> utoa n = [digit n]"
  by (simp add: utoa.simps)

lemma utoa_large: "10 \<le> n \<Longrightarrow> utoa n = utoa (n div 10) @ [digit (n mod 10)]"
  by (subst utoa.simps) simp

lemma digit_zero: "digit 0 = CHR ''0''"
  by (simp add: digit_def)

lemma appendInt_two:
  assumes "n < 100"
  shows "appendInt (int n) 2 = [digit (n div 10), digit (n mod 10)]"
proof (cases "n < 10")
  case True
  then show ?thesis by (simp add: appendInt_def utoa_small digit_zero)
next
  case False
  with assms show ?thesis by (simp add: appendInt_def utoa_large utoa_small)
qed

lemma appendInt_four:
  assumes "n < 10000"
  shows "appendInt (int n) 4 = [digit (n div 1000), digit (n div 100 mod 10), digit (n div 10 mod 10), digit (n mod 10)]"
proof -
  have r: "replicate 3 c = [c, c, c]" "replicate 2 c = [c, c]" for c :: char by (simp_all add: numeral_eq_Suc)
  consider "n < 10" | "10 \<le> n" "n < 100" | "100 \<le> n" "n < 1000" | "1000 \<le> n" by linarith
  then show ?thesis
  proof cases
    case 1
    then show ?thesis by (simp add: appendInt_def utoa_small digit_zero r)
  next
    case 2
    then show ?thesis by (simp add: appendInt_def utoa_small utoa_large digit_zero r)
  next
    case 3
    then have "10 \<le> n div 10" "n div 100 < 10"
      using div_le_mono [OF 3(1), of 10] by (simp_all add: less_mult_imp_div_less)
    with 3 show ?thesis by (simp add: appendInt_def utoa_small utoa_large digit_zero div_mult2_eq [symmetric])
  next
    case 4
    then have "10 \<le> n div 10" "10 \<le> n div 100" "n div 1000 < 10"
      using assms div_le_mono [OF 4, of 10] div_le_mono [OF 4, of 100] by (simp_all add: less_mult_imp_div_less)
    with 4 show ?thesis by (simp add: appendInt_def utoa_small utoa_large div_mult2_eq [symmetric])
  qed
qed

lemma getnum_two: "n < 100 \<Longrightarrow> getnum fixed (digit (n div 10) # digit (n mod 10) # s) = Some (n, s)"
  by (simp add: getnum_def)

lemma field_two: "n < limit \<Longrightarrow> limit \<le> 100 \<Longrightarrow> field fixed limit sep (digit (n div 10) # digit (n mod 10) # sep # s) = Some (n, s)"
  by (simp add: field_def getnum_two skip_char_def)

lemma digits_val_four:
  assumes "n < 10000"
  shows "digits_val 0 [digit (n div 1000), digit (n div 100 mod 10), digit (n div 10 mod 10), digit (n mod 10)] = n"
proof -
  have "n div 10 div 10 = n div 100" "n div 100 div 10 = n div 1000" by (simp_all add: div_mult2_eq [symmetric])
  then have "((n div 1000 * 10 + n div 100 mod 10) * 10 + n div 10 mod 10) * 10 + n mod 10 = n"
    by (metis div_mult_mod_eq)
  moreover have "n div 1000 < 10" using assms by (simp add: less_mult_imp_div_less)
  ultimately show ?thesis by (simp add: digits_val_def)
qed

subsection \<open>The round trip\<close>

lemma int_div_less_bound:
  fixes x k n :: int
  assumes "0 < k" "x < n * k"
  shows "x div k < n"
proof (rule ccontr)
  assume "\<not> x div k < n"
  then have "n * k \<le> x div k * k" using assms(1) by (simp add: mult_right_mono)
  also have "\<dots> \<le> x" using div_mult_mod_eq [of x k] pos_mod_sign [OF assms(1), of x] by linarith
  finally show False using assms(2) by simp
qed

lemma daysIn_31:
  assumes "1 \<le> m" "m \<le> 12"
  shows "daysIn m y \<le> 31"
proof -
  obtain k where k: "m = Suc k" "k \<le> 11" using assms by (cases m) auto
  from months [OF k(2)] show ?thesis unfolding k(1) daysIn_def
    by (elim insertE emptyE) (simp_all add: daysBefore_def)
qed

lemma parse_fields:
  assumes "y < 10000" "1 \<le> m" "m \<le> 12" "1 \<le> day" "day \<le> daysIn m (int y)" "day < 100" "h < 24" "mi < 60" "se < 60"
  shows "parse_rfc3339 (appendInt (int y) 4 @ ''-'' @ appendInt (int m) 2 @ ''-'' @ appendInt (int day) 2 @ ''T'' @
      appendInt (int h) 2 @ '':'' @ appendInt (int mi) 2 @ '':'' @ appendInt (int se) 2 @ ''Z'') =
    Some ((date_days (int y) m day * 86400 + int (h * 3600 + mi * 60 + se)) * second)"
proof -
  have y: "y div 1000 < 10" using assms(1) by (simp add: less_mult_imp_div_less)
  show ?thesis using assms y
    by (simp add: parse_rfc3339_def Let_def appendInt_four appendInt_two digits_val_four skip_char_def field_two getnum_two
      fraction_def zone_def)
qed

lemma parse_format:
  fixes t :: time
  assumes "0 \<le> t" "t < 3652059 * 86400 * second"
  shows "parse_rfc3339 (format_rfc3339 t) = Some (t div second * second)"
proof -
  define sec where "sec = t div second"
  define d where "d = sec div 86400"
  define s where "s = sec mod 86400"
  have sec: "0 \<le> sec" "sec < 3652059 * 86400"
    using assms by (simp_all add: sec_def second_def pos_imp_zdiv_nonneg_iff int_div_less_bound)
  then have d: "0 \<le> d" "d < 3652059" by (simp_all add: d_def pos_imp_zdiv_nonneg_iff int_div_less_bound)
  obtain y m day where date: "absDate d = (y, m, day)" by (cases "absDate d") auto
  note year = absDate_year [OF date d] and props = absDate_props [OF date]
  define h where "h = nat (s div 3600)"
  define mi where "mi = nat (s mod 3600 div 60)"
  define se where "se = nat (s mod 60)"
  have sb: "0 \<le> s" "s < 86400" by (simp_all add: s_def)
  have "s div 3600 < 24" "s mod 3600 div 60 < 60" using sb(2) by (simp_all add: int_div_less_bound)
  with sb have clock: "h < 24" "mi < 60" "se < 60" "s div 3600 = int h" "s mod 3600 div 60 = int mi" "s mod 60 = int se"
    by (simp_all add: h_def mi_def se_def pos_imp_zdiv_nonneg_iff)
  have "s mod 3600 mod 60 = s mod 60" by (simp add: mod_mod_cancel)
  then have "s = (s div 3600) * 3600 + (s mod 3600 div 60) * 60 + s mod 60" by (metis add.assoc div_mult_mod_eq)
  then have s: "s = int (h * 3600 + mi * 60 + se)" by (simp add: clock)
  have day: "day < 100" using props(4) daysIn_31 [OF props(1,2), of y] by simp
  have n: "int (nat y) = y" "nat y < 10000" using year by simp_all
  have "format_rfc3339 t = appendInt (int (nat y)) 4 @ ''-'' @ appendInt (int m) 2 @ ''-'' @ appendInt (int day) 2 @ ''T'' @
      appendInt (int h) 2 @ '':'' @ appendInt (int mi) 2 @ '':'' @ appendInt (int se) 2 @ ''Z''"
    unfolding format_rfc3339_def Let_def sec_def [symmetric] d_def [symmetric] s_def [symmetric] date clock n by simp
  also have "parse_rfc3339 \<dots> = Some ((date_days y m day * 86400 + s) * second)"
    using parse_fields [of "nat y" m day h mi se] props(1-4) n day clock(1-3) by (simp add: s)
  also have "(date_days y m day * 86400 + s) * second = sec * second"
    by (simp add: props(5) d_def s_def)
  finally show ?thesis by (simp add: sec_def)
qed

end
