(* ===== verification/Json_Codec.thy ===== *)
theory Json_Codec
  imports Json V1alpha1 Go_Calendar
begin

section \<open>The API type as JSON\<close>

text \<open>
  The JSON form of a \<^verbatim>\<open>ResolutionRequest\<close>, from the tags of its Go types
  (\<^verbatim>\<open>resolution_request_types.go\<close>, knative's \<^verbatim>\<open>duck/v1\<close> status and condition, Kubernetes' \<^verbatim>\<open>TypeMeta\<close> and
  \<^verbatim>\<open>ObjectMeta\<close>, of which the fields of \<open>object_meta\<close> are kept). A time is written in RFC 3339 with
  a resolution of seconds, a zero time as null (\<^verbatim>\<open>metav1.Time\<close>), with the calendar of \<open>Go_Calendar\<close>; \<^verbatim>\<open>time.Time{}\<close> is 0. The record \<open>codec\<close> has what
  decoding depends on: the text of a type mismatch, the printable characters, and the address of
  the next pointer that decoding allocates.
\<close>

record codec =
  cd_mm :: "string \<Rightarrow> json \<Rightarrow> string"
  cd_ip :: "nat \<Rightarrow> bool"
  cd_addr :: nat

subsection \<open>Encoding\<close>

definition enc_time :: "time \<Rightarrow> json" where
  "enc_time t = (if t = 0 then JNull else JStr (format_rfc3339 t))"

definition enc_condition :: "condition \<Rightarrow> json" where
  "enc_condition c =
     JObj ([(''type'', enc_str (c_type c)), (''status'', enc_str (c_status c))]
       @ omit_str ''severity'' (c_severity c) @ [(''lastTransitionTime'', enc_time (c_ltt c))]
       @ omit_str ''reason'' (c_reason c) @ omit_str ''message'' (c_message c))"

definition enc_owner :: "owner_ref \<Rightarrow> json" where
  "enc_owner o' =
     JObj ([(''apiVersion'', enc_str (or_apiVersion o')), (''kind'', enc_str (or_kind o')),
            (''name'', enc_str (or_name o')), (''uid'', enc_str (or_uid o'))]
       @ (case or_controller o' of None \<Rightarrow> [] | Some (_, b) \<Rightarrow> [(''controller'', JBool b)]))"

definition enc_meta :: "object_meta \<Rightarrow> json" where
  "enc_meta m =
     JObj (omit_str ''name'' (m_name m) @ omit_str ''namespace'' (m_namespace m)
       @ omit_str ''resourceVersion'' (m_resourceVersion m) @ omit_int ''generation'' (m_generation m)
       @ [(''creationTimestamp'', enc_time (m_creationTimestamp m))]
       @ (case m_deletionTimestamp m of None \<Rightarrow> [] | Some t \<Rightarrow> [(''deletionTimestamp'', enc_time t)])
       @ omit_map ''labels'' (m_labels m) @ omit_list ''ownerReferences'' enc_owner (m_ownerReferences m)
       @ omit_list ''finalizers'' enc_str (m_finalizers m))"

definition enc_spec :: "gomap \<Rightarrow> json" where
  "enc_spec params = JObj (omit_map ''params'' params)"

definition enc_status :: "rr_status \<Rightarrow> json" where
  "enc_status s =
     JObj (omit_int ''observedGeneration'' (s_observedGeneration s)
       @ omit_list ''conditions'' enc_condition (s_conditions s)
       @ omit_map ''annotations'' (s_annotations s) @ [(''data'', enc_str (s_data s))])"

definition enc_rr :: "rr \<Rightarrow> json" where
  "enc_rr r =
     JObj (omit_str ''kind'' (t_kind r) @ omit_str ''apiVersion'' (t_apiVersion r)
       @ [(''metadata'', enc_meta (meta r)), (''spec'', enc_spec (spec_params r)),
          (''status'', enc_status (rr_status r))])"

subsection \<open>Decoding\<close>

definition dec_time :: "codec \<Rightarrow> string \<Rightarrow> json \<Rightarrow> time res" where
  "dec_time cd name j =
     (case j of
        JNull \<Rightarrow> Inr 0
      | JStr s \<Rightarrow> (case parse_rfc3339 s of Some t \<Rightarrow> Inr t | None \<Rightarrow> Inl (ErrorString (cd_mm cd name j)))
      | _ \<Rightarrow> Inl (ErrorString (cd_mm cd name j)))"

definition dec_time_ptr :: "codec \<Rightarrow> string \<Rightarrow> json \<Rightarrow> time option res" where
  "dec_time_ptr cd name j = (if j = JNull then Inr None else map_sum id Some (dec_time cd name j))"

text \<open>The address of a decoded pointer is fresh; the pointers of a slice get consecutive addresses.\<close>

definition dec_bool_ptr :: "codec \<Rightarrow> string \<Rightarrow> json \<Rightarrow> bool_ptr res" where
  "dec_bool_ptr cd name j =
     (case j of JBool b \<Rightarrow> Inr (Some (cd_addr cd, b)) | JNull \<Rightarrow> Inr None | _ \<Rightarrow> Inl (ErrorString (cd_mm cd name j)))"

definition condition_fields :: "codec \<Rightarrow> (string \<times> condition setter) list" where
  "condition_fields cd =
     [(''type'', fld c_type (\<lambda>v c. c\<lparr>c_type := v\<rparr>) (dec_str (cd_mm cd) ''type'')),
      (''status'', fld c_status (\<lambda>v c. c\<lparr>c_status := v\<rparr>) (dec_str (cd_mm cd) ''status'')),
      (''severity'', fld c_severity (\<lambda>v c. c\<lparr>c_severity := v\<rparr>) (dec_str (cd_mm cd) ''severity'')),
      (''lastTransitionTime'', fld c_ltt (\<lambda>v c. c\<lparr>c_ltt := v\<rparr>) (\<lambda>j _. dec_time cd ''lastTransitionTime'' j)),
      (''reason'', fld c_reason (\<lambda>v c. c\<lparr>c_reason := v\<rparr>) (dec_str (cd_mm cd) ''reason'')),
      (''message'', fld c_message (\<lambda>v c. c\<lparr>c_message := v\<rparr>) (dec_str (cd_mm cd) ''message''))]"

definition dec_condition :: "codec \<Rightarrow> bool \<Rightarrow> json \<Rightarrow> condition res" where
  "dec_condition cd strict j =
     dec_struct (cd_mm cd) (cd_ip cd) strict ''conditions'' (condition_fields cd) j (mk_condition [] [] [] [] [])"

definition owner_fields :: "codec \<Rightarrow> (string \<times> owner_ref setter) list" where
  "owner_fields cd =
     [(''apiVersion'', fld or_apiVersion (\<lambda>v c. c\<lparr>or_apiVersion := v\<rparr>) (dec_str (cd_mm cd) ''apiVersion'')),
      (''kind'', fld or_kind (\<lambda>v c. c\<lparr>or_kind := v\<rparr>) (dec_str (cd_mm cd) ''kind'')),
      (''name'', fld or_name (\<lambda>v c. c\<lparr>or_name := v\<rparr>) (dec_str (cd_mm cd) ''name'')),
      (''uid'', fld or_uid (\<lambda>v c. c\<lparr>or_uid := v\<rparr>) (dec_str (cd_mm cd) ''uid'')),
      (''controller'', fld or_controller (\<lambda>v c. c\<lparr>or_controller := v\<rparr>) (\<lambda>j _. dec_bool_ptr cd ''controller'' j))]"

definition empty_owner :: owner_ref where
  "empty_owner = \<lparr> or_apiVersion = [], or_kind = [], or_name = [], or_uid = [], or_controller = None \<rparr>"

fun dec_owners :: "codec \<Rightarrow> bool \<Rightarrow> json list \<Rightarrow> owner_ref list res" where
  "dec_owners cd strict [] = Inr []"
| "dec_owners cd strict (j # js) =
     (case dec_struct (cd_mm cd) (cd_ip cd) strict ''ownerReferences'' (owner_fields cd) j empty_owner of
        Inl e \<Rightarrow> Inl e
      | Inr x \<Rightarrow> (case dec_owners (cd\<lparr>cd_addr := Suc (cd_addr cd)\<rparr>) strict js of Inl e \<Rightarrow> Inl e | Inr xs \<Rightarrow> Inr (x # xs)))"

definition dec_owner_list :: "codec \<Rightarrow> bool \<Rightarrow> json \<Rightarrow> owner_ref list res" where
  "dec_owner_list cd strict j =
     (case j of
        JArr js \<Rightarrow> dec_owners cd strict js
      | JNull \<Rightarrow> Inr []
      | _ \<Rightarrow> Inl (ErrorString (cd_mm cd ''ownerReferences'' j)))"

definition meta_fields ::
  "codec \<Rightarrow> bool \<Rightarrow> (string \<times> object_meta setter) list" where
  "meta_fields cd strict =
     [(''name'', fld m_name (\<lambda>v m. m\<lparr>m_name := v\<rparr>) (dec_str (cd_mm cd) ''name'')),
      (''namespace'', fld m_namespace (\<lambda>v m. m\<lparr>m_namespace := v\<rparr>) (dec_str (cd_mm cd) ''namespace'')),
      (''resourceVersion'', fld m_resourceVersion (\<lambda>v m. m\<lparr>m_resourceVersion := v\<rparr>) (dec_str (cd_mm cd) ''resourceVersion'')),
      (''generation'', fld m_generation (\<lambda>v m. m\<lparr>m_generation := v\<rparr>) (dec_int (cd_mm cd) ''generation'')),
      (''creationTimestamp'', fld m_creationTimestamp (\<lambda>v m. m\<lparr>m_creationTimestamp := v\<rparr>)
         (\<lambda>j _. dec_time cd ''creationTimestamp'' j)),
      (''deletionTimestamp'', fld m_deletionTimestamp (\<lambda>v m. m\<lparr>m_deletionTimestamp := v\<rparr>)
         (\<lambda>j _. dec_time_ptr cd ''deletionTimestamp'' j)),
      (''labels'', fld m_labels (\<lambda>v m. m\<lparr>m_labels := v\<rparr>) (dec_map (cd_mm cd) ''labels'')),
      (''ownerReferences'', fld m_ownerReferences (\<lambda>v m. m\<lparr>m_ownerReferences := v\<rparr>)
         (\<lambda>j _. dec_owner_list cd strict j)),
      (''finalizers'', fld m_finalizers (\<lambda>v m. m\<lparr>m_finalizers := v\<rparr>)
         (\<lambda>j _. dec_list (cd_mm cd) ''finalizers'' (\<lambda>j. dec_str (cd_mm cd) ''finalizers'' j []) j))]"

definition status_fields ::
  "codec \<Rightarrow> bool \<Rightarrow> (string \<times> rr_status setter) list" where
  "status_fields cd strict =
     [(''observedGeneration'', fld s_observedGeneration (\<lambda>v s. s\<lparr>s_observedGeneration := v\<rparr>) (dec_int (cd_mm cd) ''observedGeneration'')),
      (''conditions'', fld s_conditions (\<lambda>v s. s\<lparr>s_conditions := v\<rparr>)
         (\<lambda>j _. dec_list (cd_mm cd) ''conditions'' (dec_condition cd strict) j)),
      (''annotations'', fld s_annotations (\<lambda>v s. s\<lparr>s_annotations := v\<rparr>) (dec_map (cd_mm cd) ''annotations'')),
      (''data'', fld s_data (\<lambda>v s. s\<lparr>s_data := v\<rparr>) (dec_str (cd_mm cd) ''data''))]"

definition spec_fields :: "codec \<Rightarrow> (string \<times> gomap setter) list" where
  "spec_fields cd = [(''params'', fld (\<lambda>p. p) (\<lambda>v p. v) (dec_map (cd_mm cd) ''params''))]"

definition rr_fields ::
  "codec \<Rightarrow> bool \<Rightarrow> (string \<times> rr setter) list" where
  "rr_fields cd strict =
     [(''kind'', fld t_kind (\<lambda>v r. r\<lparr>t_kind := v\<rparr>) (dec_str (cd_mm cd) ''kind'')),
      (''apiVersion'', fld t_apiVersion (\<lambda>v r. r\<lparr>t_apiVersion := v\<rparr>) (dec_str (cd_mm cd) ''apiVersion'')),
      (''metadata'', fld meta (\<lambda>v r. r\<lparr>meta := v\<rparr>) (dec_struct (cd_mm cd) (cd_ip cd) strict ''metadata'' (meta_fields cd strict))),
      (''spec'', fld spec_params (\<lambda>v r. r\<lparr>spec_params := v\<rparr>) (dec_struct (cd_mm cd) (cd_ip cd) strict ''spec'' (spec_fields cd))),
      (''status'', fld rr_status (\<lambda>v r. r\<lparr>rr_status := v\<rparr>)
         (dec_struct (cd_mm cd) (cd_ip cd) strict ''status'' (status_fields cd strict)))]"

definition empty_rr :: rr where
  "empty_rr = \<lparr> t_kind = [], t_apiVersion = [], meta = empty_meta, spec_params = None, rr_status = empty_status \<rparr>"

definition dec_rr_into ::
  "codec \<Rightarrow> bool \<Rightarrow> json \<Rightarrow> rr \<Rightarrow> rr res" where
  "dec_rr_into cd strict j r = dec_struct (cd_mm cd) (cd_ip cd) strict ''ResolutionRequest'' (rr_fields cd strict) j r"

definition dec_rr :: "codec \<Rightarrow> bool \<Rightarrow> json \<Rightarrow> rr res" where
  "dec_rr cd strict j = dec_rr_into cd strict j empty_rr"

subsection \<open>What a round trip changes\<close>

text \<open>Times lose what is below a second, empty maps become nil, maps come back in the order of their
  keys, a pointer to a zero time becomes nil, and the pointers of owner references are new.\<close>

definition json_time :: "time \<Rightarrow> time" where
  "json_time t = t div second * second"

definition json_deletion :: "time option \<Rightarrow> time option" where
  "json_deletion d = (case d of None \<Rightarrow> None | Some t \<Rightarrow> if t = 0 then None else Some (json_time t))"

fun readdress :: "nat \<Rightarrow> owner_ref list \<Rightarrow> owner_ref list" where
  "readdress a [] = []"
| "readdress a (o' # os) = o'\<lparr>or_controller := map_option (\<lambda>(_, b). (a, b)) (or_controller o')\<rparr> # readdress (Suc a) os"

definition reread :: "nat \<Rightarrow> rr \<Rightarrow> rr" where
  "reread a r =
     r\<lparr>meta := (meta r)\<lparr>m_labels := sorted_map (m_labels (meta r)),
                       m_creationTimestamp := json_time (m_creationTimestamp (meta r)),
                       m_deletionTimestamp := json_deletion (m_deletionTimestamp (meta r)),
                       m_ownerReferences := readdress a (m_ownerReferences (meta r))\<rparr>,
       spec_params := sorted_map (spec_params r),
       rr_status := (rr_status r)\<lparr>
         s_conditions := map (\<lambda>c. c\<lparr>c_ltt := json_time (c_ltt c)\<rparr>) (s_conditions (rr_status r)),
         s_annotations := sorted_map (s_annotations (rr_status r))\<rparr>\<rparr>"

text \<open>The objects that JSON can carry: strings are valid UTF-8, numbers fit their type, times are in the
  years 1 to 9999.\<close>

definition utf8 :: "string \<Rightarrow> bool" where
  "utf8 s \<longleftrightarrow> json_string s = s"

definition time_ok :: "time \<Rightarrow> bool" where
  "time_ok t \<longleftrightarrow> 0 \<le> t \<and> t < 3652059 * 86400 * second"

definition condition_ok :: "condition \<Rightarrow> bool" where
  "condition_ok c \<longleftrightarrow> list_all utf8 [c_type c, c_status c, c_severity c, c_reason c, c_message c] \<and> time_ok (c_ltt c)"

definition owner_ok :: "owner_ref \<Rightarrow> bool" where
  "owner_ok o' \<longleftrightarrow> list_all utf8 [or_apiVersion o', or_kind o', or_name o', or_uid o']"

definition meta_ok :: "object_meta \<Rightarrow> bool" where
  "meta_ok m \<longleftrightarrow>
     list_all utf8 (m_name m # m_namespace m # m_resourceVersion m # m_finalizers m) \<and> in_int64 (m_generation m) \<and>
     time_ok (m_creationTimestamp m) \<and> (case m_deletionTimestamp m of None \<Rightarrow> True | Some t \<Rightarrow> time_ok t) \<and>
     go_wf (m_labels m) \<and> utf8_map (m_labels m) \<and> list_all owner_ok (m_ownerReferences m)"

definition status_ok :: "rr_status \<Rightarrow> bool" where
  "status_ok s \<longleftrightarrow>
     in_int64 (s_observedGeneration s) \<and> list_all condition_ok (s_conditions s) \<and>
     go_wf (s_annotations s) \<and> utf8_map (s_annotations s) \<and> utf8 (s_data s)"

definition json_ok :: "rr \<Rightarrow> bool" where
  "json_ok r \<longleftrightarrow>
     utf8 (t_kind r) \<and> utf8 (t_apiVersion r) \<and> meta_ok (meta r) \<and> go_wf (spec_params r) \<and> utf8_map (spec_params r) \<and>
     status_ok (rr_status r)"

subsection \<open>Lemmas: every part decodes to itself\<close>

lemma json_time_idem: "json_time (json_time t) = json_time t"
  by (simp add: json_time_def second_def)

lemma json_deletion_None [simp]: "json_deletion None = None"
  by (simp add: json_deletion_def)

lemma dec_time_enc: "time_ok t \<Longrightarrow> dec_time cd name (enc_time t) = Inr (json_time t)"
  by (auto simp: dec_time_def enc_time_def time_ok_def json_time_def parse_format)

lemma dec_time_ptr_enc: "time_ok t \<Longrightarrow> dec_time_ptr cd name (enc_time t) = Inr (json_deletion (Some t))"
  by (auto simp: dec_time_ptr_def json_deletion_def dec_time_enc) (auto simp: enc_time_def)

lemmas find_simps = find_field_def fld_def

lemma condition_find:
  "find_field (condition_fields cd) ''severity'' = Some (fld c_severity (\<lambda>v c. c\<lparr>c_severity := v\<rparr>) (dec_str (cd_mm cd) ''severity''))"
  "find_field (condition_fields cd) ''lastTransitionTime'' =
     Some (fld c_ltt (\<lambda>v c. c\<lparr>c_ltt := v\<rparr>) (\<lambda>j _. dec_time cd ''lastTransitionTime'' j))"
  "find_field (condition_fields cd) ''reason'' = Some (fld c_reason (\<lambda>v c. c\<lparr>c_reason := v\<rparr>) (dec_str (cd_mm cd) ''reason''))"
  "find_field (condition_fields cd) ''message'' = Some (fld c_message (\<lambda>v c. c\<lparr>c_message := v\<rparr>) (dec_str (cd_mm cd) ''message''))"
  "find_field (condition_fields cd) ''type'' = Some (fld c_type (\<lambda>v c. c\<lparr>c_type := v\<rparr>) (dec_str (cd_mm cd) ''type''))"
  "find_field (condition_fields cd) ''status'' = Some (fld c_status (\<lambda>v c. c\<lparr>c_status := v\<rparr>) (dec_str (cd_mm cd) ''status''))"
  by (simp_all add: find_field_def condition_fields_def)

text \<open>Every proof follows the members of the encoding: \<open>dec_step\<close> splits off a member, and the rules for
  fields turn it into an update of the target.\<close>

lemma dec_condition_enc:
  assumes "condition_ok c"
  shows "dec_condition cd strict (enc_condition c) = Inr (c\<lparr>c_ltt := json_time (c_ltt c)\<rparr>)"
proof -
  note u [simp] = assms [unfolded condition_ok_def utf8_def, simplified]
  let ?x = "mk_condition (c_type c) (c_status c) [] [] []"
  have start: "dec_members (cd_ip cd) strict (condition_fields cd)
      [(''type'', enc_str (c_type c)), (''status'', enc_str (c_status c))] (mk_condition [] [] [] [] []) = Inr ?x"
    by (simp add: condition_find fld_def enc_str_def dec_str_def mk_condition_def)
  have time: "fld c_ltt (\<lambda>v c. c\<lparr>c_ltt := v\<rparr>) (\<lambda>j _. dec_time cd name j) (enc_time (c_ltt c)) x =
      Inr (x\<lparr>c_ltt := json_time (c_ltt c)\<rparr>)" for x name
    by (simp add: fld_def dec_time_enc)
  have "dec_condition cd strict (enc_condition c) =
      Inr (?x\<lparr>c_severity := c_severity c, c_ltt := json_time (c_ltt c), c_reason := c_reason c, c_message := c_message c\<rparr>)"
    unfolding dec_condition_def enc_condition_def dec_struct_def json.case
    by (rule dec_step [OF start], rule dec_step, rule dec_omit_str [OF condition_find(1)], simp, simp add: mk_condition_def, simp,
        rule dec_step, rule dec_field [OF condition_find(2) time],
        rule dec_step, rule dec_omit_str [OF condition_find(3)], simp, simp add: mk_condition_def, simp,
        rule dec_omit_str [OF condition_find(4)], simp, simp add: mk_condition_def, simp)
  then show ?thesis by (simp add: mk_condition_def)
qed

lemma owner_find:
  "find_field (owner_fields cd) ''apiVersion'' = Some (fld or_apiVersion (\<lambda>v c. c\<lparr>or_apiVersion := v\<rparr>) (dec_str (cd_mm cd) ''apiVersion''))"
  "find_field (owner_fields cd) ''kind'' = Some (fld or_kind (\<lambda>v c. c\<lparr>or_kind := v\<rparr>) (dec_str (cd_mm cd) ''kind''))"
  "find_field (owner_fields cd) ''name'' = Some (fld or_name (\<lambda>v c. c\<lparr>or_name := v\<rparr>) (dec_str (cd_mm cd) ''name''))"
  "find_field (owner_fields cd) ''uid'' = Some (fld or_uid (\<lambda>v c. c\<lparr>or_uid := v\<rparr>) (dec_str (cd_mm cd) ''uid''))"
  "find_field (owner_fields cd) ''controller'' =
     Some (fld or_controller (\<lambda>v c. c\<lparr>or_controller := v\<rparr>) (\<lambda>j _. dec_bool_ptr cd ''controller'' j))"
  by (simp_all add: find_field_def owner_fields_def)

lemma dec_owner_enc:
  assumes "owner_ok o'"
  shows "dec_struct (cd_mm cd) (cd_ip cd) strict name (owner_fields cd) (enc_owner o') empty_owner =
    Inr (o'\<lparr>or_controller := map_option (\<lambda>(_, b). (cd_addr cd, b)) (or_controller o')\<rparr>)"
  using assms
  by (cases "or_controller o'")
    (auto simp: owner_ok_def utf8_def enc_owner_def dec_struct_def owner_find fld_def enc_str_def dec_str_def
      dec_bool_ptr_def empty_owner_def)

lemma dec_owners_enc:
  "list_all owner_ok os \<Longrightarrow> dec_owners cd strict (map enc_owner os) = Inr (readdress (cd_addr cd) os)"
  by (induction os arbitrary: cd) (simp_all add: dec_owner_enc)

lemma meta_find:
  "find_field (meta_fields cd strict) ''name'' = Some (fld m_name (\<lambda>v m. m\<lparr>m_name := v\<rparr>) (dec_str (cd_mm cd) ''name''))"
  "find_field (meta_fields cd strict) ''namespace'' = Some (fld m_namespace (\<lambda>v m. m\<lparr>m_namespace := v\<rparr>) (dec_str (cd_mm cd) ''namespace''))"
  "find_field (meta_fields cd strict) ''resourceVersion'' =
     Some (fld m_resourceVersion (\<lambda>v m. m\<lparr>m_resourceVersion := v\<rparr>) (dec_str (cd_mm cd) ''resourceVersion''))"
  "find_field (meta_fields cd strict) ''generation'' = Some (fld m_generation (\<lambda>v m. m\<lparr>m_generation := v\<rparr>) (dec_int (cd_mm cd) ''generation''))"
  "find_field (meta_fields cd strict) ''creationTimestamp'' = Some (fld m_creationTimestamp (\<lambda>v m. m\<lparr>m_creationTimestamp := v\<rparr>)
     (\<lambda>j _. dec_time cd ''creationTimestamp'' j))"
  "find_field (meta_fields cd strict) ''deletionTimestamp'' = Some (fld m_deletionTimestamp (\<lambda>v m. m\<lparr>m_deletionTimestamp := v\<rparr>)
     (\<lambda>j _. dec_time_ptr cd ''deletionTimestamp'' j))"
  "find_field (meta_fields cd strict) ''labels'' = Some (fld m_labels (\<lambda>v m. m\<lparr>m_labels := v\<rparr>) (dec_map (cd_mm cd) ''labels''))"
  "find_field (meta_fields cd strict) ''ownerReferences'' = Some (fld m_ownerReferences (\<lambda>v m. m\<lparr>m_ownerReferences := v\<rparr>)
     (\<lambda>j _. dec_owner_list cd strict j))"
  "find_field (meta_fields cd strict) ''finalizers'' = Some (fld m_finalizers (\<lambda>v m. m\<lparr>m_finalizers := v\<rparr>)
     (\<lambda>j _. dec_list (cd_mm cd) ''finalizers'' (\<lambda>j. dec_str (cd_mm cd) ''finalizers'' j []) j))"
  by (simp_all add: find_field_def meta_fields_def)

lemma dec_meta_enc:
  assumes "meta_ok m"
  shows "dec_struct (cd_mm cd) (cd_ip cd) strict name (meta_fields cd strict) (enc_meta m) empty_meta =
    Inr (m\<lparr>m_labels := sorted_map (m_labels m), m_creationTimestamp := json_time (m_creationTimestamp m),
           m_deletionTimestamp := json_deletion (m_deletionTimestamp m),
           m_ownerReferences := readdress (cd_addr cd) (m_ownerReferences m)\<rparr>)"
proof -
  note u [simp] = assms [unfolded meta_ok_def utf8_def, simplified]
  let ?d = "dec_members (cd_ip cd) strict (meta_fields cd strict)"
  have created: "fld m_creationTimestamp (\<lambda>v m. m\<lparr>m_creationTimestamp := v\<rparr>) (\<lambda>j _. dec_time cd name j)
      (enc_time (m_creationTimestamp m)) x = Inr (x\<lparr>m_creationTimestamp := json_time (m_creationTimestamp m)\<rparr>)" for x name
    by (simp add: fld_def dec_time_enc)
  have deleted: "?d (case m_deletionTimestamp m of None \<Rightarrow> [] | Some t \<Rightarrow> [(''deletionTimestamp'', enc_time t)]) x =
      Inr (x\<lparr>m_deletionTimestamp := json_deletion (m_deletionTimestamp m)\<rparr>)" if "m_deletionTimestamp x = None" for x
    using that u by (cases "m_deletionTimestamp m") (simp_all add: meta_find fld_def dec_time_ptr_enc)
  have owners: "?d (omit_list ''ownerReferences'' enc_owner (m_ownerReferences m)) x =
      Inr (x\<lparr>m_ownerReferences := readdress (cd_addr cd) (m_ownerReferences m)\<rparr>)" if "m_ownerReferences x = []" for x
    using that u by (cases "m_ownerReferences m")
      (simp_all add: omit_list_def meta_find fld_def dec_owner_list_def dec_owners_enc [of "_ # _", simplified])
  have fin: "dec_str (cd_mm cd) ''finalizers'' (enc_str f) [] = Inr f" if "f \<in> set (m_finalizers m)" for f
    using that u by (simp add: dec_str_def enc_str_def list_all_iff)
  have "?d (omit_str ''name'' (m_name m) @ omit_str ''namespace'' (m_namespace m)
       @ omit_str ''resourceVersion'' (m_resourceVersion m) @ omit_int ''generation'' (m_generation m)
       @ [(''creationTimestamp'', enc_time (m_creationTimestamp m))]
       @ (case m_deletionTimestamp m of None \<Rightarrow> [] | Some t \<Rightarrow> [(''deletionTimestamp'', enc_time t)])
       @ omit_map ''labels'' (m_labels m) @ omit_list ''ownerReferences'' enc_owner (m_ownerReferences m)
       @ omit_list ''finalizers'' enc_str (m_finalizers m)) empty_meta =
    Inr (empty_meta\<lparr>m_name := m_name m, m_namespace := m_namespace m, m_resourceVersion := m_resourceVersion m,
      m_generation := m_generation m, m_creationTimestamp := json_time (m_creationTimestamp m),
      m_deletionTimestamp := json_deletion (m_deletionTimestamp m), m_labels := sorted_map (m_labels m),
      m_ownerReferences := readdress (cd_addr cd) (m_ownerReferences m), m_finalizers := map (\<lambda>f. f) (m_finalizers m)\<rparr>)"
    by (rule dec_step, rule dec_omit_str [OF meta_find(1)], simp, simp add: empty_meta_def, simp,
        rule dec_step, rule dec_omit_str [OF meta_find(2)], simp, simp add: empty_meta_def, simp,
        rule dec_step, rule dec_omit_str [OF meta_find(3)], simp, simp add: empty_meta_def, simp,
        rule dec_step, rule dec_omit_int [OF meta_find(4)], simp, simp add: empty_meta_def, simp,
        rule dec_step, rule dec_field [OF meta_find(5) created],
        rule dec_step, rule deleted, simp add: empty_meta_def,
        rule dec_step, rule dec_omit_map [OF meta_find(7)], simp, simp add: empty_meta_def, simp, simp,
        rule dec_step, rule owners, simp add: empty_meta_def,
        rule dec_omit_list [OF meta_find(9)], simp, simp add: empty_meta_def, simp add: fin)
  then show ?thesis by (simp add: enc_meta_def dec_struct_def empty_meta_def)
qed

lemma status_find:
  "find_field (status_fields cd strict) ''observedGeneration'' = Some (fld s_observedGeneration (\<lambda>v s. s\<lparr>s_observedGeneration := v\<rparr>)
     (dec_int (cd_mm cd) ''observedGeneration''))"
  "find_field (status_fields cd strict) ''conditions'' = Some (fld s_conditions (\<lambda>v s. s\<lparr>s_conditions := v\<rparr>)
     (\<lambda>j _. dec_list (cd_mm cd) ''conditions'' (dec_condition cd strict) j))"
  "find_field (status_fields cd strict) ''annotations'' = Some (fld s_annotations (\<lambda>v s. s\<lparr>s_annotations := v\<rparr>) (dec_map (cd_mm cd) ''annotations''))"
  "find_field (status_fields cd strict) ''data'' = Some (fld s_data (\<lambda>v s. s\<lparr>s_data := v\<rparr>) (dec_str (cd_mm cd) ''data''))"
  by (simp_all add: find_field_def status_fields_def)

lemma dec_status_enc:
  assumes "status_ok s"
  shows "dec_struct (cd_mm cd) (cd_ip cd) strict name (status_fields cd strict) (enc_status s) empty_status =
    Inr (s\<lparr>s_conditions := map (\<lambda>c. c\<lparr>c_ltt := json_time (c_ltt c)\<rparr>) (s_conditions s),
           s_annotations := sorted_map (s_annotations s)\<rparr>)"
proof -
  note u [simp] = assms [unfolded status_ok_def utf8_def, simplified]
  have cond: "dec_condition cd strict (enc_condition c) = Inr (c\<lparr>c_ltt := json_time (c_ltt c)\<rparr>)"
    if "c \<in> set (s_conditions s)" for c
    using that u by (simp add: dec_condition_enc list_all_iff)
  have data: "fld s_data (\<lambda>v s. s\<lparr>s_data := v\<rparr>) (dec_str mm name) (enc_str (s_data s)) x = Inr (x\<lparr>s_data := s_data s\<rparr>)"
    for x mm name by (simp add: fld_def enc_str_def dec_str_def)
  have "dec_members (cd_ip cd) strict (status_fields cd strict)
      (omit_int ''observedGeneration'' (s_observedGeneration s)
       @ omit_list ''conditions'' enc_condition (s_conditions s)
       @ omit_map ''annotations'' (s_annotations s) @ [(''data'', enc_str (s_data s))]) empty_status =
    Inr (empty_status\<lparr>s_observedGeneration := s_observedGeneration s,
      s_conditions := map (\<lambda>c. c\<lparr>c_ltt := json_time (c_ltt c)\<rparr>) (s_conditions s),
      s_annotations := sorted_map (s_annotations s), s_data := s_data s\<rparr>)"
    by (rule dec_step, rule dec_omit_int [OF status_find(1)], simp, simp add: empty_status_def, simp,
        rule dec_step, rule dec_omit_list [OF status_find(2)], simp, simp add: empty_status_def, simp add: cond,
        rule dec_step, rule dec_omit_map [OF status_find(3)], simp, simp add: empty_status_def, simp, simp,
        rule dec_field [OF status_find(4) data])
  then show ?thesis by (simp add: enc_status_def dec_struct_def empty_status_def)
qed

lemma dec_spec_enc:
  assumes "go_wf p" "utf8_map p"
  shows "dec_struct (cd_mm cd) (cd_ip cd) strict name (spec_fields cd) (enc_spec p) None = Inr (sorted_map p)"
proof -
  have "find_field (spec_fields cd) ''params'' = Some (fld (\<lambda>p. p) (\<lambda>v p. v) (dec_map (cd_mm cd) ''params''))"
    by (simp add: find_field_def spec_fields_def)
  from dec_omit_map [OF this _ _ assms] show ?thesis by (simp add: enc_spec_def dec_struct_def)
qed

lemma rr_find:
  "find_field (rr_fields cd strict) ''kind'' = Some (fld t_kind (\<lambda>v r. r\<lparr>t_kind := v\<rparr>) (dec_str (cd_mm cd) ''kind''))"
  "find_field (rr_fields cd strict) ''apiVersion'' = Some (fld t_apiVersion (\<lambda>v r. r\<lparr>t_apiVersion := v\<rparr>) (dec_str (cd_mm cd) ''apiVersion''))"
  "find_field (rr_fields cd strict) ''metadata'' = Some (fld meta (\<lambda>v r. r\<lparr>meta := v\<rparr>)
     (dec_struct (cd_mm cd) (cd_ip cd) strict ''metadata'' (meta_fields cd strict)))"
  "find_field (rr_fields cd strict) ''spec'' = Some (fld spec_params (\<lambda>v r. r\<lparr>spec_params := v\<rparr>)
     (dec_struct (cd_mm cd) (cd_ip cd) strict ''spec'' (spec_fields cd)))"
  "find_field (rr_fields cd strict) ''status'' = Some (fld rr_status (\<lambda>v r. r\<lparr>rr_status := v\<rparr>)
     (dec_struct (cd_mm cd) (cd_ip cd) strict ''status'' (status_fields cd strict)))"
  by (simp_all add: find_field_def rr_fields_def)

lemma dec_rr_enc:
  assumes "json_ok r"
  shows "dec_rr cd strict (enc_rr r) = Inr (reread (cd_addr cd) r)"
proof -
  note u [simp] = assms [unfolded json_ok_def utf8_def, simplified]
  let ?x = "empty_rr\<lparr>t_kind := t_kind r, t_apiVersion := t_apiVersion r\<rparr>"
  have rest: "dec_members (cd_ip cd) strict (rr_fields cd strict)
      [(''metadata'', enc_meta (meta r)), (''spec'', enc_spec (spec_params r)), (''status'', enc_status (rr_status r))] ?x =
    Inr (reread (cd_addr cd) r)"
    using u by (simp add: rr_find fld_def empty_rr_def dec_meta_enc dec_spec_enc dec_status_enc reread_def)
  have "dec_members (cd_ip cd) strict (rr_fields cd strict)
      (omit_str ''kind'' (t_kind r) @ omit_str ''apiVersion'' (t_apiVersion r)
       @ [(''metadata'', enc_meta (meta r)), (''spec'', enc_spec (spec_params r)),
          (''status'', enc_status (rr_status r))]) empty_rr = Inr (reread (cd_addr cd) r)"
    by (rule dec_step, rule dec_omit_str [OF rr_find(1)], simp, simp add: empty_rr_def, simp,
        rule dec_step, rule dec_omit_str [OF rr_find(2)], simp, simp add: empty_rr_def, simp, rule rest)
  then show ?thesis by (simp add: dec_rr_def dec_rr_into_def dec_struct_def enc_rr_def)
qed

subsection \<open>Examples\<close>

text \<open>A codec, and a request that was created on the first of March 2022, within a second.\<close>

definition example_codec :: codec where
  "example_codec =
     \<lparr> cd_mm = (\<lambda>name j. ''json: cannot unmarshal value into field '' @ name), cd_ip = (\<lambda>n. 32 \<le> n \<and> n < 127), cd_addr = 7 \<rparr>"

definition example_created :: rr where
  "example_created =
     example_request\<lparr>
       meta := (meta example_request)\<lparr>
         m_creationTimestamp := 63781725600 * second + 5, m_generation := 2,
         m_ownerReferences := [\<lparr> or_apiVersion = ''v1'', or_kind = ''Pod'', or_name = ''p'', or_uid = ''u'', or_controller = Some (3, True) \<rparr>]\<rparr>,
       rr_status := (rr_status example_request)\<lparr>s_annotations := Some [(''b'', ''1''), (''a'', ''2'')]\<rparr>\<rparr>"

lemma example_created_ok: "json_ok example_created"
  by code_simp



end
