(* ===== verification/Registration.thy ===== *)
theory Registration
  imports Json_Codec
begin

section \<open>The API group and its registration\<close>

text \<open>
  The name and version of the API group (\<^verbatim>\<open>pkg/apis/resolution\<close>), the registration of its types
  (\<^verbatim>\<open>register.go\<close>) and the schemes that the clientsets build when their packages are initialised
  (\<^verbatim>\<open>scheme/register.go\<close>, \<^verbatim>\<open>fake/register.go\<close>). A Go type is the path of its package and its name;
  a panic is \<open>None\<close>. Of a scheme the maps between kinds and types are kept.
\<close>

record group_version =
  gv_group :: string
  gv_version :: string

record gvk =
  k_group :: string
  k_version :: string
  k_kind :: string

record gvr =
  r_group :: string
  r_version :: string
  r_resource :: string

definition GroupName :: string where
  "GroupName = ''resolution.tekton.dev''"

definition SchemeGroupVersion :: group_version where
  "SchemeGroupVersion = \<lparr> gv_group = GroupName, gv_version = ''v1alpha1'' \<rparr>"

definition WithKind :: "group_version \<Rightarrow> string \<Rightarrow> gvk" where
  "WithKind gv kind = \<lparr> k_group = gv_group gv, k_version = gv_version gv, k_kind = kind \<rparr>"

definition WithResource :: "group_version \<Rightarrow> string \<Rightarrow> gvr" where
  "WithResource gv resource = \<lparr> r_group = gv_group gv, r_version = gv_version gv, r_resource = resource \<rparr>"

definition gvk_string :: "gvk \<Rightarrow> string" where
  "gvk_string k = k_group k @ ''/'' @ k_version k @ '', Kind='' @ k_kind k"

definition gv_string :: "group_version \<Rightarrow> string" where
  "gv_string gv = (if gv_group gv \<noteq> [] then gv_group gv @ ''/'' @ gv_version gv else gv_version gv)"

text \<open>Groups qualify kinds and resources: the pairs \<^verbatim>\<open>GroupKind\<close> and \<^verbatim>\<open>GroupResource\<close>.\<close>

definition Kind :: "string \<Rightarrow> string \<times> string" where
  "Kind kind = (let k = WithKind SchemeGroupVersion kind in (k_group k, k_kind k))"

definition Resource :: "string \<Rightarrow> string \<times> string" where
  "Resource resource = (let r = WithResource SchemeGroupVersion resource in (r_group r, r_resource r))"

text \<open>\<^verbatim>\<open>in.SetGroupVersionKind(gvk)\<close> on the type meta of an object.\<close>

definition SetGroupVersionKind :: "gvk \<Rightarrow> rr \<Rightarrow> rr" where
  "SetGroupVersionKind k r =
     (if k_group k = [] \<and> k_version k = [] \<and> k_kind k = [] then r\<lparr>t_apiVersion := [], t_kind := []\<rparr>
      else r\<lparr>t_apiVersion := gv_string \<lparr> gv_group = k_group k, gv_version = k_version k \<rparr>, t_kind := k_kind k\<rparr>)"

subsection \<open>Schemes\<close>

type_synonym go_type = "string \<times> string"

record scheme =
  gvkToType :: "(gvk \<times> go_type) list"
  typeToGVK :: "(go_type \<times> gvk list) list"
  unversionedTypes :: "(go_type \<times> gvk) list"
  unversionedKinds :: "(string \<times> go_type) list"

definition NewScheme :: scheme where
  "NewScheme = \<lparr> gvkToType = [], typeToGVK = [], unversionedTypes = [], unversionedKinds = [] \<rparr>"

definition AddKnownTypeWithName :: "scheme \<Rightarrow> gvk \<Rightarrow> go_type \<Rightarrow> scheme option" where
  "AddKnownTypeWithName s k t =
     (if k_version k = [] then None
      else if (case map_of (gvkToType s) k of Some oldT \<Rightarrow> oldT \<noteq> t | None \<Rightarrow> False) then None
      else let s1 = s\<lparr>gvkToType := AList.update k t (gvkToType s)\<rparr>;
               ks = (case map_of (typeToGVK s) t of None \<Rightarrow> [] | Some ks \<Rightarrow> ks)
           in Some (if k \<in> set ks then s1 else s1\<lparr>typeToGVK := AList.update t (ks @ [k]) (typeToGVK s)\<rparr>))"

fun AddKnownTypes :: "scheme \<Rightarrow> group_version \<Rightarrow> go_type list \<Rightarrow> scheme option" where
  "AddKnownTypes s gv [] = Some s"
| "AddKnownTypes s gv (t # ts) =
     (case AddKnownTypeWithName s (WithKind gv (snd t)) t of
        None \<Rightarrow> None
      | Some s1 \<Rightarrow> AddKnownTypes s1 gv ts)"

fun unversioned_loop :: "scheme \<Rightarrow> group_version \<Rightarrow> go_type list \<Rightarrow> scheme option" where
  "unversioned_loop s gv [] = Some s"
| "unversioned_loop s gv (t # ts) =
     (let k = WithKind gv (snd t); s1 = s\<lparr>unversionedTypes := AList.update t k (unversionedTypes s)\<rparr> in
      if (case map_of (unversionedKinds s) (k_kind k) of Some old \<Rightarrow> t \<noteq> old | None \<Rightarrow> False) then None
      else unversioned_loop (s1\<lparr>unversionedKinds := AList.update (k_kind k) t (unversionedKinds s)\<rparr>) gv ts)"

definition AddUnversionedTypes :: "scheme \<Rightarrow> group_version \<Rightarrow> go_type list \<Rightarrow> scheme option" where
  "AddUnversionedTypes s gv ts =
     (case AddKnownTypes s gv ts of None \<Rightarrow> None | Some s1 \<Rightarrow> unversioned_loop s1 gv ts)"

definition metav1 :: "string \<Rightarrow> go_type" where
  "metav1 name = (''k8s.io/apimachinery/pkg/apis/meta/v1'', name)"

definition AddToGroupVersion :: "scheme \<Rightarrow> group_version \<Rightarrow> scheme option" where
  "AddToGroupVersion s gv =
     (case AddKnownTypeWithName s (WithKind gv ''WatchEvent'') (metav1 ''WatchEvent'') of
        None \<Rightarrow> None
      | Some s1 \<Rightarrow>
        (case AddKnownTypeWithName s1
                (WithKind \<lparr> gv_group = gv_group gv, gv_version = ''__internal'' \<rparr> ''WatchEvent'') (metav1 ''InternalEvent'') of
           None \<Rightarrow> None
         | Some s2 \<Rightarrow>
           (case AddKnownTypes s2 gv (map metav1 [''ListOptions'', ''GetOptions'', ''DeleteOptions'', ''CreateOptions'',
                                                  ''UpdateOptions'', ''PatchOptions'']) of
              None \<Rightarrow> None
            | Some s3 \<Rightarrow>
                AddUnversionedTypes s3 \<lparr> gv_group = [], gv_version = ''v1'' \<rparr>
                  (map metav1 [''Status'', ''APIVersions'', ''APIGroupList'', ''APIGroup'', ''APIResourceList'']))))"

definition v1alpha1_type :: "string \<Rightarrow> go_type" where
  "v1alpha1_type name = (''github.com/tektoncd/resolution/pkg/apis/resolution/v1alpha1'', name)"

definition addKnownTypes :: "scheme \<Rightarrow> scheme option" where
  "addKnownTypes s =
     (case AddKnownTypes s SchemeGroupVersion [v1alpha1_type ''ResolutionRequest'', v1alpha1_type ''ResolutionRequestList''] of
        None \<Rightarrow> None
      | Some s1 \<Rightarrow> AddToGroupVersion s1 SchemeGroupVersion)"

text \<open>The \<^verbatim>\<open>init\<close> of the clientset's scheme, and the same code of the fake clientset.\<close>

definition Scheme :: "scheme option" where
  "Scheme =
     (case AddToGroupVersion NewScheme \<lparr> gv_group = [], gv_version = ''v1'' \<rparr> of
        None \<Rightarrow> None
      | Some s \<Rightarrow> addKnownTypes s)"

definition fake_scheme :: "scheme option" where
  "fake_scheme =
     (case AddToGroupVersion NewScheme \<lparr> gv_group = [], gv_version = ''v1'' \<rparr> of
        None \<Rightarrow> None
      | Some s \<Rightarrow> addKnownTypes s)"

text \<open>The kinds of an object's type; an object of an unregistered type is an error.\<close>

definition ObjectKinds :: "scheme \<Rightarrow> go_type \<Rightarrow> gvk list option" where
  "ObjectKinds s t = map_of (typeToGVK s) t"

subsection \<open>Lemmas\<close>

text \<open>The two maps of a scheme describe the same relation between kinds and types.\<close>

definition scheme_wf :: "scheme \<Rightarrow> bool" where
  "scheme_wf s \<longleftrightarrow>
     (\<forall>k t. map_of (gvkToType s) k = Some t \<longleftrightarrow> (\<exists>ks. map_of (typeToGVK s) t = Some ks \<and> k \<in> set ks)) \<and>
     (\<forall>t ks. map_of (typeToGVK s) t = Some ks \<longrightarrow> distinct ks)"

lemma NewScheme_wf: "scheme_wf NewScheme"
  by (simp add: scheme_wf_def NewScheme_def)

lemma scheme_wfD:
  "scheme_wf s \<Longrightarrow> map_of (gvkToType s) k = Some t \<longleftrightarrow> (\<exists>ks. map_of (typeToGVK s) t = Some ks \<and> k \<in> set ks)"
  unfolding scheme_wf_def by blast

lemma AddKnownTypeWithName_wf:
  assumes "scheme_wf s" "AddKnownTypeWithName s k t = Some s'"
  shows "scheme_wf s'"
proof -
  define ks where "ks = (case map_of (typeToGVK s) t of None \<Rightarrow> [] | Some ks \<Rightarrow> ks)"
  have old: "map_of (gvkToType s) k = None \<or> map_of (gvkToType s) k = Some t"
    using assms(2) by (auto simp: AddKnownTypeWithName_def split: if_splits option.splits)
  have types: "map_of (gvkToType s') = (map_of (gvkToType s))(k \<mapsto> t)"
    using assms(2) by (auto simp: AddKnownTypeWithName_def Let_def update_conv' split: if_splits)
  have kinds: "map_of (typeToGVK s') =
      (if k \<in> set ks then map_of (typeToGVK s) else (map_of (typeToGVK s))(t \<mapsto> ks @ [k]))"
    using assms(2) by (auto simp: AddKnownTypeWithName_def Let_def update_conv' ks_def split: if_splits)
  show ?thesis
  proof (cases "k \<in> set ks")
    case True
    then have "map_of (gvkToType s) k = Some t"
      using scheme_wfD [OF assms(1), of k t] by (cases "map_of (typeToGVK s) t") (simp_all add: ks_def)
    then have "map_of (gvkToType s') = map_of (gvkToType s)" using types by (auto simp: fun_eq_iff)
    with assms(1) kinds True show ?thesis by (simp add: scheme_wf_def)
  next
    case False
    then have new: "map_of (gvkToType s) k = None"
      using old scheme_wfD [OF assms(1), of k t] by (auto simp: ks_def)
    have none: "k \<notin> set l" if "map_of (typeToGVK s) u = Some l" for u l
      using scheme_wfD [OF assms(1), of k u] that new by auto
    have ok: "distinct l" if "map_of (typeToGVK s) u = Some l" for u l
      using assms(1) that unfolding scheme_wf_def by blast
    have "map_of (gvkToType s') j = Some u \<longleftrightarrow> (\<exists>l. map_of (typeToGVK s') u = Some l \<and> j \<in> set l)" for j u
      using scheme_wfD [OF assms(1), of j u] new none [of u] False
      by (cases "map_of (typeToGVK s) t") (auto simp: types kinds ks_def)
    moreover have "distinct l" if "map_of (typeToGVK s') u = Some l" for u l
      using that ok [of u] ok [of t] False
      by (cases "map_of (typeToGVK s) t") (auto simp: kinds ks_def split: if_splits)
    ultimately show ?thesis unfolding scheme_wf_def by blast
  qed
qed

lemma AddKnownTypes_wf: "scheme_wf s \<Longrightarrow> AddKnownTypes s gv ts = Some s' \<Longrightarrow> scheme_wf s'"
  by (induction s gv ts rule: AddKnownTypes.induct) (auto split: option.splits intro: AddKnownTypeWithName_wf)

lemma unversioned_wf: "scheme_wf s \<Longrightarrow> unversioned_loop s gv ts = Some s' \<Longrightarrow> scheme_wf s'"
proof (induction s gv ts rule: unversioned_loop.induct)
  case (2 s gv t ts)
  then show ?case by (auto simp: Let_def scheme_wf_def split: if_splits)
qed simp

lemma AddToGroupVersion_wf: "scheme_wf s \<Longrightarrow> AddToGroupVersion s gv = Some s' \<Longrightarrow> scheme_wf s'"
  by (auto simp: AddToGroupVersion_def AddUnversionedTypes_def simp del: AddKnownTypes.simps unversioned_loop.simps list.map
      split: option.splits)
    (rule unversioned_wf [OF AddKnownTypes_wf [OF AddKnownTypes_wf [OF AddKnownTypeWithName_wf [OF AddKnownTypeWithName_wf]]]])

lemma addKnownTypes_wf: "scheme_wf s \<Longrightarrow> addKnownTypes s = Some s' \<Longrightarrow> scheme_wf s'"
  by (auto simp: addKnownTypes_def split: option.splits simp del: AddKnownTypes.simps intro: AddToGroupVersion_wf AddKnownTypes_wf)

lemma fake_scheme_eq: "fake_scheme = Scheme"
  by (simp add: fake_scheme_def Scheme_def)

lemma Scheme_kinds:
  "map_option (\<lambda>s. (ObjectKinds s (v1alpha1_type ''ResolutionRequest''), ObjectKinds s (v1alpha1_type ''ResolutionRequestList'')))
     Scheme =
   Some (Some [WithKind SchemeGroupVersion ''ResolutionRequest''], Some [WithKind SchemeGroupVersion ''ResolutionRequestList''])"
  by code_simp


end
