(* ===== verification/Webhook.thy ===== *)
theory Webhook
  imports Registration
begin

section \<open>The admission webhook\<close>

text \<open>
  The binary \<^verbatim>\<open>cmd/webhook\<close> over knative's webhook server: the three admission controllers it
  registers, the routing of a review to one of them by path, and what they answer. A document is
  the JSON value of the request body (\<open>None\<close> where the review has none). \<^verbatim>\<open>jsonpatch.CreatePatch\<close>
  is the argument \<open>diff\<close>, with operations of an arbitrary type; the checksum of the example block
  of a ConfigMap and the constructors that parse logging and metrics ConfigMaps are arguments too.
  The values the controllers put into the context (user info, dry run, the old object) are not
  read by the validation or defaulting of a ResolutionRequest, and a ResolutionRequest has no
  \<^verbatim>\<open>GetUntypedSpec\<close>, so no user annotations are set; they are left out. A panic is \<open>None\<close>.
\<close>

record admission_request =
  ar_uid :: string
  ar_kind :: gvk
  ar_operation :: string
  ar_object :: "json option"
  ar_oldObject :: "json option"

record 'op admission_response =
  rs_uid :: string
  rs_allowed :: bool
  rs_result :: "err option"
  rs_patch :: "'op list option"

definition MakeErrorStatus :: "string \<Rightarrow> 'op admission_response" where
  "MakeErrorStatus msg =
     \<lparr> rs_uid = [], rs_allowed = False, rs_result = Some (StatusError ''BadRequest'' 400 msg), rs_patch = None \<rparr>"

definition Allowed :: "'op admission_response" where
  "Allowed = \<lparr> rs_uid = [], rs_allowed = True, rs_result = None, rs_patch = None \<rparr>"

definition errMissingNewObject :: err where
  "errMissingNewObject = ErrorString ''the new object may not be nil''"

subsection \<open>Decoding with unknown fields disallowed\<close>

text \<open>The offsets of the metadata are found by walking over the tokens of the document: the first
  string \<^verbatim>\<open>metadata\<close> inside exactly one brace. It is the key of the member, unless a string value
  of an earlier member (or an element of an array there) is the same text; then decoding fails.\<close>

fun metadata_value :: "json \<Rightarrow> bool" where
  "metadata_value (JStr s) = (s = ''metadata'')"
| "metadata_value (JArr js) = list_ex metadata_value js"
| "metadata_value _ = False"

datatype offsets = Offsets_error err | Offsets_none | Offsets "(string \<times> json) list" json "(string \<times> json) list"

fun findMetadataOffsets :: "codec \<Rightarrow> (string \<times> json) list \<Rightarrow> (string \<times> json) list \<Rightarrow> offsets" where
  "findMetadataOffsets cd before [] = Offsets_none"
| "findMetadataOffsets cd before ((k, v) # after) =
     (if k = ''metadata'' then
        (case v of
           JObj _ \<Rightarrow> Offsets before v after
         | JNull \<Rightarrow> Offsets before v after
         | _ \<Rightarrow> Offsets_error (ErrorString (cd_mm cd k v)))
      else if metadata_value v then
        Offsets_error (ErrorString (case v of JStr _ \<Rightarrow> ''not at beginning of value'' | _ \<Rightarrow> cd_mm cd k v))
      else findMetadataOffsets cd (before @ [(k, v)]) after)"

definition Decode :: "codec \<Rightarrow> json \<Rightarrow> rr \<Rightarrow> bool \<Rightarrow> rr res" where
  "Decode cd j target disallowUnknownFields =
     (if \<not> disallowUnknownFields then dec_rr_into cd False j target
      else case j of
        JObj members \<Rightarrow>
          (case findMetadataOffsets cd [] members of
             Offsets_error e \<Rightarrow> Inl e
           | Offsets_none \<Rightarrow> dec_rr_into cd True j target
           | Offsets before metadata after \<Rightarrow>
               (case dec_rr_into cd True (JObj (before @ [(''metadata'', JObj [])] @ after)) target of
                  Inl e \<Rightarrow> Inl e
                | Inr x \<Rightarrow> dec_rr_into cd False (JObj [(''metadata'', metadata)]) x))
      | _ \<Rightarrow> dec_rr_into cd True j target)"

subsection \<open>Validation\<close>

record callback =
  cb_function :: "json \<Rightarrow> err option"
  cb_verbs :: "string list"

record admission_controller =
  ac_name :: string
  ac_path :: string
  ac_handlers :: "(gvk \<times> rr) list"
  ac_disallowUnknownFields :: bool
  ac_callbacks :: "(gvk \<times> callback) list"

text \<open>A document that is there is decoded into a copy of the handler.\<close>

definition decode_object :: "codec \<Rightarrow> admission_controller \<Rightarrow> rr \<Rightarrow> string \<Rightarrow> json option \<Rightarrow> rr option res" where
  "decode_object cd ac handler which raw =
     (case raw of
        None \<Rightarrow> Inr None
      | Some j \<Rightarrow>
          (case Decode cd j handler (ac_disallowUnknownFields ac) of
             Inl e \<Rightarrow> Inl (WrapError (''cannot decode incoming '' @ which @ '' object: '') e)
           | Inr r \<Rightarrow> Inr (Some r)))"

definition decodeRequestAndPrepareContext :: "codec \<Rightarrow> admission_controller \<Rightarrow> admission_request \<Rightarrow> gvk \<Rightarrow> rr option res" where
  "decodeRequestAndPrepareContext cd ac req k =
     (case map_of (ac_handlers ac) k of
        None \<Rightarrow> Inl (ErrorString (''unhandled kind: '' @ gvk_string k))
      | Some handler \<Rightarrow>
          (case decode_object cd ac handler ''new'' (ar_object req) of
             Inl e \<Rightarrow> Inl e
           | Inr newObj \<Rightarrow>
               (case decode_object cd ac handler ''old'' (ar_oldObject req) of
                  Inl e \<Rightarrow> Inl e
                | Inr oldObj \<Rightarrow> if ar_operation req = ''DELETE'' then Inr oldObj else Inr newObj)))"

definition validate :: "rr option \<Rightarrow> admission_request \<Rightarrow> err option" where
  "validate resource req =
     (if ar_operation req \<in> {''CREATE'', ''UPDATE''} then
        (case resource of
           None \<Rightarrow> Some errMissingNewObject
         | Some r \<Rightarrow> (case Validate r of None \<Rightarrow> None | Some fe \<Rightarrow> Some (ErrorString (fe_Error (Some fe)))))
      else None)"

definition run_callback :: "admission_controller \<Rightarrow> admission_request \<Rightarrow> gvk \<Rightarrow> err option" where
  "run_callback ac req k =
     (case (if ar_operation req = ''DELETE'' then ar_oldObject req else ar_object req) of
        None \<Rightarrow> None
      | Some toDecode \<Rightarrow>
          (case map_of (ac_callbacks ac) k of
             Some c \<Rightarrow> if ar_operation req \<in> set (cb_verbs c) then cb_function c toDecode else None
           | None \<Rightarrow> None))"

definition validation_Admit :: "codec \<Rightarrow> admission_controller \<Rightarrow> admission_request \<Rightarrow> 'op admission_response" where
  "validation_Admit cd ac req =
     (let k = ar_kind req; msg = err_message (cd_ip cd) in
      case decodeRequestAndPrepareContext cd ac req k of
        Inl e \<Rightarrow> MakeErrorStatus (''decoding request failed: '' @ msg e)
      | Inr resource \<Rightarrow>
          (case validate resource req of
             Some e \<Rightarrow> MakeErrorStatus (''validation failed: '' @ msg e)
           | None \<Rightarrow>
               (case run_callback ac req k of
                  Some e \<Rightarrow> MakeErrorStatus (''validation callback failed: '' @ msg e)
                | None \<Rightarrow> Allowed)))"

subsection \<open>Defaulting\<close>

text \<open>The binary registers no defaulting callbacks.\<close>

type_synonym 'op differ = "json \<Rightarrow> json \<Rightarrow> 'op list res"

definition roundTripPatch :: "codec \<Rightarrow> 'op differ \<Rightarrow> json option \<Rightarrow> rr option \<Rightarrow> 'op list res" where
  "roundTripPatch cd diff bytes unmarshalled =
     (case (unmarshalled, bytes) of
        (Some r, Some j) \<Rightarrow> diff j (enc_rr r)
      | _ \<Rightarrow> Inr [])"

text \<open>A nil object has no \<^verbatim>\<open>DeepCopyObject\<close>: the call panics.\<close>

definition setDefaults :: "codec \<Rightarrow> 'op differ \<Rightarrow> 'op list \<Rightarrow> rr option \<Rightarrow> 'op list res option" where
  "setDefaults cd diff patches crd =
     (case crd of
        None \<Rightarrow> None
      | Some before \<Rightarrow>
          Some (case diff (enc_rr before) (enc_rr (SetDefaults before)) of
                  Inl e \<Rightarrow> Inl e
                | Inr patch \<Rightarrow> Inr (patches @ patch)))"

definition mutate :: "codec \<Rightarrow> 'op differ \<Rightarrow> admission_controller \<Rightarrow> admission_request \<Rightarrow> 'op list res option" where
  "mutate cd diff ac req =
     (case map_of (ac_handlers ac) (ar_kind req) of
        None \<Rightarrow> Some (Inl (ErrorString (''unhandled kind: '' @ gvk_string (ar_kind req))))
      | Some handler \<Rightarrow>
          (case decode_object cd ac handler ''new'' (ar_object req) of
             Inl e \<Rightarrow> Some (Inl e)
           | Inr newObj \<Rightarrow>
               (case decode_object cd ac handler ''old'' (ar_oldObject req) of
                  Inl e \<Rightarrow> Some (Inl e)
                | Inr oldObj \<Rightarrow>
                    (case roundTripPatch cd diff (ar_object req) newObj of
                       Inl e \<Rightarrow> Some (Inl (WrapError ''cannot create patch for round tripped newBytes: '' e))
                     | Inr rtp \<Rightarrow> setDefaults cd diff rtp newObj))))"

definition defaulting_Admit :: "codec \<Rightarrow> 'op differ \<Rightarrow> admission_controller \<Rightarrow> admission_request \<Rightarrow> 'op admission_response option" where
  "defaulting_Admit cd diff ac req =
     (if ar_operation req \<notin> {''CREATE'', ''UPDATE''} then Some Allowed
      else case mutate cd diff ac req of
        None \<Rightarrow> None
      | Some (Inl e) \<Rightarrow> Some (MakeErrorStatus (''mutation failed: '' @ err_message (cd_ip cd) e))
      | Some (Inr patches) \<Rightarrow> Some (Allowed\<lparr>rs_patch := Some patches\<rparr>))"

subsection \<open>ConfigMaps\<close>

text \<open>Of a ConfigMap the name, the annotations and the data are kept. The names of the ConfigMaps are read
  from the environment.\<close>

record config_map_object =
  co_name :: string
  co_annotations :: gomap
  co_data :: gomap

definition config_map_fields :: "codec \<Rightarrow> (string \<times> config_map_object setter) list" where
  "config_map_fields cd =
     [(''metadata'', dec_struct (cd_mm cd) (cd_ip cd) False ''metadata''
         [(''name'', fld co_name (\<lambda>v c. c\<lparr>co_name := v\<rparr>) (dec_str (cd_mm cd) ''name'')),
          (''annotations'', fld co_annotations (\<lambda>v c. c\<lparr>co_annotations := v\<rparr>) (dec_map (cd_mm cd) ''annotations''))]),
      (''data'', fld co_data (\<lambda>v c. c\<lparr>co_data := v\<rparr>) (dec_map (cd_mm cd) ''data''))]"

record config_controller =
  cc_name :: string
  cc_path :: string
  cc_constructors :: "(string \<times> (config_map_object \<Rightarrow> err option)) list"

definition config_validate :: "codec \<Rightarrow> (string \<Rightarrow> string) \<Rightarrow> config_controller \<Rightarrow> admission_request \<Rightarrow> err option" where
  "config_validate cd checksum cc req =
     (if ar_kind req \<noteq> \<lparr> k_group = [], k_version = ''v1'', k_kind = ''ConfigMap'' \<rparr> then
        Some (ErrorString (''unhandled kind: '' @ gvk_string (ar_kind req)))
      else let zero = \<lparr> co_name = [], co_annotations = None, co_data = None \<rparr> in
      case (case ar_object req of
              None \<Rightarrow> Inr zero
            | Some j \<Rightarrow> dec_struct (cd_mm cd) (cd_ip cd) False ''ConfigMap'' (config_map_fields cd) j zero) of
        Inl e \<Rightarrow> Some (WrapError ''cannot decode incoming new object: '' e)
      | Inr newObj \<Rightarrow>
          (case map_of (cc_constructors cc) (co_name newObj) of
             None \<Rightarrow> None
           | Some constructor \<Rightarrow>
               (case (go_lookup (co_data newObj) ''_example'', go_lookup (co_annotations newObj) ''knative.dev/example-checksum'') of
                  (Some exampleData, Some exampleChecksum) \<Rightarrow>
                    if exampleChecksum \<noteq> checksum exampleData then
                      Some (ErrorString (''the update modifies a key in '' @ quote (cd_ip cd) ''_example'' @
                        '' which is probably not what you want. Instead, copy the respective setting to the top-level of the ConfigMap, directly below ''
                        @ quote (cd_ip cd) ''data''))
                    else constructor newObj
                | _ \<Rightarrow> constructor newObj)))"

definition config_Admit :: "codec \<Rightarrow> (string \<Rightarrow> string) \<Rightarrow> config_controller \<Rightarrow> admission_request \<Rightarrow> 'op admission_response" where
  "config_Admit cd checksum cc req =
     (if ar_operation req \<notin> {''CREATE'', ''UPDATE''} then Allowed
      else case config_validate cd checksum cc req of
        Some e \<Rightarrow> MakeErrorStatus (''validation failed: '' @ err_message (cd_ip cd) e)
      | None \<Rightarrow> Allowed)"

subsection \<open>The binary\<close>

definition types :: "(gvk \<times> rr) list" where
  "types = [(WithKind SchemeGroupVersion ''ResolutionRequest'', empty_rr)]"

definition callbacks :: "(gvk \<times> callback) list" where
  "callbacks = []"

definition NewDefaultingAdmissionController :: admission_controller where
  "NewDefaultingAdmissionController =
     \<lparr> ac_name = ''defaulting.webhook.resolution.tekton.dev'', ac_path = ''/defaulting'', ac_handlers = types,
       ac_disallowUnknownFields = True, ac_callbacks = [] \<rparr>"

definition NewValidationAdmissionController :: admission_controller where
  "NewValidationAdmissionController =
     \<lparr> ac_name = ''validation.webhook.resolution.tekton.dev'', ac_path = ''/resource-validation'', ac_handlers = types,
       ac_disallowUnknownFields = True, ac_callbacks = callbacks \<rparr>"

definition ConfigMapName :: "(string \<Rightarrow> string) \<Rightarrow> string \<Rightarrow> string \<Rightarrow> string" where
  "ConfigMapName env var dflt = (if env var \<noteq> [] then env var else dflt)"

definition NewConfigValidationController ::
  "(string \<Rightarrow> string) \<Rightarrow> (config_map_object \<Rightarrow> err option) \<Rightarrow> (config_map_object \<Rightarrow> err option) \<Rightarrow> config_controller" where
  "NewConfigValidationController env loggingConfig observabilityConfig =
     \<lparr> cc_name = ''config.webhook.resolution.tekton.dev'', cc_path = ''/config-validation'',
       cc_constructors =
         [(ConfigMapName env ''CONFIG_LOGGING_NAME'' ''config-logging'', loggingConfig),
          (ConfigMapName env ''CONFIG_OBSERVABILITY_NAME'' ''config-observability'', observabilityConfig)] \<rparr>"

record webhook_options =
  wo_ServiceName :: string
  wo_Port :: int
  wo_SecretName :: string

text \<open>What \<^verbatim>\<open>main\<close> hands to the server: the options and the controllers in the order of registration. The
  certificate controller serves no path.\<close>

record webhook_main =
  wm_options :: webhook_options
  wm_defaulting :: admission_controller
  wm_validation :: admission_controller
  wm_config :: config_controller

definition main_webhook ::
  "(string \<Rightarrow> string) \<Rightarrow> (config_map_object \<Rightarrow> err option) \<Rightarrow> (config_map_object \<Rightarrow> err option) \<Rightarrow> webhook_main" where
  "main_webhook env loggingConfig observabilityConfig =
     \<lparr> wm_options = \<lparr> wo_ServiceName = ''webhook'', wo_Port = 8443, wo_SecretName = ''webhook-certs'' \<rparr>,
       wm_defaulting = NewDefaultingAdmissionController, wm_validation = NewValidationAdmissionController,
       wm_config = NewConfigValidationController env loggingConfig observabilityConfig \<rparr>"

subsection \<open>Serving a review\<close>

datatype 'op http_reply = Http_error int string | Reply "'op admission_response"

definition html_escape :: "string \<Rightarrow> string" where
  "html_escape s =
     concat (map (\<lambda>c. if c = CHR ''&'' then ''&amp;'' else if c = CHR 0x27 then ''&#39;'' else if c = CHR ''<'' then ''&lt;''
                      else if c = CHR ''>'' then ''&gt;'' else if c = CHR 0x22 then ''&#34;'' else [c]) s)"

definition admissionHandler ::
  "codec \<Rightarrow> (admission_request \<Rightarrow> 'op admission_response option) \<Rightarrow> admission_request res \<Rightarrow> 'op http_reply option" where
  "admissionHandler cd admit body =
     (case body of
        Inl e \<Rightarrow> Some (Http_error 400 (''could not decode body:'' @ err_message (cd_ip cd) e))
      | Inr req \<Rightarrow> map_option (\<lambda>r. Reply (r\<lparr>rs_uid := ar_uid req\<rparr>)) (admit req))"

definition ServeHTTP ::
  "codec \<Rightarrow> 'op differ \<Rightarrow> (string \<Rightarrow> string) \<Rightarrow> webhook_main \<Rightarrow> string \<Rightarrow> string \<Rightarrow> admission_request res \<Rightarrow> 'op http_reply option" where
  "ServeHTTP cd diff checksum wm contentType path body =
     (if contentType \<noteq> ''application/json'' then
        Some (Http_error 415 (''invalid Content-Type, want `application/json`''))
      else if path = ac_path (wm_defaulting wm) then admissionHandler cd (defaulting_Admit cd diff (wm_defaulting wm)) body
      else if path = ac_path (wm_validation wm) then
        admissionHandler cd (\<lambda>req. Some (validation_Admit cd (wm_validation wm) req)) body
      else if path = cc_path (wm_config wm) then
        admissionHandler cd (\<lambda>req. Some (config_Admit cd checksum (wm_config wm) req)) body
      else Some (Http_error 400 (''no controller registered for: '' @ html_escape path)))"

subsection \<open>Lemmas: decoding\<close>

lemma find_metadata_enc:
  assumes "json_string (t_kind r) \<noteq> ''metadata''" "json_string (t_apiVersion r) \<noteq> ''metadata''"
  shows "findMetadataOffsets cd []
      (omit_str ''kind'' (t_kind r) @ omit_str ''apiVersion'' (t_apiVersion r) @ (''metadata'', JObj m) # rest) =
    Offsets (omit_str ''kind'' (t_kind r) @ omit_str ''apiVersion'' (t_apiVersion r)) (JObj m) rest"
  using assms by (simp add: omit_str_def enc_str_def)

text \<open>A document that the codec wrote is read by the webhook as any other decoder reads it, unless a
  type meta field says \<^verbatim>\<open>metadata\<close>.\<close>

lemma Decode_enc:
  assumes "json_ok r" "t_kind r \<noteq> ''metadata''" "t_apiVersion r \<noteq> ''metadata''"
  shows "Decode cd (enc_rr r) empty_rr strict = Inr (reread (cd_addr cd) r)"
proof (cases strict)
  case True
  note u = assms(1) [unfolded json_ok_def utf8_def]
  let ?y = "reread (cd_addr cd) r"
  let ?x = "empty_rr\<lparr>t_kind := t_kind r, t_apiVersion := t_apiVersion r\<rparr>"
  let ?rest = "[(''spec'', enc_spec (spec_params r)), (''status'', enc_status (rr_status r))]"
  obtain m where m: "enc_meta (meta r) = JObj m" by (simp add: enc_meta_def)
  have "dec_members (cd_ip cd) True (rr_fields cd True) ((''metadata'', JObj []) # ?rest) ?x = Inr (?y\<lparr>meta := empty_meta\<rparr>)"
    using u by (simp add: rr_find fld_def empty_rr_def dec_spec_enc dec_status_enc reread_def dec_struct_def [of _ _ _ "''metadata''"])
  then have first: "dec_rr_into cd True (JObj ((omit_str ''kind'' (t_kind r) @ omit_str ''apiVersion'' (t_apiVersion r))
      @ [(''metadata'', JObj [])] @ ?rest)) empty_rr = Inr (?y\<lparr>meta := empty_meta\<rparr>)"
    using u unfolding dec_rr_into_def dec_struct_def json.case append_assoc append_Cons append_Nil
    by (intro dec_step [OF dec_omit_str [OF rr_find(1)] dec_step [OF dec_omit_str [OF rr_find(2)]]]) (simp_all add: empty_rr_def)
  have second: "dec_rr_into cd False (JObj [(''metadata'', enc_meta (meta r))]) (?y\<lparr>meta := empty_meta\<rparr>) = Inr ?y"
    using u by (simp add: dec_rr_into_def dec_struct_def [of _ _ _ "''ResolutionRequest''"] rr_find fld_def dec_meta_enc reread_def)
  have "findMetadataOffsets cd [] (omit_str ''kind'' (t_kind r) @ omit_str ''apiVersion'' (t_apiVersion r)
      @ (''metadata'', JObj m) # ?rest) =
    Offsets (omit_str ''kind'' (t_kind r) @ omit_str ''apiVersion'' (t_apiVersion r)) (JObj m) ?rest"
    by (rule find_metadata_enc) (use u assms(2,3) in simp_all)
  with first second True m show ?thesis by (simp add: Decode_def enc_rr_def)
qed (simp add: Decode_def dec_rr_enc [OF assms(1), unfolded dec_rr_def])

lemma SetDefaults_json_ok: "json_ok r \<Longrightarrow> json_ok (SetDefaults r)"
proof -
  have "utf8 ''ResolutionRequest''" "utf8 ''resolution.tekton.dev/v1alpha1''"
    unfolding utf8_def by (rule json_string_ascii, simp)+
  then show "json_ok r \<Longrightarrow> json_ok (SetDefaults r)" by (simp add: json_ok_def SetDefaults_def Let_def)
qed

lemma go_lookup_sorted: "go_wf m \<Longrightarrow> go_lookup (sorted_map m) k = go_lookup m k"
proof (cases "go_entries m = []")
  case False
  assume "go_wf m"
  then have "map_of (sort_key fst (go_entries m)) = map_of (go_entries m)"
    by (intro map_of_eq_if_set_eq) (simp_all add: go_wf_def map_fst_sort_key_distinct)
  with False show ?thesis by (simp add: go_lookup_def sorted_map_def)
qed (simp add: go_lookup_def sorted_map_def)

lemma getTypeLabel_reread: "json_ok r \<Longrightarrow> getTypeLabel (m_labels (meta (reread a r))) = getTypeLabel (m_labels (meta r))"
  by (simp add: getTypeLabel_eq reread_def go_index_def go_lookup_sorted json_ok_def meta_ok_def)

subsection \<open>Lemmas: the controllers of the binary\<close>

definition rr_kind :: gvk where
  "rr_kind = WithKind SchemeGroupVersion ''ResolutionRequest''"

lemma handler_rr:
  "map_of (ac_handlers NewDefaultingAdmissionController) rr_kind = Some empty_rr"
  "map_of (ac_handlers NewValidationAdmissionController) rr_kind = Some empty_rr"
  "ac_disallowUnknownFields NewDefaultingAdmissionController"
  "ac_disallowUnknownFields NewValidationAdmissionController"
  "ac_callbacks NewValidationAdmissionController = []"
  by (simp_all add: NewDefaultingAdmissionController_def NewValidationAdmissionController_def types_def rr_kind_def callbacks_def)

lemma Validate_iff: "Validate r = None \<longleftrightarrow> getTypeLabel (m_labels (meta r)) \<noteq> []"
  by (simp add: Validate_cases)

lemma serve_paths [simp]:
  "ServeHTTP cd diff checksum (main_webhook env l ob) ''application/json'' ''/defaulting'' body =
     admissionHandler cd (defaulting_Admit cd diff NewDefaultingAdmissionController) body"
  "ServeHTTP cd diff checksum (main_webhook env l ob) ''application/json'' ''/resource-validation'' body =
     admissionHandler cd (\<lambda>req. Some (validation_Admit cd NewValidationAdmissionController req)) body"
  by (simp_all add: ServeHTTP_def main_webhook_def NewDefaultingAdmissionController_def NewValidationAdmissionController_def)

lemma validation_allowed:
  assumes "ar_kind req = rr_kind" "ar_operation req \<in> {''CREATE'', ''UPDATE''}"
  shows "rs_allowed (validation_Admit cd NewValidationAdmissionController req) \<longleftrightarrow>
    (\<exists>j r. ar_object req = Some j \<and> Decode cd j empty_rr True = Inr r \<and> getTypeLabel (m_labels (meta r)) \<noteq> []) \<and>
    (case ar_oldObject req of None \<Rightarrow> True | Some j \<Rightarrow> \<not> is_err (Decode cd j empty_rr True))"
  using assms
  by (auto simp: validation_Admit_def decodeRequestAndPrepareContext_def decode_object_def handler_rr validate_def
      run_callback_def Validate_iff [symmetric] MakeErrorStatus_def Allowed_def is_err_def split: option.splits sum.splits)

lemma find_field_None_iff: "find_field fs k = None \<longleftrightarrow> fold_key k \<notin> set (map (fold_key \<circ> fst) fs)"
  by (auto simp: find_field_def find_None_iff map_of_eq_None_iff image_iff split: option.splits)
    (metis map_of_SomeD fst_conv)

lemma rr_field_names: "map (fold_key \<circ> fst) (rr_fields cd strict) = map fold_key [''kind'', ''apiVersion'', ''metadata'', ''spec'', ''status'']"
  by (simp add: rr_fields_def del: fold_key.simps)

text \<open>An unknown member makes a strict decoder fail, whatever it finds before it.\<close>

lemma dec_unknown:
  "find_field fs k = None \<Longrightarrow> k \<in> fst ` set ms \<Longrightarrow> is_err (dec_members ip True fs ms x)"
  by (induction ip True fs ms x rule: dec_members.induct) (auto split: option.splits sum.splits)

lemma findMetadataOffsets_split:
  "findMetadataOffsets cd before ms = Offsets a v b \<Longrightarrow> before @ ms = a @ (''metadata'', v) # b"
  by (induction cd before ms rule: findMetadataOffsets.induct) (auto split: if_splits json.splits)

lemma Decode_unknown:
  assumes "find_field (rr_fields cd True) k = None" "k \<in> fst ` set ms"
  shows "is_err (Decode cd (JObj ms) target True)"
proof -
  have rej: "is_err (dec_rr_into cd True (JObj ns) x)" if "k \<in> fst ` set ns" for ns x
    using dec_unknown [OF assms(1) that] by (simp add: dec_rr_into_def dec_struct_def)
  have "k \<noteq> ''metadata''" using assms(1) rr_find(3) [of cd True] by auto
  then have "k \<in> fst ` set (a @ [(''metadata'', JObj [])] @ b)" if "findMetadataOffsets cd [] ms = Offsets a v b" for a v b
    using findMetadataOffsets_split [OF that] assms(2) by auto
  with rej rej [OF assms(2)] show ?thesis
    by (fastforce simp: Decode_def is_err_def split: offsets.splits sum.splits)
qed

subsection \<open>Properties\<close>

text \<open>C13. The validating webhook answers every create and update of a ResolutionRequest with the UID of the
  review, and allows it exactly when there is a new object, every object of the review decodes
  with unknown fields disallowed, and the new object's label \<^verbatim>\<open>resolution.tekton.dev/type\<close> is there and not
  empty.\<close>

theorem webhook_validates:
  assumes "ar_kind req = rr_kind" "ar_operation req \<in> {''CREATE'', ''UPDATE''}"
  shows "\<exists>resp. ServeHTTP cd diff checksum (main_webhook env l ob) ''application/json'' ''/resource-validation'' (Inr req) =
      Some (Reply resp) \<and> rs_uid resp = ar_uid req \<and> rs_patch resp = None \<and>
    (rs_allowed resp \<longleftrightarrow>
      (\<exists>j r. ar_object req = Some j \<and> Decode cd j empty_rr True = Inr r \<and>
             go_index (m_labels (meta r)) ''resolution.tekton.dev/type'' \<noteq> []) \<and>
      (case ar_oldObject req of None \<Rightarrow> True | Some j \<Rightarrow> \<not> is_err (Decode cd j empty_rr True)))"
proof -
  have "rs_patch (validation_Admit cd NewValidationAdmissionController req) = None"
    by (simp add: validation_Admit_def Let_def MakeErrorStatus_def Allowed_def split: option.split sum.split)
  then show ?thesis using validation_allowed [OF assms, of cd]
    by (simp add: admissionHandler_def getTypeLabel_eq LabelKeyResolverType_def)
qed

definition example_review :: "json \<Rightarrow> admission_request" where
  "example_review j = \<lparr> ar_uid = ''705ab4f5'', ar_kind = rr_kind, ar_operation = ''CREATE'', ar_object = Some j, ar_oldObject = None \<rparr>"

lemma example_created_decodes:
  "Decode example_codec (enc_rr example_created) empty_rr True = Inr (reread 7 example_created)"
  using Decode_enc [OF example_created_ok, of example_codec True]
  by (simp add: example_created_def example_request_def example_codec_def)

theorem webhook_validates_witness:
  "\<exists>resp :: nat admission_response.
     ServeHTTP example_codec (\<lambda>_ _. Inr []) (\<lambda>s. s) (main_webhook (\<lambda>_. []) (\<lambda>_. None) (\<lambda>_. None)) ''application/json''
       ''/resource-validation'' (Inr (example_review (enc_rr example_created))) = Some (Reply resp) \<and>
     rs_uid resp = ''705ab4f5'' \<and> rs_allowed resp"
proof -
  have "go_index (m_labels (meta (reread 7 example_created))) ''resolution.tekton.dev/type'' = ''git''"
    by (simp add: reread_def example_created_def example_request_def sorted_map_def go_index_def go_lookup_def)
  then show ?thesis
    using webhook_validates [of "example_review (enc_rr example_created)" example_codec "\<lambda>_ _. Inr []" "\<lambda>s. s"
        "\<lambda>_. []" "\<lambda>_. None" "\<lambda>_. None"] example_created_decodes
    by (auto simp: example_review_def)
qed



text \<open>The law of \<^verbatim>\<open>jsonpatch.CreatePatch\<close>: it fails on no pair of documents, and applying the operations to
  the first document gives the second one; operations are applied one after the other.\<close>

definition differ_ok :: "'op differ \<Rightarrow> ('op list \<Rightarrow> json \<Rightarrow> json option) \<Rightarrow> bool" where
  "differ_ok diff patched \<longleftrightarrow>
     (\<forall>a b. \<exists>ops. diff a b = Inr ops \<and> patched ops a = Some b) \<and>
     (\<forall>xs ys a. patched (xs @ ys) a = Option.bind (patched xs a) (patched ys))"


text \<open>Operations for examples: each replaces the whole document.\<close>

definition whole :: "json list \<Rightarrow> json \<Rightarrow> json option" where
  "whole ops j = Some (fold (\<lambda>b _. b) ops j)"

lemma whole_ok: "differ_ok (\<lambda>a b. Inr [b]) whole"
  by (simp add: differ_ok_def whole_def)


text \<open>A create or update without a new object: the validating webhook denies it, the defaulting one
  panics, because its test for a missing object comes after the call that needs the object.\<close>

theorem defaulting_panics_without_object:
  assumes "ar_kind req = rr_kind" "ar_operation req \<in> {''CREATE'', ''UPDATE''}" "ar_object req = None" "ar_oldObject req = None"
  shows "defaulting_Admit cd diff NewDefaultingAdmissionController req = None"
    and "validation_Admit cd NewValidationAdmissionController req =
      MakeErrorStatus ''validation failed: the new object may not be nil''"
  using assms
  by (auto simp: defaulting_Admit_def mutate_def handler_rr decode_object_def roundTripPatch_def setDefaults_def
      validation_Admit_def decodeRequestAndPrepareContext_def validate_def errMissingNewObject_def)

end
