(* ===== verification/Label_Selectors.thy ===== *)
theory Label_Selectors
  imports Common
begin

section \<open>Label and field selectors\<close>

text \<open>
  Kubernetes' \<^verbatim>\<open>labels\<close> package (\<^verbatim>\<open>k8s.io/apimachinery/pkg/labels/selector.go\<close>), with which the generated listers,
  the fake client and the listers over a dynamic client select: requirements and selectors, what
  they match and how they are printed, the lexer and the parser of their text, and the validation
  of keys and values (\<^verbatim>\<open>util/validation\<close>). A parser state is the list of scanned items that are left;
  reading behind its end, where the source would panic, is \<open>None\<close>. \<^verbatim>\<open>sort.Sort\<close> by key is
  \<open>sort_key\<close>, which keeps the order of equal keys as the source's insertion sort does for up to
  twelve requirements. A regular expression is the predicate it stands for. Of field selectors
  (\<^verbatim>\<open>pkg/fields\<close>) only the syntax matters here: which texts \<^verbatim>\<open>ParseSelector\<close> accepts.
\<close>

subsection \<open>Validation of keys and values\<close>

definition is_lower :: "char \<Rightarrow> bool" where
  "is_lower c \<longleftrightarrow> 97 \<le> byte c \<and> byte c \<le> 122"

definition is_alnum :: "char \<Rightarrow> bool" where
  "is_alnum c \<longleftrightarrow> is_digit c \<or> is_lower c \<or> 65 \<le> byte c \<and> byte c \<le> 90"

definition qname_ext :: "char \<Rightarrow> bool" where
  "qname_ext c \<longleftrightarrow> is_alnum c \<or> c = CHR ''-'' \<or> c = CHR ''_'' \<or> c = CHR ''.''"

definition qualifiedNameFmt :: string where
  "qualifiedNameFmt = ''([A-Za-z0-9][-A-Za-z0-9_.]*)?[A-Za-z0-9]''"

definition qualifiedNameRegexp :: "string \<Rightarrow> bool" where
  "qualifiedNameRegexp s \<longleftrightarrow> s \<noteq> [] \<and> is_alnum (hd s) \<and> is_alnum (last s) \<and> list_all qname_ext s"

definition dns1123LabelFmt :: string where
  "dns1123LabelFmt = ''[a-z0-9]([-a-z0-9]*[a-z0-9])?''"

definition dns1123Label :: "string \<Rightarrow> bool" where
  "dns1123Label s \<longleftrightarrow>
     (let lead = (\<lambda>c. is_lower c \<or> is_digit c) in
      s \<noteq> [] \<and> lead (hd s) \<and> lead (last s) \<and> list_all (\<lambda>c. lead c \<or> c = CHR ''-'') s)"

definition dns1123SubdomainRegexp :: "string \<Rightarrow> bool" where
  "dns1123SubdomainRegexp s \<longleftrightarrow> list_all dns1123Label (split_on (CHR ''.'') s)"

definition MaxLenError :: "nat \<Rightarrow> string" where
  "MaxLenError n = ''must be no more than '' @ utoa n @ '' characters''"

definition EmptyError :: string where
  "EmptyError = ''must be non-empty''"

definition RegexError :: "string \<Rightarrow> string \<Rightarrow> string list \<Rightarrow> string" where
  "RegexError msg regex examples =
     (if examples = [] then msg @ '' (regex used for validation is '' @ [chr 39] @ regex @ [chr 39] @ '')''
      else msg @ '' (e.g. '' @ join '' or '' (map (\<lambda>e. [chr 39] @ e @ [chr 39] @ '', '') examples)
        @ ''regex used for validation is '' @ [chr 39] @ regex @ [chr 39] @ '')'')"

definition apos :: "string \<Rightarrow> string" where
  "apos s = [chr 39] @ s @ [chr 39]"

definition IsDNS1123Subdomain :: "string \<Rightarrow> string list" where
  "IsDNS1123Subdomain value =
     (if length value > 253 then [MaxLenError 253] else [])
     @ (if dns1123SubdomainRegexp value then []
        else [RegexError (''a lowercase RFC 1123 subdomain must consist of lower case alphanumeric characters, '' @ apos ''-''
                @ '' or '' @ apos ''.'' @ '', and must start and end with an alphanumeric character'')
              (dns1123LabelFmt @ ''('' @ [chr 92] @ ''.'' @ dns1123LabelFmt @ '')*'') [''example.com'']])"

definition qualifiedNameErrMsg :: string where
  "qualifiedNameErrMsg =
     ''must consist of alphanumeric characters, '' @ apos ''-'' @ '', '' @ apos ''_'' @ '' or '' @ apos ''.''
     @ '', and must start and end with an alphanumeric character''"

definition qname_error :: string where
  "qname_error = RegexError qualifiedNameErrMsg qualifiedNameFmt [''MyName'', ''my.name'', ''123-abc'']"

definition IsQualifiedName :: "string \<Rightarrow> string list" where
  "IsQualifiedName value =
     (let check_name = (\<lambda>name.
        (if name = [] then [''name part '' @ EmptyError]
         else if length name > 63 then [''name part '' @ MaxLenError 63] else [])
        @ (if qualifiedNameRegexp name then [] else [''name part '' @ qname_error]))
      in case split_on (CHR ''/'') value of
           [name] \<Rightarrow> check_name name
         | [prefix, name] \<Rightarrow>
             (if prefix = [] then [''prefix part '' @ EmptyError]
              else map (\<lambda>m. ''prefix part '' @ m) (IsDNS1123Subdomain prefix)) @ check_name name
         | _ \<Rightarrow> [''a qualified name '' @ qname_error @ '' with an optional DNS subdomain prefix and ''
                  @ apos ''/'' @ '' (e.g. '' @ apos ''example.com/MyName'' @ '')''])"

definition IsValidLabelValue :: "string \<Rightarrow> string list" where
  "IsValidLabelValue value =
     (if length value > 63 then [MaxLenError 63] else [])
     @ (if value = [] \<or> qualifiedNameRegexp value then []
        else [RegexError (''a valid label must be an empty string or consist of alphanumeric characters, '' @ apos ''-'' @ '', ''
                @ apos ''_'' @ '' or '' @ apos ''.'' @ '', and must start and end with an alphanumeric character'')
              (''('' @ qualifiedNameFmt @ '')?'') [''MyValue'', ''my_value'', ''12345'']])"

text \<open>The text of \<^verbatim>\<open>field.Invalid\<close> for a string, and for a slice of strings.\<close>

definition field_invalid :: "(nat \<Rightarrow> bool) \<Rightarrow> string \<Rightarrow> string \<Rightarrow> string \<Rightarrow> string" where
  "field_invalid ip path value detail =
     path @ '': Invalid value: '' @ quote ip value @ (if detail = [] then [] else '': '' @ detail)"

definition field_invalid_list :: "(nat \<Rightarrow> bool) \<Rightarrow> string \<Rightarrow> string list \<Rightarrow> string \<Rightarrow> string" where
  "field_invalid_list ip path vals detail =
     path @ '': Invalid value: []string{'' @ join '', '' (map (quote ip) vals) @ ''}: '' @ detail"

definition validateLabelKey :: "(nat \<Rightarrow> bool) \<Rightarrow> string \<Rightarrow> string \<Rightarrow> string option" where
  "validateLabelKey ip k path =
     (let errs = IsQualifiedName k in if errs = [] then None else Some (field_invalid ip path k (join ''; '' errs)))"

definition validateLabelValue :: "(nat \<Rightarrow> bool) \<Rightarrow> string \<Rightarrow> string \<Rightarrow> string \<Rightarrow> string option" where
  "validateLabelValue ip k v path =
     (let errs = IsValidLabelValue v in
      if errs = [] then None else Some (field_invalid ip (path @ ''['' @ k @ '']'') v (join ''; '' errs)))"

text \<open>\<^verbatim>\<open>ErrorList.ToAggregate\<close>: no error, one, or all that differ in brackets.\<close>

definition aggregate :: "string list \<Rightarrow> err option" where
  "aggregate errs =
     (case rev (remdups (rev errs)) of
        [] \<Rightarrow> None
      | [e] \<Rightarrow> Some (ErrorString e)
      | es \<Rightarrow> Some (ErrorString (''['' @ join '', '' es @ '']'')))"

text \<open>\<^verbatim>\<open>strconv.ParseInt(s, 10, 64)\<close>\<close>

definition parse_int :: "string \<Rightarrow> int option" where
  "parse_int s =
     (let (neg, ds) = (case s of
          c # cs \<Rightarrow> if c = CHR ''+'' then (False, cs) else if c = CHR ''-'' then (True, cs) else (False, s)
        | [] \<Rightarrow> (False, []));
        n = (if neg then - int (digits_val 0 ds) else int (digits_val 0 ds))
      in if ds \<noteq> [] \<and> list_all is_digit ds \<and> in_int64 n then Some n else None)"

subsection \<open>Requirements and selectors\<close>

datatype operator = DoesNotExist | Equals | DoubleEquals | In | NotEquals | NotIn | Exists | GreaterThan | LessThan

record requirement =
  rq_key :: string
  rq_operator :: operator
  rq_strValues :: "string list"

datatype selector = InternalSelector "requirement list" | NothingSelector

definition Everything :: selector where
  "Everything = InternalSelector []"

definition NewRequirement :: "(nat \<Rightarrow> bool) \<Rightarrow> string \<Rightarrow> operator \<Rightarrow> string list \<Rightarrow> requirement res" where
  "NewRequirement ip key op vals =
     (let key_errs = (case validateLabelKey ip key ''key'' of None \<Rightarrow> [] | Some e \<Rightarrow> [e]);
          op_errs =
            (if op = In \<or> op = NotIn then
               (if vals = [] then [field_invalid_list ip ''values'' vals
                  (''for '' @ apos ''in'' @ '', '' @ apos ''notin'' @ '' operators, values set can'' @ [chr 39] @ ''t be empty'')] else [])
             else if op = Equals \<or> op = DoubleEquals \<or> op = NotEquals then
               (if length vals \<noteq> 1 then [field_invalid_list ip ''values'' vals ''exact-match compatibility requires one single value''] else [])
             else if op = Exists \<or> op = DoesNotExist then
               (if vals \<noteq> [] then [field_invalid_list ip ''values'' vals ''values set must be empty for exists and does not exist''] else [])
             else
               (if length vals \<noteq> 1 then [field_invalid_list ip ''values'' vals
                  (''for '' @ apos ''Gt'' @ '', '' @ apos ''Lt'' @ '' operators, exactly one value is required'')] else [])
               @ concat (map (\<lambda>i. if parse_int (vals ! i) = None
                    then [field_invalid ip (''values['' @ utoa i @ '']'') (vals ! i)
                      (''for '' @ apos ''Gt'' @ '', '' @ apos ''Lt'' @ '' operators, the value must be an integer'')]
                    else []) [0..<length vals]));
          val_errs = concat (map (\<lambda>i. case validateLabelValue ip key (vals ! i) (''values['' @ utoa i @ '']'') of
              None \<Rightarrow> [] | Some e \<Rightarrow> [e]) [0..<length vals])
      in case aggregate (key_errs @ op_errs @ val_errs) of
           Some e \<Rightarrow> Inl e
         | None \<Rightarrow> Inr \<lparr> rq_key = key, rq_operator = op, rq_strValues = vals \<rparr>)"

definition hasValue :: "requirement \<Rightarrow> string \<Rightarrow> bool" where
  "hasValue r v \<longleftrightarrow> v \<in> set (rq_strValues r)"

definition Requirement_Matches :: "requirement \<Rightarrow> gomap \<Rightarrow> bool" where
  "Requirement_Matches r ls =
     (let has = (go_lookup ls (rq_key r) \<noteq> None); value = go_index ls (rq_key r) in
      case rq_operator r of
        In \<Rightarrow> has \<and> hasValue r value
      | Equals \<Rightarrow> has \<and> hasValue r value
      | DoubleEquals \<Rightarrow> has \<and> hasValue r value
      | NotIn \<Rightarrow> has \<longrightarrow> \<not> hasValue r value
      | NotEquals \<Rightarrow> has \<longrightarrow> \<not> hasValue r value
      | Exists \<Rightarrow> has
      | DoesNotExist \<Rightarrow> \<not> has
      | GreaterThan \<Rightarrow> has \<and> (case (parse_int value, rq_strValues r) of
            (Some lsValue, [v]) \<Rightarrow> (case parse_int v of Some rValue \<Rightarrow> lsValue > rValue | None \<Rightarrow> False) | _ \<Rightarrow> False)
      | LessThan \<Rightarrow> has \<and> (case (parse_int value, rq_strValues r) of
            (Some lsValue, [v]) \<Rightarrow> (case parse_int v of Some rValue \<Rightarrow> lsValue < rValue | None \<Rightarrow> False) | _ \<Rightarrow> False))"

definition Requirement_String :: "requirement \<Rightarrow> string" where
  "Requirement_String r =
     (let vals = (case rq_strValues r of [v] \<Rightarrow> v | vs \<Rightarrow> join '','' (sort vs)) in
      case rq_operator r of
        DoesNotExist \<Rightarrow> ''!'' @ rq_key r
      | Exists \<Rightarrow> rq_key r
      | Equals \<Rightarrow> rq_key r @ ''='' @ vals
      | DoubleEquals \<Rightarrow> rq_key r @ ''=='' @ vals
      | NotEquals \<Rightarrow> rq_key r @ ''!='' @ vals
      | In \<Rightarrow> rq_key r @ '' in ('' @ vals @ '')''
      | NotIn \<Rightarrow> rq_key r @ '' notin ('' @ vals @ '')''
      | GreaterThan \<Rightarrow> rq_key r @ ''>'' @ vals
      | LessThan \<Rightarrow> rq_key r @ ''<'' @ vals)"

primrec Selector_Matches :: "selector \<Rightarrow> gomap \<Rightarrow> bool" where
  "Selector_Matches (InternalSelector rs) ls = list_all (\<lambda>r. Requirement_Matches r ls) rs"
| "Selector_Matches NothingSelector ls = False"

primrec Selector_Empty :: "selector \<Rightarrow> bool" where
  "Selector_Empty (InternalSelector rs) = (rs = [])"
| "Selector_Empty NothingSelector = False"

primrec Selector_Add :: "selector \<Rightarrow> requirement list \<Rightarrow> selector" where
  "Selector_Add (InternalSelector rs) reqs = InternalSelector (sort_key rq_key (rs @ reqs))"
| "Selector_Add NothingSelector reqs = NothingSelector"

primrec Selector_String :: "selector \<Rightarrow> string" where
  "Selector_String (InternalSelector rs) = join '','' (map Requirement_String rs)"
| "Selector_String NothingSelector = []"

subsection \<open>The lexer\<close>

datatype token =
    ErrorToken | EndOfStringToken | ClosedParToken | CommaToken | DoesNotExistToken | DoubleEqualsToken | EqualsToken
  | GreaterThanToken | IdentifierToken | InToken | LessThanToken | NotEqualsToken | NotInToken | OpenParToken

type_synonym item = "token \<times> string"

definition string2token :: "string \<Rightarrow> token option" where
  "string2token = map_of
     [('')'', ClosedParToken), ('','', CommaToken), (''!'', DoesNotExistToken), (''=='', DoubleEqualsToken), (''='', EqualsToken),
      (''>'', GreaterThanToken), (''in'', InToken), (''<'', LessThanToken), (''!='', NotEqualsToken), (''notin'', NotInToken),
      (''('', OpenParToken)]"

definition nul :: char where
  "nul = CHR 0x00"

definition isWhitespace :: "char \<Rightarrow> bool" where
  "isWhitespace c \<longleftrightarrow> c = CHR '' '' \<or> byte c = 9 \<or> byte c = 13 \<or> byte c = 10"

definition isSpecialSymbol :: "char \<Rightarrow> bool" where
  "isSpecialSymbol c \<longleftrightarrow> c \<in> set ''=!(),><''"

text \<open>The loops read a character; at the end of the text the character read is zero, as is a zero byte.\<close>

fun id_loop :: "string \<Rightarrow> string \<Rightarrow> string \<times> string" where
  "id_loop buffer [] = (buffer, [])"
| "id_loop buffer (ch # s) =
     (if ch = nul then (buffer, s)
      else if isSpecialSymbol ch \<or> isWhitespace ch then (buffer, ch # s)
      else id_loop (buffer @ [ch]) s)"

definition scanIDOrKeyword :: "string \<Rightarrow> item \<times> string" where
  "scanIDOrKeyword s =
     (case id_loop [] s of (lit, rest) \<Rightarrow>
        ((case string2token lit of Some val \<Rightarrow> (val, lit) | None \<Rightarrow> (IdentifierToken, lit)), rest))"

fun special_loop :: "item option \<Rightarrow> string \<Rightarrow> string \<Rightarrow> item option \<times> string \<times> string" where
  "special_loop lastScanned buffer [] = (lastScanned, buffer, [])"
| "special_loop lastScanned buffer (ch # s) =
     (if ch = nul then (lastScanned, buffer, s)
      else if isSpecialSymbol ch then
        (case string2token (buffer @ [ch]) of
           Some tok \<Rightarrow> special_loop (Some (tok, buffer @ [ch])) (buffer @ [ch]) s
         | None \<Rightarrow> if lastScanned \<noteq> None then (lastScanned, buffer @ [ch], ch # s) else special_loop lastScanned (buffer @ [ch]) s)
      else (lastScanned, buffer, ch # s))"

definition scanSpecialSymbol :: "string \<Rightarrow> item \<times> string" where
  "scanSpecialSymbol s =
     (case special_loop None [] s of
        (None, buffer, rest) \<Rightarrow> ((ErrorToken, ''error expected: keyword found '' @ apos buffer), rest)
      | (Some it, buffer, rest) \<Rightarrow> (it, rest))"

definition Lex :: "string \<Rightarrow> item \<times> string" where
  "Lex s =
     (case dropWhile isWhitespace s of
        [] \<Rightarrow> ((EndOfStringToken, []), [])
      | ch # rest \<Rightarrow>
          if ch = nul then ((EndOfStringToken, []), rest)
          else if isSpecialSymbol ch then scanSpecialSymbol (ch # rest)
          else scanIDOrKeyword (ch # rest))"

lemma id_loop_length: "id_loop b s = (lit, rest) \<Longrightarrow> length rest \<le> length s"
  by (induction b s rule: id_loop.induct) (auto split: if_splits)

lemma special_loop_length: "special_loop l b s = (l', b', rest) \<Longrightarrow> length rest \<le> length s"
  by (induction l b s rule: special_loop.induct) (fastforce split: if_splits option.splits)+

lemma special_loop_Some: "special_loop l b s = (l', b', rest) \<Longrightarrow> l \<noteq> None \<Longrightarrow> l' \<noteq> None"
  by (induction l b s rule: special_loop.induct) (auto split: if_splits option.splits)

lemma special_token:
  assumes "isSpecialSymbol ch"
  shows "\<exists>tok. string2token [ch] = Some tok \<and> tok \<noteq> ErrorToken \<and> tok \<noteq> EndOfStringToken" "ch \<noteq> nul"
  using assms by (auto simp: isSpecialSymbol_def string2token_def nul_def)

lemma scanSpecialSymbol_first:
  assumes "isSpecialSymbol ch"
  obtains tok it b rest where "string2token [ch] = Some tok" "special_loop (Some (tok, [ch])) [ch] s = (Some it, b, rest)"
    "scanSpecialSymbol (ch # s) = (it, rest)"
proof -
  obtain tok where tok: "string2token [ch] = Some tok" using special_token(1) [OF assms] by blast
  obtain l b rest where l: "special_loop (Some (tok, [ch])) [ch] s = (l, b, rest)" by (metis prod_cases3)
  then obtain it where "l = Some it" using special_loop_Some [OF l] by auto
  with l tok assms special_token(2) [OF assms] that show thesis by (simp add: scanSpecialSymbol_def)
qed

lemma Lex_length:
  assumes "Lex s = ((tok, lit), rest)" "tok \<noteq> EndOfStringToken"
  shows "length rest < length s"
proof (cases "dropWhile isWhitespace s")
  case Nil
  with assms show ?thesis by (simp add: Lex_def)
next
  case (Cons ch s')
  have le: "length (ch # s') \<le> length s" using length_dropWhile_le [of isWhitespace s] by (simp add: Cons)
  have nz: "ch \<noteq> nul" using assms Cons by (auto simp: Lex_def)
  show ?thesis
  proof (cases "isSpecialSymbol ch")
    case True
    then obtain t it b r where "special_loop (Some (t, [ch])) [ch] s' = (Some it, b, r)" "scanSpecialSymbol (ch # s') = (it, r)"
      by (rule scanSpecialSymbol_first)
    with assms(1) nz Cons True have "length rest \<le> length s'" by (auto simp: Lex_def dest: special_loop_length)
    with le show ?thesis by simp
  next
    case False
    have "\<not> isWhitespace ch" using Cons by (metis hd_dropWhile list.distinct(1) list.sel(1))
    with False nz assms(1) Cons have "length rest \<le> length s'"
      by (auto simp: Lex_def scanIDOrKeyword_def dest: id_loop_length split: prod.splits)
    with le show ?thesis by simp
  qed
qed

text \<open>\<^verbatim>\<open>Parser.scan\<close>: every item up to the end of the text.\<close>

function scan :: "string \<Rightarrow> item list" where
  "scan s = (case Lex s of ((tok, lit), rest) \<Rightarrow> (tok, lit) # (if tok = EndOfStringToken then [] else scan rest))"
  by pat_completeness auto
termination
  by (relation "measure length") (auto intro: Lex_length [OF sym])

declare scan.simps [simp del]

subsection \<open>The parser\<close>

text \<open>In the context \<^verbatim>\<open>Values\<close> the keywords are identifiers.\<close>

definition as_value :: "token \<Rightarrow> token" where
  "as_value t = (if t = InToken \<or> t = NotInToken then IdentifierToken else t)"

type_synonym 'a parsed = "('a \<times> item list) res option"

definition lookahead :: "item list \<Rightarrow> item option" where
  "lookahead ts = (case ts of [] \<Rightarrow> None | (t, lit) # _ \<Rightarrow> Some (as_value t, lit))"

definition consume :: "item list \<Rightarrow> (item \<times> item list) option" where
  "consume ts = (case ts of [] \<Rightarrow> None | (t, lit) # rest \<Rightarrow> Some ((as_value t, lit), rest))"

definition parse_failed :: "string \<Rightarrow> string \<Rightarrow> 'a parsed" where
  "parse_failed lit expected = Some (Inl (ErrorString (''found '' @ apos lit @ expected)))"

definition parseKeyAndInferOperator :: "(nat \<Rightarrow> bool) \<Rightarrow> item list \<Rightarrow> (string \<times> operator option) parsed" where
  "parseKeyAndInferOperator ip ts =
     Option.bind (consume ts) (\<lambda>((tok, lit), ts1).
     Option.bind (if tok = DoesNotExistToken then map_option (\<lambda>(it, r). (Some DoesNotExist, it, r)) (consume ts1)
                  else Some (None, (tok, lit), ts1)) (\<lambda>(operator, (tok, lit), ts2).
       if tok \<noteq> IdentifierToken then parse_failed lit '', expected: identifier''
       else case validateLabelKey ip lit ''<nil>'' of
         Some e \<Rightarrow> Some (Inl (ErrorString e))
       | None \<Rightarrow>
           Option.bind (lookahead ts2) (\<lambda>(t, _).
             let operator = (if (t = EndOfStringToken \<or> t = CommaToken) \<and> operator = None then Some Exists else operator)
             in Some (Inr ((lit, operator), ts2)))))"

definition binaryOperators :: "string list" where
  "binaryOperators = [''in'', ''notin'', ''='', ''=='', ''!='', ''gt'', ''lt'']"

definition token_operator :: "token \<Rightarrow> operator option" where
  "token_operator t =
     (case t of InToken \<Rightarrow> Some In | EqualsToken \<Rightarrow> Some Equals | DoubleEqualsToken \<Rightarrow> Some DoubleEquals
      | GreaterThanToken \<Rightarrow> Some GreaterThan | LessThanToken \<Rightarrow> Some LessThan | NotInToken \<Rightarrow> Some NotIn
      | NotEqualsToken \<Rightarrow> Some NotEquals | _ \<Rightarrow> None)"

definition parseOperator :: "item list \<Rightarrow> operator parsed" where
  "parseOperator ts =
     (case ts of
        [] \<Rightarrow> None
      | (tok, lit) # rest \<Rightarrow>
          (case token_operator tok of
             Some op \<Rightarrow> Some (Inr (op, rest))
           | None \<Rightarrow> parse_failed lit ('', expected: '' @ join '', '' binaryOperators)))"

text \<open>A \<^verbatim>\<open>sets.String\<close> is a list without duplicates.\<close>

fun parseIdentifiersList :: "string list \<Rightarrow> item list \<Rightarrow> string list parsed" where
  "parseIdentifiersList s [] = None"
| "parseIdentifiersList s ((tok, lit) # ts1) =
     (if as_value tok = IdentifierToken then
        (let s = List.insert lit s in
         case lookahead ts1 of
           None \<Rightarrow> None
         | Some (tok2, lit2) \<Rightarrow>
             if tok2 = CommaToken then parseIdentifiersList s ts1
             else if tok2 = ClosedParToken then Some (Inr (s, ts1))
             else parse_failed lit2 ('', expected: '' @ apos '','' @ '' or '' @ apos '')''))
      else if tok = CommaToken then
        (let s = (if s = [] then [[]] else s) in
         case ts1 of
           [] \<Rightarrow> None
         | (tok2, _) # ts2 \<Rightarrow>
             if tok2 = ClosedParToken then Some (Inr (List.insert [] s, ts1))
             else if tok2 = CommaToken then parseIdentifiersList (List.insert [] s) ts2
             else parseIdentifiersList s ts1)
      else parse_failed lit ('', expected: '' @ apos '','' @ '', or identifier''))"

text \<open>Sequencing: an error or a panic ends the parser.\<close>

definition pbind :: "'a parsed \<Rightarrow> ('a \<Rightarrow> item list \<Rightarrow> 'b parsed) \<Rightarrow> 'b parsed" where
  "pbind m f = (case m of None \<Rightarrow> None | Some (Inl e) \<Rightarrow> Some (Inl e) | Some (Inr (x, ts)) \<Rightarrow> f x ts)"

definition parseValues :: "item list \<Rightarrow> string list parsed" where
  "parseValues ts =
     Option.bind (consume ts) (\<lambda>((tok, lit), ts1).
       if tok \<noteq> OpenParToken then Some (Inl (ErrorString (''found '' @ apos lit @ '' expected: '' @ apos ''('')))
       else Option.bind (lookahead ts1) (\<lambda>(tok, lit).
         if tok = IdentifierToken \<or> tok = CommaToken then
           pbind (parseIdentifiersList [] ts1) (\<lambda>s ts2.
             Option.bind (consume ts2) (\<lambda>((tok, _), ts3).
               if tok \<noteq> ClosedParToken then parse_failed lit ('', expected: '' @ apos '')'') else Some (Inr (s, ts3))))
         else if tok = ClosedParToken then map_option (\<lambda>(_, ts2). Inr ([[]], ts2)) (consume ts1)
         else parse_failed lit ('', expected: '' @ apos '','' @ '', '' @ apos '')'' @ '' or identifier'')))"

definition parseExactValue :: "item list \<Rightarrow> string list parsed" where
  "parseExactValue ts =
     Option.bind (lookahead ts) (\<lambda>(tok, _).
       if tok = EndOfStringToken \<or> tok = CommaToken then Some (Inr ([[]], ts))
       else Option.bind (consume ts) (\<lambda>((tok, lit), ts1).
         if tok = IdentifierToken then Some (Inr ([lit], ts1)) else parse_failed lit '', expected: identifier''))"

definition with_rest :: "'a res \<Rightarrow> item list \<Rightarrow> 'a parsed" where
  "with_rest r ts = Some (map_sum id (\<lambda>x. (x, ts)) r)"

definition parseRequirement :: "(nat \<Rightarrow> bool) \<Rightarrow> item list \<Rightarrow> requirement parsed" where
  "parseRequirement ip ts =
     pbind (parseKeyAndInferOperator ip ts) (\<lambda>(key, operator) ts1.
       case operator of
         Some op \<Rightarrow> with_rest (NewRequirement ip key op []) ts1
       | None \<Rightarrow>
           pbind (parseOperator ts1) (\<lambda>op ts2.
           pbind (if op = In \<or> op = NotIn then parseValues ts2 else parseExactValue ts2) (\<lambda>values ts3.
             with_rest (NewRequirement ip key op (sort values)) ts3)))"

lemma pbind_Inr: "pbind m f = Some (Inr y) \<longleftrightarrow> (\<exists>x ts. m = Some (Inr (x, ts)) \<and> f x ts = Some (Inr y))"
  by (auto simp: pbind_def split: option.splits sum.splits)

lemma pbind_None: "pbind m f = None \<longleftrightarrow> m = None \<or> (\<exists>x ts. m = Some (Inr (x, ts)) \<and> f x ts = None)"
  by (auto simp: pbind_def split: option.splits sum.splits)

lemma with_rest_Inr: "with_rest r ts = Some (Inr (x, rest)) \<longleftrightarrow> r = Inr x \<and> rest = ts"
  by (cases r) (auto simp: with_rest_def)

lemma parse_failed_simps [simp]: "parse_failed lit e \<noteq> Some (Inr x)" "parse_failed lit e \<noteq> None"
  by (simp_all add: parse_failed_def)

text \<open>Every part of the parser gives back fewer items than it got.\<close>

lemma parseIdentifiersList_length: "parseIdentifiersList s ts = Some (Inr (vs, rest)) \<Longrightarrow> length rest < length ts"
  by (induction s ts rule: parseIdentifiersList.induct) (force simp: Let_def split: if_splits option.splits list.splits)+

lemma consume_length: "consume ts = Some (it, rest) \<Longrightarrow> length ts = Suc (length rest)"
  by (auto simp: consume_def split: list.splits)

lemma parseValues_length: "parseValues ts = Some (Inr (vs, rest)) \<Longrightarrow> length rest < length ts"
  by (auto simp: parseValues_def bind_eq_Some_conv pbind_Inr dest!: consume_length parseIdentifiersList_length
      split: if_splits prod.splits)

lemma parseExactValue_length: "parseExactValue ts = Some (Inr (vs, rest)) \<Longrightarrow> length rest \<le> length ts"
  by (auto simp: parseExactValue_def bind_eq_Some_conv dest!: consume_length split: if_splits prod.splits)

lemma parseOperator_length: "parseOperator ts = Some (Inr (op, rest)) \<Longrightarrow> length rest < length ts"
  by (auto simp: parseOperator_def split: list.splits option.splits)

lemma parseKey_length: "parseKeyAndInferOperator ip ts = Some (Inr (k, rest)) \<Longrightarrow> length rest < length ts"
  by (auto simp: parseKeyAndInferOperator_def bind_eq_Some_conv Let_def dest!: consume_length
      split: if_splits prod.splits option.splits)

lemma parseRequirement_length:
  assumes "parseRequirement ip ts = Some (Inr (r, rest))"
  shows "length rest < length ts"
proof -
  obtain key operator ts1 where k: "parseKeyAndInferOperator ip ts = Some (Inr ((key, operator), ts1))"
    using assms by (auto simp: parseRequirement_def pbind_Inr)
  note l1 = parseKey_length [OF k]
  show ?thesis
  proof (cases operator)
    case (Some op)
    with assms k l1 show ?thesis by (simp add: parseRequirement_def pbind_def with_rest_Inr)
  next
    case None
    with assms k obtain op ts2 vs where "parseOperator ts1 = Some (Inr (op, ts2))"
      "(if op = In \<or> op = NotIn then parseValues ts2 else parseExactValue ts2) = Some (Inr (vs, rest))"
      by (auto simp: parseRequirement_def pbind_Inr with_rest_Inr)
    with l1 parseOperator_length [of ts1 op ts2] parseValues_length [of ts2 vs rest] parseExactValue_length [of ts2 vs rest]
    show ?thesis by (auto split: if_splits)
  qed
qed

function parse_loop :: "(nat \<Rightarrow> bool) \<Rightarrow> requirement list \<Rightarrow> item list \<Rightarrow> requirement list res option" where
  "parse_loop ip requirements ts =
     (case lookahead ts of
        None \<Rightarrow> None
      | Some (tok, lit) \<Rightarrow>
          if tok = IdentifierToken \<or> tok = DoesNotExistToken then
            (case parseRequirement ip ts of
               None \<Rightarrow> None
             | Some (Inl e) \<Rightarrow> Some (Inl (ErrorString (''unable to parse requirement: '' @ err_message ip e)))
             | Some (Inr (r, ts1)) \<Rightarrow>
                 (case ts1 of
                    [] \<Rightarrow> None
                  | (t, l) # ts2 \<Rightarrow>
                      if t = EndOfStringToken then Some (Inr (requirements @ [r]))
                      else if t = CommaToken then
                        (case lookahead ts2 of
                           None \<Rightarrow> None
                         | Some (t2, l2) \<Rightarrow>
                             if t2 \<noteq> IdentifierToken \<and> t2 \<noteq> DoesNotExistToken
                             then Some (Inl (ErrorString (''found '' @ apos l2 @ '', expected: identifier after '' @ apos '','')))
                             else parse_loop ip (requirements @ [r]) ts2)
                      else Some (Inl (ErrorString (''found '' @ apos l @ '', expected: '' @ apos '','' @ '' or '' @ apos ''end of string'')))))
          else if tok = EndOfStringToken then Some (Inr requirements)
          else Some (Inl (ErrorString (''found '' @ apos lit @ '', expected: !, identifier, or '' @ apos ''end of string''))))"
  by pat_completeness auto
termination
  by (relation "measure (\<lambda>(ip, rs, ts). length ts)") (auto dest!: parseRequirement_length)

declare parse_loop.simps [simp del]

definition ParseToRequirements :: "(nat \<Rightarrow> bool) \<Rightarrow> string \<Rightarrow> requirement list res option" where
  "ParseToRequirements ip s = map_option (map_sum id (sort_key rq_key)) (parse_loop ip [] (scan s))"

definition Parse :: "(nat \<Rightarrow> bool) \<Rightarrow> string \<Rightarrow> selector res option" where
  "Parse ip s = map_option (map_sum id InternalSelector) (ParseToRequirements ip s)"

subsection \<open>The syntax of field selectors\<close>

text \<open>\<^verbatim>\<open>splitTerms\<close>: the terms between the commas that no backslash escapes. The first argument is the
  term that is being read, the second is \<^verbatim>\<open>inSlash\<close>.\<close>

fun splitTerms_loop :: "string \<Rightarrow> bool \<Rightarrow> string \<Rightarrow> string list" where
  "splitTerms_loop term inSlash [] = [term]"
| "splitTerms_loop term inSlash (c # cs) =
     (if inSlash then splitTerms_loop (term @ [c]) False cs
      else if byte c = 92 then splitTerms_loop (term @ [c]) True cs
      else if c = CHR '','' then term # splitTerms_loop [] False cs
      else splitTerms_loop (term @ [c]) False cs)"

definition splitTerms :: "string \<Rightarrow> string list" where
  "splitTerms fieldSelector = (if fieldSelector = [] then [] else splitTerms_loop [] False fieldSelector)"

text \<open>\<^verbatim>\<open>splitTerm\<close>: the value behind the first operator.\<close>

fun splitTerm_rhs :: "string \<Rightarrow> string option" where
  "splitTerm_rhs [] = None"
| "splitTerm_rhs (c # cs) =
     (if c = CHR ''!'' \<and> cs \<noteq> [] \<and> hd cs = CHR ''='' then Some (tl cs)
      else if c = CHR ''='' \<and> cs \<noteq> [] \<and> hd cs = CHR ''='' then Some (tl cs)
      else if c = CHR ''='' then Some cs
      else splitTerm_rhs cs)"

text \<open>Whether \<^verbatim>\<open>UnescapeValue\<close> gives no error.\<close>

fun unescapes :: "bool \<Rightarrow> string \<Rightarrow> bool" where
  "unescapes inSlash [] = (\<not> inSlash)"
| "unescapes inSlash (c # cs) =
     (if inSlash then (byte c = 92 \<or> c = CHR '','' \<or> c = CHR ''='') \<and> unescapes False cs
      else if byte c = 92 then unescapes True cs
      else c \<noteq> CHR '','' \<and> c \<noteq> CHR ''='' \<and> unescapes False cs)"

definition fields_ParseSelector_ok :: "string \<Rightarrow> bool" where
  "fields_ParseSelector_ok s \<longleftrightarrow>
     list_all (\<lambda>part. part = [] \<or> (case splitTerm_rhs part of None \<Rightarrow> False | Some rhs \<Rightarrow> unescapes False rhs)) (splitTerms s)"

subsection \<open>The parser reads within its items\<close>

text \<open>The items end with the end of the text, which is nowhere else.\<close>

fun ends :: "item list \<Rightarrow> bool" where
  "ends [] = False"
| "ends ((t, _) # ts) = (if t = EndOfStringToken then ts = [] else ends ts)"

lemma scan_ends: "ends (scan s)"
proof (induction s rule: scan.induct)
  case (1 s)
  obtain tok lit rest where "Lex s = ((tok, lit), rest)" by (metis surj_pair)
  with 1 show ?case by (simp add: scan.simps [of s])
qed

lemma as_value_eq [simp]:
  "t \<noteq> IdentifierToken \<Longrightarrow> as_value x = t \<longleftrightarrow> x = t \<and> t \<noteq> InToken \<and> t \<noteq> NotInToken"
  "as_value x = IdentifierToken \<longleftrightarrow> x \<in> {IdentifierToken, InToken, NotInToken}"
  by (auto simp: as_value_def)

lemma ends_Cons: "ends ts \<Longrightarrow> \<exists>t lit rest. ts = (t, lit) # rest \<and> (if t = EndOfStringToken then rest = [] else ends rest)"
  by (cases ts rule: ends.cases) (auto split: if_splits)

definition ok_result :: "'a parsed \<Rightarrow> bool" where
  "ok_result r \<longleftrightarrow> (case r of None \<Rightarrow> False | Some (Inl e) \<Rightarrow> True | Some (Inr (x, rest)) \<Rightarrow> ends rest)"

lemma ok_result_simps [simp]:
  "\<not> ok_result None" "ok_result (Some (Inl e))" "ok_result (Some (Inr (x, rest))) = ends rest" "ok_result (parse_failed lit msg)"
  "ok_result (with_rest r ts) \<longleftrightarrow> ends ts \<or> (\<exists>e. r = Inl e)"
  by (simp_all add: ok_result_def parse_failed_def with_rest_def) (cases r; simp)

lemma ok_pbind: "ok_result m \<Longrightarrow> (\<And>x rest. ends rest \<Longrightarrow> ok_result (f x rest)) \<Longrightarrow> ok_result (pbind m f)"
  by (cases m rule: option.exhaust; cases "the m"; auto simp: pbind_def)

lemma read_Cons [simp]: "consume ((t, lit) # rest) = Some ((as_value t, lit), rest)" "lookahead ((t, lit) # rest) = Some (as_value t, lit)"
  by (simp_all add: consume_def lookahead_def)

lemma ok_parseIdentifiersList: "ends ts \<Longrightarrow> ok_result (parseIdentifiersList s ts)"
proof (induction s ts rule: parseIdentifiersList.induct)
  case (2 s tok lit ts1)
  show ?case
  proof (cases "tok = EndOfStringToken")
    case False
    with 2 have e: "ends ts1" by simp
    then obtain t2 l2 ts2 where ts1: "ts1 = (t2, l2) # ts2" "if t2 = EndOfStringToken then ts2 = [] else ends ts2" using ends_Cons by blast
    show ?thesis
    proof (cases "as_value tok = IdentifierToken")
      case True
      with 2(1) e show ?thesis by (auto simp: Let_def lookahead_def ts1(1))
    next
      case ident: False
      show ?thesis
      proof (cases "tok = CommaToken")
        case True
        with 2(2,3) e ts1 ident show ?thesis by (auto simp: Let_def)
      qed (use ident in simp)
    qed
  qed (simp add: as_value_def)
qed simp

lemma ok_parseValues:
  assumes "ends ts"
  shows "ok_result (parseValues ts)"
proof -
  obtain t lit ts1 where ts: "ts = (t, lit) # ts1" "if t = EndOfStringToken then ts1 = [] else ends ts1" using ends_Cons [OF assms] by blast
  show ?thesis
  proof (cases "t = OpenParToken")
    case True
    with ts have e: "ends ts1" by simp
    then obtain t2 l2 ts2 where ts1: "ts1 = (t2, l2) # ts2" "if t2 = EndOfStringToken then ts2 = [] else ends ts2" using ends_Cons by blast
    have close: "ok_result (Option.bind (consume rest) (\<lambda>((tok, _), ts3).
        if tok \<noteq> ClosedParToken then parse_failed l2 x else Some (Inr (v, ts3))))" if "ends rest" for rest v x
      using ends_Cons [OF that] by auto
    have vals: "ok_result (pbind (parseIdentifiersList [] ts1) (\<lambda>s ts2. Option.bind (consume ts2) (\<lambda>((tok, _), ts3).
        if tok \<noteq> ClosedParToken then parse_failed l2 ('', expected: '' @ apos '')'') else Some (Inr (s, ts3)))))"
      by (rule ok_pbind [OF ok_parseIdentifiersList [OF e]]) (rule close)
    show ?thesis
    proof (cases "t2 = ClosedParToken")
      case True
      with ts1 \<open>t = OpenParToken\<close> show ?thesis by (simp add: parseValues_def ts(1) as_value_def)
    next
      case False
      with vals \<open>t = OpenParToken\<close> show ?thesis
        by (simp add: parseValues_def ts(1) ts1(1) as_value_def del: parseIdentifiersList.simps)
    qed
  qed (simp add: parseValues_def ts(1))
qed

lemma ok_parseExactValue: "ends ts \<Longrightarrow> ok_result (parseExactValue ts)"
  by (drule ends_Cons) (auto simp: parseExactValue_def lookahead_def consume_def as_value_def)

lemma ok_parseOperator: "ends ts \<Longrightarrow> ok_result (parseOperator ts)"
  by (drule ends_Cons) (auto simp: parseOperator_def token_operator_def split: token.split)

lemma ok_parseKey: "ends ts \<Longrightarrow> ok_result (parseKeyAndInferOperator ip ts)"
proof -
  assume "ends ts"
  then obtain t lit ts1 where ts: "ts = (t, lit) # ts1" "if t = EndOfStringToken then ts1 = [] else ends ts1" using ends_Cons by blast
  have key: "ok_result (if tok \<noteq> IdentifierToken then parse_failed l '', expected: identifier''
       else case validateLabelKey ip l ''<nil>'' of
         Some e \<Rightarrow> Some (Inl (ErrorString e))
       | None \<Rightarrow> Option.bind (lookahead rest) (\<lambda>(t, _).
             let operator = (if (t = EndOfStringToken \<or> t = CommaToken) \<and> operator = None then Some Exists else operator)
             in Some (Inr ((l, operator), rest))))" if "tok = IdentifierToken \<longrightarrow> ends rest" for tok l rest operator
    using that ends_Cons [of rest] by (auto simp: lookahead_def Let_def split: option.split)
  show ?thesis
  proof (cases "t = DoesNotExistToken")
    case True
    with ts have "ends ts1" by simp
    then obtain t2 l2 ts2 where "ts1 = (t2, l2) # ts2" "if t2 = EndOfStringToken then ts2 = [] else ends ts2" using ends_Cons by blast
    with True key [of "as_value t2" ts2 l2] show ?thesis
      by (auto simp: parseKeyAndInferOperator_def ts(1) consume_def as_value_def)
  next
    case False
    with ts key [of "as_value t" ts1 lit] show ?thesis
      by (auto simp: parseKeyAndInferOperator_def consume_def as_value_def)
  qed
qed

lemma ok_parseRequirement:
  assumes "ends ts"
  shows "ok_result (parseRequirement ip ts)"
proof -
  have rest: "ok_result (case operator of
         Some op \<Rightarrow> with_rest (NewRequirement ip key op []) ts1
       | None \<Rightarrow>
           pbind (parseOperator ts1) (\<lambda>op ts2.
           pbind (if op = In \<or> op = NotIn then parseValues ts2 else parseExactValue ts2) (\<lambda>values ts3.
             with_rest (NewRequirement ip key op (sort values)) ts3)))" if "ends ts1" for key operator ts1
  proof (cases operator)
    case None
    have "ok_result (if op = In \<or> op = NotIn then parseValues ts2 else parseExactValue ts2)" if "ends ts2" for op ts2
      using that by (simp add: ok_parseValues ok_parseExactValue)
    with that None show ?thesis
      by simp (rule ok_pbind [OF ok_parseOperator], assumption, rule ok_pbind, assumption, simp)
  qed (use that in simp)
  show ?thesis unfolding parseRequirement_def
    by (rule ok_pbind [OF ok_parseKey [OF assms]]) (use rest in \<open>simp split: prod.split\<close>)
qed

lemma parse_loop_returns: "ends ts \<Longrightarrow> parse_loop ip rs ts \<noteq> None"
proof (induction ip rs ts rule: parse_loop.induct)
  case (1 ip rs ts)
  obtain t lit rest where ts: "ts = (t, lit) # rest" using ends_Cons [OF 1(2)] by blast
  have ok: "ok_result (parseRequirement ip ts)" by (rule ok_parseRequirement [OF 1(2)])
  have end2: "lookahead ts2 \<noteq> None" if "ends ts2" for ts2 using ends_Cons [OF that] by (auto simp: lookahead_def)
  show ?case
  proof (cases "parseRequirement ip ts")
    case None
    with ok show ?thesis by simp
  next
    case (Some p)
    show ?thesis
    proof (cases p)
      case (Inl e)
      with Some show ?thesis by (subst parse_loop.simps) (auto simp: ts lookahead_def)
    next
      case (Inr q)
      obtain r ts1 where q: "q = (r, ts1)" by fastforce
      with ok Some Inr have "ends ts1" by simp
      then obtain t1 l1 ts2 where ts1: "ts1 = (t1, l1) # ts2" "if t1 = EndOfStringToken then ts2 = [] else ends ts2" using ends_Cons by blast
      with 1(1) Some Inr q end2 [of ts2] show ?thesis
        by (subst parse_loop.simps) (auto simp: ts lookahead_def [of "(t, lit) # rest"] split: option.split)
    qed
  qed
qed

subsection \<open>Valid requirements\<close>

definition arity_ok :: "operator \<Rightarrow> string list \<Rightarrow> bool" where
  "arity_ok op vals \<longleftrightarrow>
     (if op \<in> {In, NotIn} then vals \<noteq> []
      else if op \<in> {Equals, DoubleEquals, NotEquals} then length vals = 1
      else if op \<in> {Exists, DoesNotExist} then vals = []
      else length vals = 1 \<and> parse_int (hd vals) \<noteq> None)"

definition req_ok :: "string \<Rightarrow> operator \<Rightarrow> string list \<Rightarrow> bool" where
  "req_ok key op vals \<longleftrightarrow> IsQualifiedName key = [] \<and> arity_ok op vals \<and> list_all (\<lambda>v. IsValidLabelValue v = []) vals"

text \<open>What \<open>NewRequirement\<close> accepts, with a set of values.\<close>

definition valid_requirement :: "requirement \<Rightarrow> bool" where
  "valid_requirement r \<longleftrightarrow> req_ok (rq_key r) (rq_operator r) (rq_strValues r) \<and> distinct (rq_strValues r)"

lemma aggregate_None: "aggregate errs = None \<longleftrightarrow> errs = []"
  by (auto simp: aggregate_def split: list.splits)

lemma concat_upt_Nil: "concat (map f [0..<n]) = [] \<longleftrightarrow> (\<forall>i < n. f i = [])"
  by auto

lemma NewRequirement_iff:
  "NewRequirement ip key op vals = Inr r \<longleftrightarrow>
     req_ok key op vals \<and> r = \<lparr> rq_key = key, rq_operator = op, rq_strValues = vals \<rparr>"
proof -
  have val: "(\<forall>i < length vals. validateLabelValue ip key (vals ! i) (p i) = None) \<longleftrightarrow> list_all (\<lambda>v. IsValidLabelValue v = []) vals" for p
    by (auto simp: validateLabelValue_def Let_def list_all_length)
  have key: "validateLabelKey ip key p = None \<longleftrightarrow> IsQualifiedName key = []" for p
    by (simp add: validateLabelKey_def Let_def)
  have one: "length vals = 1 \<Longrightarrow> (\<forall>i < length vals. P (vals ! i)) \<longleftrightarrow> P (hd vals)" for P
    by (cases vals) auto
  have agg: "(case aggregate X of Some e \<Rightarrow> Inl e | None \<Rightarrow> Inr y) = Inr r \<longleftrightarrow> X = [] \<and> r = y" for X and y :: requirement
    by (cases "aggregate X") (auto simp: aggregate_None [symmetric])
  have opt: "(case v of None \<Rightarrow> [] | Some e \<Rightarrow> [e]) = [] \<longleftrightarrow> v = None" for v :: "string option"
    by (cases v) auto
  note split_errs = NewRequirement_def Let_def agg append_is_Nil_conv opt key
  have all: "NewRequirement ip key op vals = Inr r \<longleftrightarrow>
      IsQualifiedName key = [] \<and>
      (if op = In \<or> op = NotIn then vals \<noteq> []
       else if op = Equals \<or> op = DoubleEquals \<or> op = NotEquals then length vals = 1
       else if op = Exists \<or> op = DoesNotExist then vals = []
       else length vals = 1 \<and> (\<forall>i < length vals. parse_int (vals ! i) \<noteq> None)) \<and>
      list_all (\<lambda>v. IsValidLabelValue v = []) vals \<and> r = \<lparr> rq_key = key, rq_operator = op, rq_strValues = vals \<rparr>"
    by (simp only: split_errs concat_upt_Nil if_distrib [where f = "\<lambda>x. x = []"] val list.distinct refl simp_thms if_bool_eq_conj conj_assoc)
  have gt: "length vals = 1 \<and> (\<forall>i < length vals. parse_int (vals ! i) \<noteq> None) \<longleftrightarrow> length vals = 1 \<and> parse_int (hd vals) \<noteq> None"
    using one [of "\<lambda>v. parse_int v \<noteq> None"] by blast
  show ?thesis unfolding all gt req_ok_def arity_ok_def by simp
qed

definition plain_id :: "char \<Rightarrow> bool" where
  "plain_id c \<longleftrightarrow> c \<noteq> nul \<and> \<not> isSpecialSymbol c \<and> \<not> isWhitespace c"


lemma qname_plain: "qname_ext c \<Longrightarrow> plain_id c"
  by (auto simp: qname_ext_def is_alnum_def is_lower_def is_digit_def plain_id_def nul_def isSpecialSymbol_def isWhitespace_def)

lemma label_value_plain: "IsValidLabelValue v = [] \<Longrightarrow> list_all plain_id v"
  by (auto simp: IsValidLabelValue_def qualifiedNameRegexp_def list_all_iff qname_plain split: if_splits)

lemma split_chars: "c \<in> set s \<Longrightarrow> c = sep \<or> (\<exists>p \<in> set (split_on sep s). c \<in> set p)"
proof -
  have "set (join [sep] ps) \<subseteq> insert sep (\<Union> (set ` set ps))" for ps
    by (induction "[sep]" ps rule: join.induct) auto
  from this [of "split_on sep s"] show "c \<in> set s \<Longrightarrow> ?thesis" by (auto simp: join_split_on)
qed

lemma subdomain_plain:
  assumes "dns1123SubdomainRegexp s"
  shows "list_all plain_id s"
  unfolding list_all_iff
proof
  fix c assume "c \<in> set s"
  with assms split_chars [of c s "CHR ''.''"] have "is_lower c \<or> is_digit c \<or> c = CHR ''-'' \<or> c = CHR ''.''"
    by (auto simp: dns1123SubdomainRegexp_def dns1123Label_def Let_def list_all_iff)
  then have "qname_ext c" by (auto simp: qname_ext_def is_alnum_def)
  then show "plain_id c" by (rule qname_plain)
qed

lemma name_plain: "qualifiedNameRegexp s \<Longrightarrow> list_all plain_id s \<and> s \<noteq> []"
  by (auto simp: qualifiedNameRegexp_def list_all_iff qname_plain)

lemma key_plain:
  assumes "IsQualifiedName k = []"
  shows "list_all plain_id k" "k \<noteq> []"
proof -
  have sl: "plain_id (CHR ''/'')" by (simp add: plain_id_def nul_def isSpecialSymbol_def isWhitespace_def)
  consider n where "split_on (CHR ''/'') k = [n]" | p n where "split_on (CHR ''/'') k = [p, n]"
  proof (cases "split_on (CHR ''/'') k" rule: remdups_adj.cases)
    case (3 p n ns)
    with assms that(2) show ?thesis by (cases ns) (simp_all add: IsQualifiedName_def Let_def)
  qed (use that(1) in simp_all)
  then have "list_all plain_id k \<and> k \<noteq> []"
  proof cases
    case (1 n)
    then have "k = n" using join_split_on [of "CHR ''/''" k] by simp
    with 1 assms name_plain [of n] show ?thesis by (simp add: IsQualifiedName_def Let_def split: if_splits)
  next
    case (2 p n)
    then have k: "k = p @ CHR ''/'' # n" using join_split_on [of "CHR ''/''" k] by simp
    from 2 assms have "qualifiedNameRegexp n" "dns1123SubdomainRegexp p"
      by (auto simp: IsQualifiedName_def Let_def IsDNS1123Subdomain_def split: if_splits)
    with k sl name_plain [of n] subdomain_plain [of p] show ?thesis by simp
  qed
  then show "list_all plain_id k" "k \<noteq> []" by blast+
qed

subsection \<open>Items of a printed requirement\<close>

definition word_items :: "string \<Rightarrow> item list" where
  "word_items w = (if w = [] then [] else [(case string2token w of Some t \<Rightarrow> t | None \<Rightarrow> IdentifierToken, w)])"

text \<open>What may follow a word: the end of the text, a separator or an operator.\<close>

definition stops :: "string \<Rightarrow> bool" where
  "stops rest \<longleftrightarrow> rest = [] \<or> isSpecialSymbol (hd rest) \<or> isWhitespace (hd rest)"

lemma plain_not_white: "plain_id c \<Longrightarrow> \<not> isWhitespace c" "plain_id c \<Longrightarrow> \<not> isSpecialSymbol c" "plain_id c \<Longrightarrow> c \<noteq> nul"
  by (simp_all add: plain_id_def)

lemma special_not: "isSpecialSymbol c \<Longrightarrow> \<not> isWhitespace c" "isSpecialSymbol c \<Longrightarrow> c \<noteq> nul" "isWhitespace c \<Longrightarrow> c \<noteq> nul"
  by (auto simp: isSpecialSymbol_def isWhitespace_def nul_def)

lemma id_loop_word: "list_all plain_id w \<Longrightarrow> stops rest \<Longrightarrow> id_loop b (w @ rest) = (b @ w, rest)"
proof (induction w arbitrary: b)
  case Nil
  then show ?case by (cases rest) (auto simp: stops_def dest: special_not)
next
  case (Cons c w)
  then show ?case by (simp add: plain_not_white)
qed

lemma plain_word_token: "list_all plain_id w \<Longrightarrow> string2token w \<in> {None, Some InToken, Some NotInToken}"
proof -
  assume w: "list_all plain_id w"
  have "t \<in> {InToken, NotInToken} \<or> isSpecialSymbol (hd w) \<and> w \<noteq> []" if "string2token w = Some t" for t
    using map_of_SomeD [OF that [unfolded string2token_def]] by (auto simp: isSpecialSymbol_def)
  with w show ?thesis by (cases w) (auto simp: plain_not_white)
qed

lemma scan_word:
  assumes "list_all plain_id w" "stops rest"
  shows "scan (w @ rest) = word_items w @ scan rest"
proof (cases w)
  case (Cons c w')
  have d: "dropWhile isWhitespace (w @ rest) = c # w' @ rest" using assms(1) by (simp add: Cons plain_not_white)
  have "Lex (w @ rest) = (hd (word_items w), rest)"
    using assms id_loop_word [OF assms, of "[]"]
    by (auto simp: Lex_def d scanIDOrKeyword_def word_items_def plain_not_white Cons split: option.split)
  then show ?thesis using plain_word_token [OF assms(1)]
    by (subst scan.simps) (auto simp: word_items_def Cons)
qed (simp add: word_items_def)

lemma scan_Nil: "scan [] = [(EndOfStringToken, [])]"
  by (simp add: scan.simps Lex_def)

lemma scan_space: "isWhitespace c \<Longrightarrow> scan (c # rest) = scan rest"
  by (subst (1 2) scan.simps) (simp add: Lex_def)

text \<open>An operator ends before a word, a space or the end of the text; only \<^verbatim>\<open>=\<close> lengthens another one.\<close>

lemma two_symbols: "string2token [c, d] = Some t \<Longrightarrow> d \<noteq> CHR ''='' \<Longrightarrow> c = CHR ''i'' \<and> d = CHR ''n''"
  by (auto simp: string2token_def split: if_splits)

lemma scan_special:
  assumes "string2token [c] = Some t" "rest = [] \<or> hd rest \<noteq> nul \<and> hd rest \<noteq> CHR ''=''"
  shows "scan (c # rest) = (t, [c]) # scan rest"
proof -
  have c: "isSpecialSymbol c" "t \<noteq> EndOfStringToken" "c \<noteq> CHR ''i''" using map_of_SomeD [OF assms(1) [unfolded string2token_def]]
    by (auto simp: isSpecialSymbol_def)
  have "\<exists>b. special_loop (Some (t, [c])) [c] rest = (Some (t, [c]), b, rest)"
    using assms(2) two_symbols [of c "hd rest"] c(3) by (cases rest) (auto split: option.split)
  then have "Lex (c # rest) = ((t, [c]), rest)"
    using c special_not [of c] assms(1) by (auto simp: Lex_def scanSpecialSymbol_def)
  with c(2) show ?thesis by (subst scan.simps) simp
qed

lemma scan_symbols2:
  assumes "string2token [c, CHR ''=''] = Some t" "rest = [] \<or> hd rest \<noteq> nul"
  shows "scan (c # CHR ''='' # rest) = (t, [c, CHR ''='']) # scan rest"
proof -
  have c: "c = CHR ''='' \<or> c = CHR ''!''" "t \<noteq> EndOfStringToken"
    using map_of_SomeD [OF assms(1) [unfolded string2token_def]] by auto
  have three: "string2token [c, CHR ''='', d] = None" for d by (simp add: string2token_def)
  have eq: "CHR ''='' \<noteq> nul" "isSpecialSymbol (CHR ''='')" by (simp_all add: nul_def isSpecialSymbol_def)
  have s: "isSpecialSymbol c" using c(1) by (auto simp: isSpecialSymbol_def)
  then obtain t1 where t1: "string2token [c] = Some t1" using special_token(1) by blast
  have "\<exists>b. special_loop (Some (t, [c, CHR ''=''])) [c, CHR ''=''] rest = (Some (t, [c, CHR ''='']), b, rest)"
    using assms(2) three by (cases rest) auto
  then have "Lex (c # CHR ''='' # rest) = ((t, [c, CHR ''='']), rest)"
    using s special_not [of c] t1 eq assms(1) by (auto simp: Lex_def scanSpecialSymbol_def)
  with c(2) show ?thesis by (subst scan.simps) simp
qed

lemma tokens [simp]:
  "string2token ''!'' = Some DoesNotExistToken" "string2token '','' = Some CommaToken" "string2token ''('' = Some OpenParToken"
  "string2token '')'' = Some ClosedParToken" "string2token ''='' = Some EqualsToken" "string2token ''>'' = Some GreaterThanToken"
  "string2token ''<'' = Some LessThanToken" "string2token ''=='' = Some DoubleEqualsToken" "string2token ''!='' = Some NotEqualsToken"
  "string2token ''in'' = Some InToken" "string2token ''notin'' = Some NotInToken"
  by (simp_all add: string2token_def)

text \<open>The values of a set, separated by commas.\<close>

fun values_items :: "string list \<Rightarrow> item list" where
  "values_items [] = []"
| "values_items [v] = word_items v"
| "values_items (v # w # vs) = word_items v @ (CommaToken, '','') # values_items (w # vs)"

definition requirement_items :: "requirement \<Rightarrow> item list" where
  "requirement_items r =
     (let k = word_items (rq_key r); v = word_items (hd (rq_strValues r));
          set = (OpenParToken, ''('') # values_items (sort (rq_strValues r)) @ [(ClosedParToken, '')'')] in
      case rq_operator r of
        DoesNotExist \<Rightarrow> (DoesNotExistToken, ''!'') # k
      | Exists \<Rightarrow> k
      | Equals \<Rightarrow> k @ (EqualsToken, ''='') # v
      | DoubleEquals \<Rightarrow> k @ (DoubleEqualsToken, ''=='') # v
      | NotEquals \<Rightarrow> k @ (NotEqualsToken, ''!='') # v
      | In \<Rightarrow> k @ (InToken, ''in'') # set
      | NotIn \<Rightarrow> k @ (NotInToken, ''notin'') # set
      | GreaterThan \<Rightarrow> k @ (GreaterThanToken, ''>'') # v
      | LessThan \<Rightarrow> k @ (LessThanToken, ''<'') # v)"

lemma scan_values:
  assumes "list_all (list_all plain_id) vs" "stops rest" "rest \<noteq> []" "hd rest \<noteq> CHR ''=''"
  shows "scan (join '','' vs @ rest) = values_items vs @ scan rest"
  using assms(1)
proof (induction vs rule: values_items.induct)
  case (2 v)
  with assms(2) show ?case by (simp add: scan_word)
next
  case (3 v w vs)
  have nz: "hd rest \<noteq> nul" using assms(2,3) special_not by (auto simp: stops_def)
  have plain: "list_all plain_id w" using 3(2) by simp
  have "hd (join '','' (w # vs) @ rest) \<noteq> nul \<and> hd (join '','' (w # vs) @ rest) \<noteq> CHR ''=''"
    using plain nz assms(4) by (cases w; cases vs) (auto simp: nul_def plain_id_def isSpecialSymbol_def)
  with 3 scan_special [of "CHR '',''" CommaToken "join '','' (w # vs) @ rest"] show ?case
    by (simp add: scan_word stops_def isSpecialSymbol_def)
qed simp

definition sep_follows :: "string \<Rightarrow> bool" where
  "sep_follows rest \<longleftrightarrow> rest = [] \<or> hd rest = CHR '',''"

lemma hd_value:
  assumes "list_all plain_id v" "sep_follows rest"
  shows "v @ rest = [] \<or> hd (v @ rest) \<noteq> nul \<and> hd (v @ rest) \<noteq> CHR ''=''"
  using assms by (cases v) (auto simp: sep_follows_def plain_id_def nul_def isSpecialSymbol_def)

lemma scan_set:
  assumes "list_all (list_all plain_id) vs" "sep_follows rest"
  shows "scan (CHR ''('' # join '','' vs @ CHR '')'' # rest) = (OpenParToken, ''('') # values_items vs @ (ClosedParToken, '')'') # scan rest"
proof -
  have close: "scan (CHR '')'' # rest) = (ClosedParToken, '')'') # scan rest"
    using assms(2) by (intro scan_special) (auto simp: sep_follows_def nul_def)
  have "scan (join '','' vs @ CHR '')'' # rest) = values_items vs @ scan (CHR '')'' # rest)"
    using assms(1) by (intro scan_values) (auto simp: stops_def isSpecialSymbol_def)
  moreover have "hd (join '','' vs @ CHR '')'' # rest) \<noteq> nul \<and> hd (join '','' vs @ CHR '')'' # rest) \<noteq> CHR ''=''"
    using assms(1) by (cases vs rule: values_items.cases; cases "hd vs") (auto simp: plain_id_def nul_def isSpecialSymbol_def)
  ultimately show ?thesis using close by (subst scan_special) auto
qed

lemma scan_requirement:
  assumes "valid_requirement r" "sep_follows rest"
  shows "scan (Requirement_String r @ rest) = requirement_items r @ scan rest"
proof -
  obtain k op vs where r: "r = \<lparr> rq_key = k, rq_operator = op, rq_strValues = vs \<rparr>" by (cases r) auto
  have ok: "arity_ok op vs" "list_all plain_id k" "list_all (list_all plain_id) vs"
    using assms(1) key_plain label_value_plain by (auto simp: valid_requirement_def req_ok_def r list_all_iff)
  have sorted: "list_all (list_all plain_id) (sort vs)" using ok(3) by (simp add: list_all_iff)
  have printed: "Requirement_String \<lparr> rq_key = k, rq_operator = In, rq_strValues = vs \<rparr> = k @ '' in ('' @ join '','' (sort vs) @ '')''"
    "Requirement_String \<lparr> rq_key = k, rq_operator = NotIn, rq_strValues = vs \<rparr> = k @ '' notin ('' @ join '','' (sort vs) @ '')''"
    by (cases vs rule: remdups_adj.cases; simp add: Requirement_String_def r)+
  note stop = stops_def isSpecialSymbol_def isWhitespace_def
  have rest: "stops rest" using assms(2) by (auto simp: sep_follows_def stop)
  show ?thesis
  proof (cases "op \<in> {In, NotIn}")
    case True
    have kw: "scan (CHR '' '' # w @ CHR '' '' # s) = word_items w @ scan s" if "list_all plain_id w" for w s
      using scan_word [OF that, of "CHR '' '' # s"] by (simp add: scan_space isWhitespace_def stop)
    have "plain_id c" if "c \<in> set ''notin''" for c using that by (auto simp: plain_id_def nul_def stop)
    then have "list_all plain_id ''in''" "list_all plain_id ''notin''" by (simp_all add: list_all_iff)
    note kw = this [THEN kw]
    have key: "scan (k @ CHR '' '' # s) = word_items k @ scan (CHR '' '' # s)" for s
      by (rule scan_word [OF ok(2)]) (simp add: stop)
    show ?thesis using True scan_set [OF sorted assms(2)] key kw [simplified word_items_def]
      by (auto simp: requirement_items_def r printed)
  next
    case False
    show ?thesis
    proof (cases vs)
      case Nil
      with False ok(1) have "op \<in> {Exists, DoesNotExist}" by (auto simp: arity_ok_def split: if_splits)
      with scan_word [OF ok(2) rest] scan_special [of "CHR ''!''" DoesNotExistToken "k @ rest"] hd_value [OF ok(2) assms(2)] show ?thesis
        by (auto simp: Requirement_String_def requirement_items_def r)
    next
      case (Cons v vs')
      with False ok have one: "op \<in> {Equals, DoubleEquals, NotEquals, GreaterThan, LessThan}" "vs = [v]" "list_all plain_id v"
        by (cases op; simp add: arity_ok_def)+
      have v: "v @ rest = [] \<or> hd (v @ rest) \<noteq> nul \<and> hd (v @ rest) \<noteq> CHR ''=''" by (rule hd_value [OF one(3) assms(2)])
      have sym: "scan (c # v @ rest) = (t, [c]) # word_items v @ scan rest" if "string2token [c] = Some t" for c t
        using scan_special [OF that v] scan_word [OF one(3) rest] by simp
      have sym2: "scan (c # CHR ''='' # v @ rest) = (t, [c, CHR ''='']) # word_items v @ scan rest" if "string2token [c, CHR ''=''] = Some t" for c t
        using scan_symbols2 [OF that, of "v @ rest"] v scan_word [OF one(3) rest] by auto
      have k: "scan (k @ c # s) = word_items k @ scan (c # s)" if "c \<in> set ''=!><''" for c s
        using that by (intro scan_word [OF ok(2)]) (auto simp: stop)
      show ?thesis using one(1)
        by (auto simp: Requirement_String_def requirement_items_def r one(2) k sym sym2)
    qed
  qed
qed

subsection \<open>Parsing a printed selector\<close>

lemma values_items_first:
  assumes "vs \<noteq> []" "hd vs \<noteq> []" "list_all plain_id (hd vs)"
  obtains t ts where "values_items vs = (t, hd vs) # ts" "as_value t = IdentifierToken"
  using assms plain_word_token [of "hd vs"]
  by (cases vs rule: values_items.cases) (auto simp: word_items_def as_value_def split: option.split)

lemma parse_word_list:
  assumes "list_all (\<lambda>v. v \<noteq> [] \<and> list_all plain_id v) vs" "vs \<noteq> []"
  shows "parseIdentifiersList s (values_items vs @ (ClosedParToken, l) # rest) = Some (Inr (fold List.insert vs s, (ClosedParToken, l) # rest))"
  using assms
proof (induction vs arbitrary: s rule: values_items.induct)
  case (2 v)
  with plain_word_token [of v] show ?case by (auto simp: word_items_def as_value_def Let_def)
next
  case (3 v w vs)
  obtain t ts where w: "values_items (w # vs) = (t, w) # ts" "as_value t = IdentifierToken"
    using 3(2) values_items_first [of "w # vs"] by (auto simp del: values_items.simps as_value_eq)
  have s: "List.insert v s \<noteq> []" by (metis List.set_insert insert_not_empty list.set(1))
  have "t \<noteq> ClosedParToken" "t \<noteq> CommaToken" using w(2) by (auto simp: as_value_def split: if_splits)
  with 3 w s plain_word_token [of v] show ?case
    by (auto simp: word_items_def [of v] as_value_def [of CommaToken] Let_def simp del: values_items.simps parseIdentifiersList.simps
        simp: values_items.simps(3) parseIdentifiersList.simps(2) [where tok = CommaToken] parseIdentifiersList.simps(2) [where lit = v])
qed simp

lemma fold_insert_list: "set (fold List.insert vs s) = set vs \<union> set s" "distinct s \<Longrightarrow> distinct (fold List.insert vs s)"
  by (induction vs arbitrary: s) auto

lemma sort_fold_insert: "distinct (vs @ s) \<Longrightarrow> sort (fold List.insert vs s) = sort (vs @ s)"
  by (intro sorted_distinct_set_unique) (simp_all add: fold_insert_list)

text \<open>In a sorted set only the first value can be empty.\<close>

lemma parse_values_list:
  assumes "list_all (list_all plain_id) vs" "sorted vs" "distinct vs" "vs \<noteq> []"
  shows "\<exists>ws. parseValues ((OpenParToken, ''('') # values_items vs @ (ClosedParToken, '')'') # rest) = Some (Inr (ws, rest)) \<and> sort ws = vs"
proof (cases "hd vs = []")
  case False
  have ne: "list_all (\<lambda>v. v \<noteq> [] \<and> list_all plain_id v) vs"
    using assms(1,2) False by (cases vs) (auto simp: list_all_iff)
  obtain t ts where t: "values_items vs = (t, hd vs) # ts" "as_value t = IdentifierToken"
    using ne assms(4) values_items_first [of vs] by (cases vs) (auto simp del: values_items.simps as_value_eq)
  note parse = parse_word_list [OF ne assms(4), of "[]" "'')''" rest]
  have "parseValues ((OpenParToken, ''('') # values_items vs @ (ClosedParToken, '')'') # rest) = Some (Inr (fold List.insert vs [], rest))"
    using parse t by (simp add: parseValues_def as_value_def [of OpenParToken] as_value_def [of ClosedParToken] pbind_def del: parseIdentifiersList.simps)
  moreover have "sort (fold List.insert vs []) = vs" using sort_fold_insert [of vs "[]"] assms by (simp add: sorted_sort_id)
  ultimately show ?thesis by blast
next
  case True
  then obtain vs' where vs: "vs = [] # vs'" using assms(4) by (cases vs) auto
  show ?thesis
  proof (cases "vs' = []")
    case True
    then show ?thesis by (simp add: vs parseValues_def word_items_def as_value_def)
  next
    case False
    have ne: "list_all (\<lambda>v. v \<noteq> [] \<and> list_all plain_id v) vs'" using assms(1,3) by (auto simp: vs list_all_iff)
    obtain w ws where w: "vs' = w # ws" using False by (cases vs') auto
    obtain t ts where t: "values_items vs' = (t, w) # ts" "as_value t = IdentifierToken"
      using ne w values_items_first [of vs'] by (auto simp del: values_items.simps as_value_eq)
    then have "t \<noteq> ClosedParToken" "t \<noteq> CommaToken" by (auto simp: as_value_def split: if_splits)
    with t parse_word_list [OF ne False, of "[[]]" "'')''" rest]
    have "parseValues ((OpenParToken, ''('') # values_items vs @ (ClosedParToken, '')'') # rest) = Some (Inr (fold List.insert vs' [[]], rest))"
      by (simp add: vs w word_items_def [of "[]"] parseValues_def as_value_def [of OpenParToken] as_value_def [of ClosedParToken]
          as_value_def [of CommaToken] pbind_def Let_def parseIdentifiersList.simps(2) [where tok = CommaToken] del: parseIdentifiersList.simps)
    moreover have "sort (fold List.insert vs' [[]]) = vs"
      using sort_fold_insert [of vs' "[[]]"] assms by (intro sorted_distinct_set_unique) (auto simp: vs fold_insert_list)
    ultimately show ?thesis by blast
  qed
qed

text \<open>A requirement with its values in order.\<close>

definition canonical :: "requirement \<Rightarrow> requirement" where
  "canonical r = r\<lparr> rq_strValues := sort (rq_strValues r) \<rparr>"

lemma word_ident: "list_all plain_id w \<Longrightarrow> w \<noteq> [] \<Longrightarrow> \<exists>t. word_items w = [(t, w)] \<and> as_value t = IdentifierToken"
  using plain_word_token [of w] by (auto simp: word_items_def as_value_def split: option.split)

lemma parse_key:
  assumes "IsQualifiedName k = []"
  shows "parseKeyAndInferOperator ip (word_items k @ (t, l) # rest) =
      Some (Inr ((k, if t = EndOfStringToken \<or> t = CommaToken then Some Exists else None), (t, l) # rest))"
    "parseKeyAndInferOperator ip ((DoesNotExistToken, x) # word_items k @ (t, l) # rest) = Some (Inr ((k, Some DoesNotExist), (t, l) # rest))"
proof -
  obtain tk where tk: "word_items k = [(tk, k)]" "as_value tk = IdentifierToken" using word_ident key_plain [OF assms] by blast
  moreover have "tk \<noteq> DoesNotExistToken" using tk(2) by (auto simp: as_value_def split: if_splits)
  moreover have "validateLabelKey ip k p = None" for p using assms by (simp add: validateLabelKey_def)
  ultimately show "parseKeyAndInferOperator ip (word_items k @ (t, l) # rest) =
      Some (Inr ((k, if t = EndOfStringToken \<or> t = CommaToken then Some Exists else None), (t, l) # rest))"
    "parseKeyAndInferOperator ip ((DoesNotExistToken, x) # word_items k @ (t, l) # rest) = Some (Inr ((k, Some DoesNotExist), (t, l) # rest))"
    by (simp_all add: parseKeyAndInferOperator_def as_value_def [of t] as_value_def [of DoesNotExistToken])
qed

lemma parse_exact:
  assumes "list_all plain_id v" "t = EndOfStringToken \<or> t = CommaToken"
  shows "parseExactValue (word_items v @ (t, l) # rest) = Some (Inr ([v], (t, l) # rest))"
proof (cases "v = []")
  case True
  with assms(2) show ?thesis by (auto simp: parseExactValue_def word_items_def)
next
  case False
  then obtain tv where "word_items v = [(tv, v)]" "as_value tv = IdentifierToken" using word_ident assms(1) by blast
  then show ?thesis by (auto simp: parseExactValue_def as_value_def split: if_splits)
qed

lemma sort_Nil [simp]: "sort_key f xs = [] \<longleftrightarrow> xs = []"
  by (metis length_0_conv length_sort)

lemma sort_req_ok: "req_ok k op vs \<Longrightarrow> req_ok k op (sort vs)"
  by (cases vs rule: remdups_adj.cases) (auto simp: req_ok_def arity_ok_def list_all_iff set_insort_key split: if_splits)

lemma parse_printed_requirement:
  assumes "valid_requirement r" "t = EndOfStringToken \<or> t = CommaToken"
  shows "parseRequirement ip (requirement_items r @ (t, l) # rest) = Some (Inr (canonical r, (t, l) # rest))"
proof -
  obtain k op vs where r: "r = \<lparr> rq_key = k, rq_operator = op, rq_strValues = vs \<rparr>" by (cases r) auto
  have ok: "req_ok k op vs" "distinct vs" using assms(1) by (simp_all add: valid_requirement_def r)
  then have key: "IsQualifiedName k = []" and ar: "arity_ok op vs" and plain: "list_all (list_all plain_id) vs"
    using label_value_plain by (auto simp: req_ok_def list_all_iff)
  have new: "with_rest (NewRequirement ip k op (sort vs)) ts = Some (Inr (canonical r, ts))" for ts
    using NewRequirement_iff [of ip k op "sort vs" "canonical r"] sort_req_ok [OF ok(1)]
    by (simp add: with_rest_def canonical_def r)
  show ?thesis
  proof (cases "op \<in> {In, NotIn}")
    case True
    have "list_all (list_all plain_id) (sort vs)" "sort vs \<noteq> []"
      using plain True ar by (auto simp: list_all_iff arity_ok_def)
    then obtain ws where ws: "sort ws = sort vs"
      "parseValues ((OpenParToken, ''('') # values_items (sort vs) @ (ClosedParToken, '')'') # (t, l) # rest) = Some (Inr (ws, (t, l) # rest))"
      using parse_values_list [of "sort vs" "(t, l) # rest"] ok(2) by auto
    with True new show ?thesis
      by (auto simp: r requirement_items_def parseRequirement_def parse_key [OF key] pbind_def parseOperator_def token_operator_def)
  next
    case False
    show ?thesis
    proof (cases vs)
      case Nil
      with False ar have "op \<in> {Exists, DoesNotExist}" by (auto simp: arity_ok_def split: if_splits)
      with assms(2) Nil new show ?thesis
        by (auto simp: r requirement_items_def parseRequirement_def parse_key [OF key] pbind_def)
    next
      case (Cons v vs')
      with False ar plain have one: "op \<in> {Equals, DoubleEquals, NotEquals, GreaterThan, LessThan}" "vs = [v]" "list_all plain_id v"
        by (cases op; simp add: arity_ok_def)+
      with new parse_exact [OF one(3) assms(2)] show ?thesis
        by (auto simp: r requirement_items_def parseRequirement_def parse_key [OF key] pbind_def parseOperator_def token_operator_def)
    qed
  qed
qed

lemma requirement_first:
  assumes "valid_requirement r"
  shows "\<exists>t l ts. requirement_items r @ rest = (t, l) # ts \<and> (as_value t = IdentifierToken \<or> t = DoesNotExistToken)"
proof -
  have "list_all plain_id (rq_key r)" "rq_key r \<noteq> []" using assms key_plain by (simp_all add: valid_requirement_def req_ok_def)
  then obtain t where "word_items (rq_key r) = [(t, rq_key r)]" "as_value t = IdentifierToken" using word_ident by blast
  then show ?thesis by (cases "rq_operator r") (simp_all add: requirement_items_def Let_def del: as_value_eq)
qed

fun selector_items :: "requirement list \<Rightarrow> item list" where
  "selector_items [] = []"
| "selector_items [r] = requirement_items r"
| "selector_items (r # q # rs) = requirement_items r @ (CommaToken, '','') # selector_items (q # rs)"

lemma selector_first:
  assumes "valid_requirement r"
  shows "\<exists>t l ts. selector_items (r # rs) @ rest = (t, l) # ts \<and> (as_value t = IdentifierToken \<or> t = DoesNotExistToken)"
  using requirement_first [OF assms] by (cases rs) simp_all

lemma requirement_hd:
  assumes "valid_requirement r"
  shows "Requirement_String r @ rest \<noteq> [] \<and> hd (Requirement_String r @ rest) \<noteq> nul \<and> hd (Requirement_String r @ rest) \<noteq> CHR ''=''"
proof -
  have k: "list_all plain_id (rq_key r)" "rq_key r \<noteq> []" using assms key_plain by (simp_all add: valid_requirement_def req_ok_def)
  then have "hd (rq_key r) \<noteq> nul \<and> hd (rq_key r) \<noteq> CHR ''=''"
    by (cases "rq_key r") (auto simp: plain_id_def nul_def isSpecialSymbol_def)
  with k(2) show ?thesis by (cases "rq_operator r") (simp_all add: Requirement_String_def Let_def nul_def)
qed

lemma scan_selector: "list_all valid_requirement rs \<Longrightarrow> scan (join '','' (map Requirement_String rs)) = selector_items rs @ [(EndOfStringToken, [])]"
proof (induction rs rule: selector_items.induct)
  case (2 r)
  with scan_requirement [of r "[]"] show ?case by (simp add: sep_follows_def scan_Nil)
next
  case (3 r q rs)
  let ?more = "join '','' (map Requirement_String (q # rs))"
  have "scan (CHR '','' # ?more) = (CommaToken, '','') # scan ?more"
    using 3(2) requirement_hd [of q "drop (length (Requirement_String q)) ?more"] by (intro scan_special) (cases rs; simp)+
  with 3 scan_requirement [of r "CHR '','' # ?more"] show ?case by (simp add: sep_follows_def)
qed (simp add: scan_Nil)

lemma parse_loop_printed:
  "list_all valid_requirement rs \<Longrightarrow>
     parse_loop ip acc (selector_items rs @ [(EndOfStringToken, [])]) = Some (Inr (acc @ map canonical rs))"
proof (induction rs arbitrary: acc rule: selector_items.induct)
  case 1
  show ?case by (simp add: parse_loop.simps as_value_def)
next
  case (2 r)
  then obtain t l ts where "requirement_items r @ [(EndOfStringToken, [])] = (t, l) # ts" "as_value t = IdentifierToken \<or> t = DoesNotExistToken"
    using requirement_first [of r "[(EndOfStringToken, [])]"] by auto
  with 2 parse_printed_requirement [of r EndOfStringToken ip "[]" "[]"] show ?case
    by (subst parse_loop.simps) (auto simp: as_value_def split: if_splits)
next
  case (3 r q rs)
  let ?more = "selector_items (q # rs) @ [(EndOfStringToken, [])]"
  obtain t l ts where r: "requirement_items r @ (CommaToken, '','') # ?more = (t, l) # ts" "as_value t = IdentifierToken \<or> t = DoesNotExistToken"
    using requirement_first [of r "(CommaToken, '','') # ?more"] 3(2) by auto
  obtain t' l' ts' where q: "?more = (t', l') # ts'" "as_value t' = IdentifierToken \<or> t' = DoesNotExistToken"
    using selector_first [of q rs "[(EndOfStringToken, [])]"] 3(2) by auto
  have "parse_loop ip acc (requirement_items r @ (CommaToken, '','') # ?more) = parse_loop ip (acc @ [canonical r]) ?more"
    using r q 3(2) parse_printed_requirement [of r CommaToken ip "'',''" ?more]
    by (subst parse_loop.simps) (auto simp: as_value_def simp del: selector_items.simps split: if_splits)
  with 3 show ?case by simp
qed

lemma canonical_matches: "valid_requirement r \<Longrightarrow> Requirement_Matches (canonical r) ls = Requirement_Matches r ls"
  by (cases "rq_strValues r" rule: remdups_adj.cases)
    (auto simp: Requirement_Matches_def canonical_def hasValue_def valid_requirement_def req_ok_def arity_ok_def set_insort_key
      split: operator.splits if_splits)

lemma Parse_printed:
  "list_all valid_requirement rs \<Longrightarrow>
     Parse ip (Selector_String (InternalSelector rs)) = Some (Inr (InternalSelector (sort_key rq_key (map canonical rs))))"
  by (simp add: Parse_def ParseToRequirements_def scan_selector parse_loop_printed)

subsection \<open>What the parser accepts\<close>

lemma parseIdentifiersList_distinct: "parseIdentifiersList s ts = Some (Inr (vs, rest)) \<Longrightarrow> distinct s \<Longrightarrow> distinct vs"
  by (induction s ts rule: parseIdentifiersList.induct) (force simp: Let_def split: if_splits option.splits list.splits)+

lemma parsed_values_distinct:
  "parseValues ts = Some (Inr (vs, rest)) \<Longrightarrow> distinct vs" "parseExactValue ts = Some (Inr (vs, rest)) \<Longrightarrow> distinct vs"
  by (auto simp: parseValues_def parseExactValue_def bind_eq_Some_conv pbind_Inr dest: parseIdentifiersList_distinct split: if_splits prod.splits)

text \<open>A parsed requirement: valid, with its values in order.\<close>

definition parsed_requirement :: "requirement \<Rightarrow> bool" where
  "parsed_requirement r \<longleftrightarrow> valid_requirement r \<and> sorted (rq_strValues r)"

lemma parseRequirement_valid:
  assumes "parseRequirement ip ts = Some (Inr (r, rest))"
  shows "parsed_requirement r"
proof -
  obtain key operator ts1 where k: "parseKeyAndInferOperator ip ts = Some (Inr ((key, operator), ts1))"
    using assms by (auto simp: parseRequirement_def pbind_Inr)
  show ?thesis
  proof (cases operator)
    case (Some op)
    with assms k show ?thesis
      by (auto simp: parseRequirement_def pbind_def with_rest_Inr NewRequirement_iff parsed_requirement_def valid_requirement_def)
  next
    case None
    with assms k obtain op ts2 vs where "NewRequirement ip key op (sort vs) = Inr r"
      "(if op = In \<or> op = NotIn then parseValues ts2 else parseExactValue ts2) = Some (Inr (vs, rest))"
      by (auto simp: parseRequirement_def pbind_Inr with_rest_Inr)
    with parsed_values_distinct [of ts2 vs rest] show ?thesis
      by (auto simp: NewRequirement_iff parsed_requirement_def valid_requirement_def split: if_splits)
  qed
qed

lemma parse_loop_valid: "parse_loop ip acc ts = Some (Inr rs) \<Longrightarrow> list_all parsed_requirement acc \<Longrightarrow> list_all parsed_requirement rs"
proof (induction ip acc ts rule: parse_loop.induct)
  case (1 ip acc ts)
  from 1(2) show ?case
    by (subst (asm) parse_loop.simps)
      (use 1 in \<open>auto simp: parseRequirement_valid split: option.splits if_splits sum.splits list.splits prod.splits\<close>)
qed

lemma parsed_requirements:
  assumes "Parse ip s = Some (Inr sel)"
  obtains reqs where "ParseToRequirements ip s = Some (Inr reqs)" "sel = InternalSelector reqs"
  using assms by (cases "ParseToRequirements ip s" rule: option.exhaust; cases "the (ParseToRequirements ip s)") (auto simp: Parse_def)

lemma Parse_valid:
  assumes "Parse ip s = Some (Inr sel)"
  obtains rs where "sel = InternalSelector rs" "list_all parsed_requirement rs" "sorted (map rq_key rs)"
proof -
  obtain reqs where reqs: "ParseToRequirements ip s = Some (Inr reqs)" "sel = InternalSelector reqs"
    using assms by (rule parsed_requirements)
  then obtain rs where "parse_loop ip [] (scan s) = Some (Inr rs)" "reqs = sort_key rq_key rs"
    by (cases "parse_loop ip [] (scan s)" rule: option.exhaust; cases "the (parse_loop ip [] (scan s))") (auto simp: ParseToRequirements_def)
  with reqs parse_loop_valid [of ip "[]" "scan s" rs] that show thesis by (simp add: list_all_iff)
qed

lemma Parse_returns: "Parse ip s \<noteq> None"
  using parse_loop_returns [OF scan_ends] by (simp add: Parse_def ParseToRequirements_def)

lemma parsed_canonical: "parsed_requirement r \<Longrightarrow> valid_requirement r \<and> canonical r = r"
  by (simp add: parsed_requirement_def canonical_def sorted_sort_id)

lemma printed_stable: "list_all parsed_requirement rs \<Longrightarrow> sorted (map rq_key rs) \<Longrightarrow> Parse ip (Selector_String (InternalSelector rs)) = Some (Inr (InternalSelector rs))"
proof -
  assume rs: "list_all parsed_requirement rs" "sorted (map rq_key rs)"
  then have "map canonical rs = rs" "list_all valid_requirement rs"
    by (auto simp: list_all_iff parsed_canonical intro: map_idI)
  with Parse_printed [of rs ip] rs(2) show ?thesis by (simp add: sort_key_id_if_sorted)
qed

subsection \<open>Properties\<close>

text \<open>The parser of selectors never panics, whatever the text. What it accepts are valid requirements in
  the order of their keys, and printing them gives a text that parses to the same selector.\<close>

theorem parse_total_stable:
  "case Parse ip s of
     None \<Rightarrow> False
   | Some (Inl e) \<Rightarrow> True
   | Some (Inr sel) \<Rightarrow>
       (\<exists>rs. sel = InternalSelector rs \<and> list_all valid_requirement rs \<and> sorted (map rq_key rs)) \<and>
       Parse ip (Selector_String sel) = Some (Inr sel)"
proof (cases "Parse ip s")
  case None
  with Parse_returns show ?thesis by blast
next
  case (Some x)
  show ?thesis
  proof (cases x)
    case (Inr sel)
    with Some obtain rs where rs: "sel = InternalSelector rs" "list_all parsed_requirement rs" "sorted (map rq_key rs)"
      using Parse_valid by blast
    moreover have "list_all valid_requirement rs" using rs(2) by (simp add: list_all_iff parsed_requirement_def)
    ultimately show ?thesis using Some Inr printed_stable [OF rs(2,3)] by simp
  qed (simp add: Some)
qed

text \<open>C20. A label selector survives being sent as text. Whatever valid requirements a selector has (set-based ones
  and the keywords \<open>in\<close> and \<open>notin\<close> as keys or values included), what is printed parses, to a selector
  that matches the same labels, and that selector is printed and parsed as itself.\<close>

theorem selector_round_trip:
  assumes "list_all valid_requirement rs"
  shows "\<exists>sel. Parse ip (Selector_String (InternalSelector rs)) = Some (Inr sel) \<and>
    (\<forall>ls. Selector_Matches sel ls = Selector_Matches (InternalSelector rs) ls) \<and>
    Parse ip (Selector_String sel) = Some (Inr sel)"
proof -
  let ?rs = "sort_key rq_key (map canonical rs)"
  have "Requirement_Matches (canonical r) ls = Requirement_Matches r ls" if "r \<in> set rs" for r ls
    using that assms by (auto simp: list_all_iff canonical_matches)
  then have "Selector_Matches (InternalSelector ?rs) ls = Selector_Matches (InternalSelector rs) ls" for ls
    by (auto simp: list_all_iff)
  moreover have "parsed_requirement (canonical r)" if "valid_requirement r" for r
    using that sort_req_ok by (auto simp: parsed_requirement_def valid_requirement_def canonical_def)
  then have "list_all parsed_requirement ?rs" using assms by (auto simp: list_all_iff)
  then have "Parse ip (Selector_String (InternalSelector ?rs)) = Some (Inr (InternalSelector ?rs))" by (rule printed_stable) simp
  ultimately show ?thesis using Parse_printed [OF assms, of ip] by blast
qed

definition example_requirements :: "requirement list" where
  "example_requirements =
     [\<lparr> rq_key = ''in'', rq_operator = NotIn, rq_strValues = [''notin'', []] \<rparr>, \<lparr> rq_key = ''a'', rq_operator = Equals, rq_strValues = [''b''] \<rparr>]"

lemma example_valid: "list_all valid_requirement example_requirements"
  by (simp add: example_requirements_def valid_requirement_def req_ok_def arity_ok_def IsQualifiedName_def IsValidLabelValue_def
      qualifiedNameRegexp_def qname_ext_def is_alnum_def is_lower_def is_digit_def Let_def)

theorem selector_round_trip_witness:
  "Selector_String (InternalSelector example_requirements) = ''in notin (,notin),a=b'' \<and>
   (\<exists>sel. Parse (\<lambda>_. True) ''in notin (,notin),a=b'' = Some (Inr sel) \<and>
      (\<forall>ls. Selector_Matches sel ls = Selector_Matches (InternalSelector example_requirements) ls) \<and>
      Parse (\<lambda>_. True) (Selector_String sel) = Some (Inr sel))"
proof -
  have "Selector_String (InternalSelector example_requirements) = ''in notin (,notin),a=b''"
    by (simp add: example_requirements_def Requirement_String_def)
  with selector_round_trip [OF example_valid, of "\<lambda>_. True"] show ?thesis by simp
qed

end
