(* ===== verification/Api.thy ===== *)
theory Api
  imports Json_Codec Label_Selectors
begin

section \<open>Reading and writing ResolutionRequests: keys, listers and clients\<close>

text \<open>
  The interfaces through which every component reaches the cluster.
  \<^item> Keys: \<^verbatim>\<open>cache.SplitMetaNamespaceKey\<close> and \<^verbatim>\<open>cache.MetaNamespaceKeyFunc\<close> (client-go).
  \<^item> The generated lister \<^verbatim>\<open>pkg/client/listers/resolution/v1alpha1\<close> over the informer's cache.
  \<^item> The typed client interface \<^verbatim>\<open>ResolutionRequestInterface\<close>: a record of functions over an
    arbitrary world \<open>'w\<close>. The API server is not part of the repository, so the components
    take such a record; the locale \<open>rr_api\<close> states what they rely on.
  \<^item> The generated fake clientset (\<^verbatim>\<open>pkg/client/clientset/versioned/fake\<close>) with client-go's object
    tracker, the implementation of the interface that the repository does hold; it
    satisfies \<open>rr_api\<close>.
\<close>

subsection \<open>Keys\<close>

definition MetaNamespaceKeyFunc :: "rr \<Rightarrow> string" where
  "MetaNamespaceKeyFunc r =
     (if m_namespace (meta r) \<noteq> [] then m_namespace (meta r) @ ''/'' @ m_name (meta r)
      else m_name (meta r))"

definition SplitMetaNamespaceKey :: "(nat \<Rightarrow> bool) \<Rightarrow> string \<Rightarrow> (string \<times> string) res" where
  "SplitMetaNamespaceKey ip key =
     (case split_on (CHR ''/'') key of
        [name] \<Rightarrow> Inr ([], name)
      | [ns, name] \<Rightarrow> Inr (ns, name)
      | _ \<Rightarrow> Inl (ErrorString (''unexpected key format: '' @ quote ip key)))"

subsection \<open>API errors\<close>

definition NewNotFound :: "(nat \<Rightarrow> bool) \<Rightarrow> string \<Rightarrow> string \<Rightarrow> err" where
  "NewNotFound ip resource name = StatusError ''NotFound'' 404 (resource @ '' '' @ quote ip name @ '' not found'')"

definition NewAlreadyExists :: "(nat \<Rightarrow> bool) \<Rightarrow> string \<Rightarrow> string \<Rightarrow> err" where
  "NewAlreadyExists ip resource name = StatusError ''AlreadyExists'' 409 (resource @ '' '' @ quote ip name @ '' already exists'')"

definition NewBadRequest :: "string \<Rightarrow> err" where
  "NewBadRequest reason = StatusError ''BadRequest'' 400 reason"

subsection \<open>The lister\<close>

text \<open>The informer's cache: the objects under the keys the informer stores them with.\<close>

type_synonym indexer = "(string \<times> rr) list"

text \<open>\<^verbatim>\<open>cache.ListAll\<close> and \<^verbatim>\<open>ListAllByNamespace\<close>: an empty selector selects all without looking at the labels.\<close>

definition selects :: "selector \<Rightarrow> rr \<Rightarrow> bool" where
  "selects selector r \<longleftrightarrow> (let selectAll = Selector_Empty selector in selectAll \<or> Selector_Matches selector (m_labels (meta r)))"

definition lister_List :: "indexer \<Rightarrow> selector \<Rightarrow> rr list" where
  "lister_List idx selector = filter (selects selector) (map snd idx)"

definition lister_List_ns :: "indexer \<Rightarrow> string \<Rightarrow> selector \<Rightarrow> rr list" where
  "lister_List_ns idx ns selector =
     (if ns = [] then lister_List idx selector
      else filter (selects selector) (filter (\<lambda>r. m_namespace (meta r) = ns) (map snd idx)))"

lemma selects_Matches: "selects selector r = Selector_Matches selector (m_labels (meta r))"
  by (cases selector) (auto simp: selects_def)

lemma selects_Everything [simp]: "selects Everything r"
  by (simp add: selects_def Everything_def)

definition lister_Get :: "(nat \<Rightarrow> bool) \<Rightarrow> indexer \<Rightarrow> string \<Rightarrow> string \<Rightarrow> rr res" where
  "lister_Get ip idx ns name =
     (case map_of idx (ns @ ''/'' @ name) of
        None \<Rightarrow> Inl (NewNotFound ip ''resolutionrequest.resolution.tekton.dev'' name)
      | Some r \<Rightarrow> Inr r)"

definition indexer_wf :: "indexer \<Rightarrow> bool" where
  "indexer_wf idx \<longleftrightarrow> distinct (map fst idx) \<and> list_all (\<lambda>(k, r). k = MetaNamespaceKeyFunc r) idx"

subsection \<open>The typed client\<close>

text \<open>The structure that is PATCHed into a status: \<^verbatim>\<open>statusDataPatch\<close> of the resolver framework.\<close>

record status_patch =
  sp_annotations :: gomap
  sp_data :: string

record 'w rr_client =
  cl_get :: "'w \<Rightarrow> string \<Rightarrow> string \<Rightarrow> rr res"
  cl_create :: "'w \<Rightarrow> string \<Rightarrow> rr \<Rightarrow> 'w \<times> rr res"
  cl_update_status :: "'w \<Rightarrow> string \<Rightarrow> rr \<Rightarrow> 'w \<times> rr res"
  cl_patch_status :: "'w \<Rightarrow> string \<Rightarrow> string \<Rightarrow> status_patch \<Rightarrow> 'w \<times> rr res"
  cl_patch_finalizers :: "'w \<Rightarrow> string \<Rightarrow> string \<Rightarrow> string list \<Rightarrow> string \<Rightarrow> 'w \<times> rr res"

text \<open>JSON merge patch (RFC 7386) on the two members of the status the patch names: a null
  member is removed, an object is merged key by key, a string replaces.\<close>

definition merge_annotations :: "gomap \<Rightarrow> gomap \<Rightarrow> gomap" where
  "merge_annotations old new =
     (case new of None \<Rightarrow> None | Some al \<Rightarrow> Some (copy_range (go_entries old) al))"

definition merge_status :: "rr_status \<Rightarrow> status_patch \<Rightarrow> rr_status" where
  "merge_status s p = s\<lparr>s_annotations := merge_annotations (s_annotations s) (sp_annotations p), s_data := sp_data p\<rparr>"

subsection \<open>What the components rely on\<close>

text \<open>Two statuses are the same to an API client when they agree on everything but the transition
  times of the conditions (which are serialised with a resolution of seconds).\<close>

definition same_conditions :: "condition list \<Rightarrow> condition list \<Rightarrow> bool" where
  "same_conditions a b \<longleftrightarrow> list_all2 same_condition a b"

locale rr_api =
  fixes cl :: "'w rr_client"
    and inv :: "'w \<Rightarrow> bool"
  assumes get_meta: "inv w \<Longrightarrow> cl_get cl w ns n = Inr r \<Longrightarrow> m_namespace (meta r) = ns \<and> m_name (meta r) = n"
    and update_status_ok:
      "inv w \<Longrightarrow> cl_update_status cl w ns r = (w', Inr r') \<Longrightarrow>
       \<exists>s. cl_get cl w' ns (m_name (meta r)) = Inr s \<and> rr_status s = rr_status r"
    and update_status_err: "cl_update_status cl w ns r = (w', Inl e) \<Longrightarrow> w' = w"
    and update_status_frame:
      "inv w \<Longrightarrow> cl_update_status cl w ns r = (w', x) \<Longrightarrow> (ns', n') \<noteq> (ns, m_name (meta r)) \<Longrightarrow>
       cl_get cl w' ns' n' = cl_get cl w ns' n'"
    and patch_status_ok:
      "inv w \<Longrightarrow> cl_patch_status cl w ns n p = (w', Inr r') \<Longrightarrow> cl_get cl w ns n = Inr r \<Longrightarrow>
       \<exists>s. cl_get cl w' ns n = Inr s \<and> s_data (rr_status s) = sp_data p \<and>
           same_conditions (s_conditions (rr_status s)) (s_conditions (rr_status r))"
    and patch_status_err: "cl_patch_status cl w ns n p = (w', Inl e) \<Longrightarrow> w' = w"
    and patch_status_frame:
      "inv w \<Longrightarrow> cl_patch_status cl w ns n p = (w', x) \<Longrightarrow> (ns', n') \<noteq> (ns, n) \<Longrightarrow>
       cl_get cl w' ns' n' = cl_get cl w ns' n'"
    and create_ok:
      "inv w \<Longrightarrow> cl_create cl w ns r = (w', Inr r') \<Longrightarrow>
       \<exists>s. cl_get cl w' ns (m_name (meta r)) = Inr s \<and> spec_params s = spec_params r \<and>
           m_labels (meta s) = m_labels (meta r) \<and> rr_status s = rr_status r"
    and create_err: "cl_create cl w ns r = (w', Inl e) \<Longrightarrow> w' = w"
    and inv_update_status: "inv w \<Longrightarrow> inv (fst (cl_update_status cl w ns r))"
    and inv_patch_status: "inv w \<Longrightarrow> inv (fst (cl_patch_status cl w ns n p))"
    and inv_create: "inv w \<Longrightarrow> inv (fst (cl_create cl w ns r))"

subsection \<open>The object tracker and the fake client\<close>

type_synonym tracker = "((string \<times> string) \<times> rr) list"

definition rr_resource :: string where
  "rr_resource = ''resolutionrequests.resolution.tekton.dev''"

definition tracker_get :: "(nat \<Rightarrow> bool) \<Rightarrow> tracker \<Rightarrow> string \<Rightarrow> string \<Rightarrow> rr res" where
  "tracker_get ip t ns name =
     (case map_of t (ns, name) of
        None \<Rightarrow> Inl (NewNotFound ip rr_resource name)
      | Some r \<Rightarrow> Inr r)"

definition propagate_ns :: "string \<Rightarrow> rr \<Rightarrow> rr" where
  "propagate_ns ns r =
     (if m_namespace (meta r) = [] then r\<lparr>meta := (meta r)\<lparr>m_namespace := ns\<rparr>\<rparr> else r)"

definition tracker_add :: "(nat \<Rightarrow> bool) \<Rightarrow> tracker \<Rightarrow> rr \<Rightarrow> string \<Rightarrow> bool \<Rightarrow> tracker res" where
  "tracker_add ip t obj ns replaceExisting =
     (let newObj = propagate_ns ns obj; name = m_name (meta newObj) in
      if ns \<noteq> m_namespace (meta newObj) then
        Inl (NewBadRequest (''request namespace does not match object namespace, request: '' @ quote ip ns @
              '' object: '' @ quote ip (m_namespace (meta newObj))))
      else (case map_of t (ns, name) of
          Some _ \<Rightarrow> if replaceExisting then Inr (AList.update (ns, name) newObj t)
                    else Inl (NewAlreadyExists ip rr_resource name)
        | None \<Rightarrow> if replaceExisting then Inl (NewNotFound ip rr_resource name)
                  else Inr (AList.update (ns, name) newObj t)))"

definition tracker_delete :: "(nat \<Rightarrow> bool) \<Rightarrow> tracker \<Rightarrow> string \<Rightarrow> string \<Rightarrow> tracker res" where
  "tracker_delete ip t ns name =
     (case map_of t (ns, name) of
        None \<Rightarrow> Inl (NewNotFound ip rr_resource name)
      | Some _ \<Rightarrow> Inr (AList.delete (ns, name) t))"

text \<open>What marshalling an object to JSON and back changes, for strings that are valid UTF-8: times
  lose what is below a second, and an empty map is omitted and comes back as nil.\<close>

definition json_map :: "gomap \<Rightarrow> gomap" where
  "json_map m = (if go_entries m = [] then None else m)"

definition json_rr :: "rr \<Rightarrow> rr" where
  "json_rr r =
     r\<lparr>meta := (meta r)\<lparr>m_labels := json_map (m_labels (meta r)),
                       m_creationTimestamp := json_time (m_creationTimestamp (meta r)),
                       m_deletionTimestamp := json_deletion (m_deletionTimestamp (meta r))\<rparr>,
       spec_params := json_map (spec_params r),
       rr_status := (rr_status r)\<lparr>
         s_conditions := map (\<lambda>c. c\<lparr>c_ltt := json_time (c_ltt c)\<rparr>) (s_conditions (rr_status r)),
         s_annotations := json_map (s_annotations (rr_status r))\<rparr>\<rparr>"

text \<open>The reactions of \<^verbatim>\<open>ObjectReaction\<close> that the typed fake client invokes: the object is read back
  from the tracker after it was stored.\<close>

definition fake_get :: "(nat \<Rightarrow> bool) \<Rightarrow> tracker \<Rightarrow> string \<Rightarrow> string \<Rightarrow> rr res" where
  "fake_get ip t ns name = tracker_get ip t ns name"

definition fake_store :: "(nat \<Rightarrow> bool) \<Rightarrow> bool \<Rightarrow> tracker \<Rightarrow> string \<Rightarrow> rr \<Rightarrow> tracker \<times> rr res" where
  "fake_store ip replaceExisting t ns obj =
     (case tracker_add ip t obj ns replaceExisting of
        Inl e \<Rightarrow> (t, Inl e)
      | Inr t' \<Rightarrow> (t', tracker_get ip t' ns (m_name (meta obj))))"

definition fake_create :: "(nat \<Rightarrow> bool) \<Rightarrow> tracker \<Rightarrow> string \<Rightarrow> rr \<Rightarrow> tracker \<times> rr res" where
  "fake_create ip t ns obj = fake_store ip False t ns obj"

definition fake_update_status :: "(nat \<Rightarrow> bool) \<Rightarrow> tracker \<Rightarrow> string \<Rightarrow> rr \<Rightarrow> tracker \<times> rr res" where
  "fake_update_status ip t ns obj = fake_store ip True t ns obj"

definition fake_patch_status :: "(nat \<Rightarrow> bool) \<Rightarrow> tracker \<Rightarrow> string \<Rightarrow> string \<Rightarrow> status_patch \<Rightarrow> tracker \<times> rr res" where
  "fake_patch_status ip t ns name p =
     (case tracker_get ip t ns name of
        Inl e \<Rightarrow> (t, Inl e)
      | Inr obj \<Rightarrow>
        (let obj1 = json_rr obj;
             obj2 = obj1\<lparr>rr_status := merge_status (rr_status obj1) p\<rparr>
         in case tracker_add ip t obj2 ns True of
              Inl e \<Rightarrow> (t, Inl e)
            | Inr t' \<Rightarrow> (t', Inr obj2)))"

text \<open>The merge patch of the metadata that the generated reconciler sends: the finalizers and the
  resource version it read.\<close>

definition fake_patch_finalizers :: "(nat \<Rightarrow> bool) \<Rightarrow> tracker \<Rightarrow> string \<Rightarrow> string \<Rightarrow> string list \<Rightarrow> string \<Rightarrow> tracker \<times> rr res" where
  "fake_patch_finalizers ip t ns name finalizers rv =
     (case tracker_get ip t ns name of
        Inl e \<Rightarrow> (t, Inl e)
      | Inr obj \<Rightarrow>
        (let obj1 = json_rr obj;
             obj2 = obj1\<lparr>meta := (meta obj1)\<lparr>m_finalizers := finalizers, m_resourceVersion := rv\<rparr>\<rparr>
         in case tracker_add ip t obj2 ns True of
              Inl e \<Rightarrow> (t, Inl e)
            | Inr t' \<Rightarrow> (t', Inr obj2)))"

definition fake_client :: "(nat \<Rightarrow> bool) \<Rightarrow> tracker rr_client" where
  "fake_client ip =
     \<lparr> cl_get = fake_get ip, cl_create = fake_create ip,
       cl_update_status = fake_update_status ip, cl_patch_status = fake_patch_status ip,
       cl_patch_finalizers = fake_patch_finalizers ip \<rparr>"

definition tracker_wf :: "tracker \<Rightarrow> bool" where
  "tracker_wf t \<longleftrightarrow>
     distinct (map fst t) \<and> list_all (\<lambda>((ns, n), r). m_namespace (meta r) = ns \<and> m_name (meta r) = n) t"

subsection \<open>Lemmas: keys\<close>

lemma split_key_pair:
  assumes "CHR ''/'' \<notin> set ns" "CHR ''/'' \<notin> set name"
  shows "SplitMetaNamespaceKey ip (ns @ ''/'' @ name) = Inr (ns, name)"
  using assms by (simp add: SplitMetaNamespaceKey_def split_on_append split_on_no_sep)

lemma split_key_single:
  "CHR ''/'' \<notin> set name \<Longrightarrow> SplitMetaNamespaceKey ip name = Inr ([], name)"
  by (simp add: SplitMetaNamespaceKey_def split_on_no_sep)

lemma split_key_error:
  "is_err (SplitMetaNamespaceKey ip key) \<longleftrightarrow> 2 \<le> count_list key (CHR ''/'')"
proof -
  obtain p ps where s: "split_on (CHR ''/'') key = p # ps" by (cases "split_on (CHR ''/'') key") auto
  have "count_list key (CHR ''/'') = length ps" using length_split_on [of "CHR ''/''" key] s by simp
  with s show ?thesis
    by (auto simp: SplitMetaNamespaceKey_def split: list.splits)
qed

lemma IsNotFound_NewNotFound [simp]: "IsNotFound (NewNotFound ip resource name)"
  by (simp add: IsNotFound_def status_is_def NewNotFound_def err_chain.simps)

lemma IsConflict_NewNotFound [simp]: "\<not> IsConflict (NewNotFound ip resource name)"
  by (simp add: IsConflict_def status_is_def NewNotFound_def err_chain.simps known_reasons_def)

lemma lister_Get_found:
  assumes "lister_Get ip idx ns name = Inr r" "indexer_wf idx"
  shows "MetaNamespaceKeyFunc r = ns @ ''/'' @ name"
proof -
  have "map_of idx (ns @ ''/'' @ name) = Some r"
    using assms(1) by (auto simp: lister_Get_def split: option.splits)
  then have "(ns @ ''/'' @ name, r) \<in> set idx" by (rule map_of_SomeD)
  with assms(2) show ?thesis by (auto simp: indexer_wf_def list_all_iff)
qed

subsection \<open>Lemmas: the tracker implements the interface\<close>

lemma json_rr_frame [simp]:
  "m_name (meta (json_rr r)) = m_name (meta r)"
  "m_namespace (meta (json_rr r)) = m_namespace (meta r)"
  "s_data (rr_status (json_rr r)) = s_data (rr_status r)"
  by (simp_all add: json_rr_def)

lemma same_conditions_json: "same_conditions (s_conditions (rr_status (json_rr r))) (s_conditions (rr_status r))"
  by (simp add: json_rr_def same_conditions_def list_all2_map1 list_all2_same)

lemma propagate_ns_frame [simp]:
  "m_name (meta (propagate_ns ns r)) = m_name (meta r)" "rr_status (propagate_ns ns r) = rr_status r"
  "spec_params (propagate_ns ns r) = spec_params r" "m_labels (meta (propagate_ns ns r)) = m_labels (meta r)"
  by (simp_all add: propagate_ns_def)

lemma tracker_add_InrD:
  assumes "tracker_add ip t obj ns rep = Inr t'"
  shows "t' = AList.update (ns, m_name (meta obj)) (propagate_ns ns obj) t"
    "m_namespace (meta (propagate_ns ns obj)) = ns"
    "(map_of t (ns, m_name (meta obj)) \<noteq> None) = rep"
  using assms by (auto simp: tracker_add_def Let_def split: if_splits option.splits)

lemma set_update_subset: "set (AList.update k v al) \<subseteq> insert (k, v) (set al)"
  by (induction al) auto

lemma tracker_wf_update:
  assumes "tracker_wf t" "m_namespace (meta r) = ns" "m_name (meta r) = n"
  shows "tracker_wf (AList.update (ns, n) r t)"
proof -
  let ?P = "\<lambda>((ns, n), r). m_namespace (meta r) = ns \<and> m_name (meta r) = n"
  have "\<forall>x \<in> set t. ?P x" "?P ((ns, n), r)" using assms by (simp_all add: tracker_wf_def list_all_iff)
  with set_update_subset [of "(ns, n)" r t] have "\<forall>x \<in> set (AList.update (ns, n) r t). ?P x" by blast
  moreover have "distinct (map fst (AList.update (ns, n) r t))"
    using assms(1) by (simp add: tracker_wf_def distinct_update)
  ultimately show ?thesis by (simp add: tracker_wf_def list_all_iff)
qed

lemma tracker_add_wf:
  assumes "tracker_wf t" "tracker_add ip t obj ns rep = Inr t'"
  shows "tracker_wf t'"
  using tracker_add_InrD [OF assms(2)] assms(1) by (simp add: tracker_wf_update)

lemma tracker_get_add:
  assumes "tracker_add ip t obj ns rep = Inr t'"
  shows "tracker_get ip t' ns' n' =
     (if (ns', n') = (ns, m_name (meta obj)) then Inr (propagate_ns ns obj) else tracker_get ip t ns' n')"
  using tracker_add_InrD [OF assms] by (auto simp: tracker_get_def update_conv)

lemma fake_store_cases:
  assumes "fake_store ip rep t ns obj = (t', x)"
  obtains (err) e where "t' = t" "x = Inl e" "tracker_add ip t obj ns rep = Inl e"
    | (ok) "tracker_add ip t obj ns rep = Inr t'" "x = Inr (propagate_ns ns obj)"
  using assms
  by (auto simp: fake_store_def tracker_get_add split: sum.splits)

lemma fake_patch_cases:
  assumes "fake_patch_status ip t ns n p = (t', x)"
  obtains (err) e where "t' = t" "x = Inl e"
    | (ok) r obj where "tracker_get ip t ns n = Inr r"
        "obj = (json_rr r)\<lparr>rr_status := merge_status (rr_status (json_rr r)) p\<rparr>"
        "tracker_add ip t obj ns True = Inr t'" "x = Inr obj"
proof (cases "tracker_get ip t ns n")
  case (Inl e)
  with assms show thesis by (intro err [of e]) (simp_all add: fake_patch_status_def)
next
  case (Inr r)
  let ?obj = "(json_rr r)\<lparr>rr_status := merge_status (rr_status (json_rr r)) p\<rparr>"
  show thesis
    using assms Inr err ok [of r ?obj]
    by (cases "tracker_add ip t ?obj ns True") (auto simp: fake_patch_status_def Let_def)
qed

lemma tracker_get_wf:
  assumes "tracker_wf t" "tracker_get ip t ns n = Inr r"
  shows "m_namespace (meta r) = ns" "m_name (meta r) = n"
proof -
  have "((ns, n), r) \<in> set t"
    using assms(2) by (auto simp: tracker_get_def dest: map_of_SomeD split: option.splits)
  with assms(1) show "m_namespace (meta r) = ns" "m_name (meta r) = n"
    by (auto simp: tracker_wf_def list_all_iff)
qed

lemma fake_client_sel [simp]:
  "cl_get (fake_client ip) = tracker_get ip"
  "cl_create (fake_client ip) = fake_store ip False"
  "cl_update_status (fake_client ip) = fake_store ip True"
  "cl_patch_status (fake_client ip) = fake_patch_status ip"
  by (auto simp: fake_client_def fake_get_def fake_create_def fake_update_status_def fun_eq_iff)

lemma fake_store_wf: "tracker_wf t \<Longrightarrow> tracker_wf (fst (fake_store ip rep t ns obj))"
  by (cases "fake_store ip rep t ns obj") (auto elim!: fake_store_cases dest: tracker_add_wf)

lemma fake_patch_wf: "tracker_wf t \<Longrightarrow> tracker_wf (fst (fake_patch_status ip t ns n p))"
  by (cases "fake_patch_status ip t ns n p") (auto elim!: fake_patch_cases dest: tracker_add_wf)

interpretation fake: rr_api "fake_client ip" tracker_wf for ip
proof
  fix t t' :: tracker and ns ns' n n' :: string and r r' :: rr and p x e
  show "m_namespace (meta r) = ns \<and> m_name (meta r) = n"
    if "tracker_wf t" "cl_get (fake_client ip) t ns n = Inr r"
    using that tracker_get_wf by simp
  show "\<exists>s. cl_get (fake_client ip) t' ns (m_name (meta r)) = Inr s \<and> rr_status s = rr_status r"
    if "cl_update_status (fake_client ip) t ns r = (t', Inr r')"
    using that by (auto elim!: fake_store_cases simp: tracker_get_add)
  show "cl_get (fake_client ip) t' ns' n' = cl_get (fake_client ip) t ns' n'"
    if "cl_update_status (fake_client ip) t ns r = (t', x)" "(ns', n') \<noteq> (ns, m_name (meta r))"
    using that by (auto elim!: fake_store_cases simp: tracker_get_add)
  show "\<exists>s. cl_get (fake_client ip) t' ns n = Inr s \<and> s_data (rr_status s) = sp_data p \<and>
      same_conditions (s_conditions (rr_status s)) (s_conditions (rr_status r))"
    if "tracker_wf t" "cl_patch_status (fake_client ip) t ns n p = (t', Inr r')" "cl_get (fake_client ip) t ns n = Inr r"
    using that(2,3) tracker_get_wf [OF that(1)] same_conditions_json [of r]
    by (auto elim!: fake_patch_cases simp: tracker_get_add merge_status_def)
  show "cl_get (fake_client ip) t' ns' n' = cl_get (fake_client ip) t ns' n'"
    if "tracker_wf t" "cl_patch_status (fake_client ip) t ns n p = (t', x)" "(ns', n') \<noteq> (ns, n)"
    using that(2,3) tracker_get_wf [OF that(1)] by (auto elim!: fake_patch_cases simp: tracker_get_add)
  show "\<exists>s. cl_get (fake_client ip) t' ns (m_name (meta r)) = Inr s \<and> spec_params s = spec_params r \<and>
      m_labels (meta s) = m_labels (meta r) \<and> rr_status s = rr_status r"
    if "cl_create (fake_client ip) t ns r = (t', Inr r')"
    using that by (auto elim!: fake_store_cases simp: tracker_get_add)
qed (auto elim!: fake_store_cases fake_patch_cases intro: fake_store_wf fake_patch_wf)

end
