(* ===== verification/Json_Patch.thy ===== *)
theory Json_Patch
  imports Api
begin

section \<open>The fake client's merge patches as JSON\<close>

text \<open>
  The reaction of client-go's object tracker to a merge patch (\<^verbatim>\<open>fixture.go\<close>, case
  \<^verbatim>\<open>PatchActionImpl\<close>) marshals the stored object, merges the patch's document into it and decodes
  the result into a zeroed object. \<open>fake_patch_status\<close> describes the outcome on the fields of the
  object; here the outcome is derived from the three JSON operations.
\<close>

subsection \<open>Patches and objects\<close>

definition enc_status_patch :: "status_patch \<Rightarrow> json" where
  "enc_status_patch p =
     JObj [(''status'', JObj [(''annotations'', enc_map (sp_annotations p)), (''data'', enc_str (sp_data p))])]"

definition merge_patch_object :: "codec \<Rightarrow> rr \<Rightarrow> json \<Rightarrow> rr res" where
  "merge_patch_object cd obj patch = dec_rr cd False (merge_json (enc_rr obj) patch)"

text \<open>Two objects are the same Go value, up to the addresses of pointers and the order in which the
  model lists the entries of a map.\<close>

definition rr_eqv :: "rr \<Rightarrow> rr \<Rightarrow> bool" where
  "rr_eqv a b \<longleftrightarrow>
     go_eqv (m_labels (meta a)) (m_labels (meta b)) \<and> go_eqv (spec_params a) (spec_params b) \<and>
     go_eqv (s_annotations (rr_status a)) (s_annotations (rr_status b)) \<and>
     readdress 0 (m_ownerReferences (meta a)) = readdress 0 (m_ownerReferences (meta b)) \<and>
     a\<lparr>meta := (meta a)\<lparr>m_labels := None, m_ownerReferences := []\<rparr>, spec_params := None,
       rr_status := (rr_status a)\<lparr>s_annotations := None\<rparr>\<rparr> =
     b\<lparr>meta := (meta b)\<lparr>m_labels := None, m_ownerReferences := []\<rparr>, spec_params := None,
       rr_status := (rr_status b)\<lparr>s_annotations := None\<rparr>\<rparr>"

subsection \<open>Lemmas\<close>

lemma go_eqv_refl [simp]: "go_eqv m m"
  by (simp add: go_eqv_def)

lemma go_eqv_sorted [simp]: "go_eqv (sorted_map m) (json_map m)"
  by (cases m) (simp_all add: go_eqv_def sorted_map_def json_map_def)

lemma readdress_twice [simp]: "readdress a (readdress b os) = readdress a os"
  by (induction os arbitrary: a b) (simp_all add: option.map_comp comp_def case_prod_unfold)

lemma rr_eqv_reread: "rr_eqv (reread a r) (json_rr r)"
  by (simp add: rr_eqv_def reread_def json_rr_def)

text \<open>Merging one map of strings into another is the assignment of its entries one by one.\<close>

lemma map_of_str: "map_of (map (\<lambda>(k, v). (k, JStr v)) al) k = map_option JStr (map_of al k)"
  by (induction al) auto

lemma update_str: "AList.update k (JStr v) (map (\<lambda>(k, v). (k, JStr v)) al) = map (\<lambda>(k, v). (k, JStr v)) (AList.update k v al)"
  by (induction al) auto

lemma merge_docs_str:
  "merge_docs (map (\<lambda>(k, v). (k, JStr v)) a) (map (\<lambda>(k, v). (k, JStr v)) b) =
   map (\<lambda>(k, v). (k, JStr v)) (copy_range a b)"
  by (induction a b rule: copy_range.induct) (simp_all add: map_of_str update_str split: option.split)

lemma enc_map_utf8:
  assumes "utf8_map (Some al)"
  shows "enc_map (Some al) = JObj (map (\<lambda>(k, v). (k, JStr v)) (sort_key fst al))"
proof -
  have "map (\<lambda>(k, v). (json_string k, enc_str v)) (sort_key fst al) = map (\<lambda>(k, v). (k, JStr v)) (sort_key fst al)"
    using assms by (auto simp: utf8_map_def list_all_iff enc_str_def)
  then show ?thesis by (simp add: enc_map_def)
qed

lemma prune_str: "prune (JObj (map (\<lambda>(k, v). (k, JStr v)) al)) = JObj (map (\<lambda>(k, v). (k, JStr v)) al)"
  by (induction al) auto

lemma dec_entries_str:
  "dec_entries mm name (map (\<lambda>(k, v). (k, JStr v)) al) acc = Inr (copy_range acc al)"
  by (induction acc al rule: copy_range.induct) (simp_all add: dec_str_def)

lemma copy_range_map_of: "distinct (map fst b) \<Longrightarrow> map_of (copy_range a b) = map_of a ++ map_of b"
proof (induction a b rule: copy_range.induct)
  case (2 acc k v rest)
  then have "map_of rest k = None" by (simp add: map_of_eq_None_iff)
  with 2 show ?case by (auto simp: update_conv' map_add_def fun_eq_iff split: option.split)
qed simp

text \<open>The order in which two maps are merged entry by entry does not matter.\<close>

lemma copy_range_set:
  assumes "distinct (map fst a)" "distinct (map fst a')" "distinct (map fst b)" "distinct (map fst b')"
    and "set a = set a'" "set b = set b'"
  shows "set (copy_range a b) = set (copy_range a' b')"
  by (rule set_eq_if_map_of_eq)
    (use assms map_of_eq_if_set_eq [of a a'] map_of_eq_if_set_eq [of b b'] in
      \<open>simp_all add: copy_range_distinct copy_range_map_of\<close>)

text \<open>The members of a merged status: the old ones, the annotations in their place or at the end.\<close>

lemma merge_status_members:
  "merge_json (enc_status s) (JObj [(''annotations'', a), (''data'', enc_str d)]) =
     JObj (omit_int ''observedGeneration'' (s_observedGeneration s)
       @ omit_list ''conditions'' enc_condition (s_conditions s)
       @ (if a = JNull \<or> go_entries (s_annotations s) = [] then []
          else [(''annotations'', merge_json (enc_map (s_annotations s)) a)])
       @ [(''data'', enc_str d)]
       @ (if a \<noteq> JNull \<and> go_entries (s_annotations s) = [] then [(''annotations'', prune a)] else []))"
  by (simp add: enc_status_def enc_defs AList.delete_eq enc_map_def split: option.split)

lemma dec_status_start:
  assumes "status_ok s"
  shows "dec_members (cd_ip cd) strict (status_fields cd strict)
      (omit_int ''observedGeneration'' (s_observedGeneration s)
       @ omit_list ''conditions'' enc_condition (s_conditions s) @ rest) empty_status =
    dec_members (cd_ip cd) strict (status_fields cd strict) rest
      (empty_status\<lparr>s_observedGeneration := s_observedGeneration s,
        s_conditions := map (\<lambda>c. c\<lparr>c_ltt := json_time (c_ltt c)\<rparr>) (s_conditions s)\<rparr>)"
proof -
  note u [simp] = assms [unfolded status_ok_def]
  show ?thesis
    by (rule dec_step, rule dec_omit_int [OF status_find(1)], simp, simp add: empty_status_def, simp,
        rule dec_step, rule dec_omit_list [OF status_find(2)], simp, simp add: empty_status_def,
        use u in \<open>simp add: dec_condition_enc list_all_iff\<close>, rule refl)
qed

text \<open>A merged status decodes to the fields of \<open>merge_status\<close>.\<close>

lemma dec_merged_status:
  assumes "status_ok s" "go_wf (sp_annotations p)" "utf8_map (sp_annotations p)" "utf8 (sp_data p)"
  shows "\<exists>a. dec_struct (cd_mm cd) (cd_ip cd) strict name (status_fields cd strict)
      (merge_json (enc_status s) (JObj [(''annotations'', enc_map (sp_annotations p)), (''data'', enc_str (sp_data p))]))
      empty_status =
    Inr (s\<lparr>s_conditions := map (\<lambda>c. c\<lparr>c_ltt := json_time (c_ltt c)\<rparr>) (s_conditions s),
           s_annotations := a, s_data := sp_data p\<rparr>) \<and>
    go_eqv a (merge_annotations (json_map (s_annotations s)) (sp_annotations p))"
proof -
  let ?f = "map (\<lambda>(k, v :: string). (k, JStr v))"
  have d: "json_string (sp_data p) = sp_data p" using assms(4) by (simp add: utf8_def)
  have eta: "s\<lparr>s_conditions := c, s_annotations := a, s_data := t\<rparr> =
      \<lparr> s_observedGeneration = s_observedGeneration s, s_conditions = c, s_annotations = a, s_data = t \<rparr>" for c a t
    by simp
  note dec = eta status_find fld_def d dec_str_def enc_str_def dec_map_def dec_entries_str empty_status_def
    merge_annotations_def json_map_def
  note start = merge_status_members dec_struct_def json.case dec_status_start [OF assms(1)]
  show ?thesis
  proof (cases "sp_annotations p")
    case None
    then show ?thesis unfolding start by (simp add: dec enc_map_def)
  next
    case (Some b)
    have b: "enc_map (sp_annotations p) = JObj (?f (sort_key fst b))" "distinct (map fst b)"
      using assms(2,3) unfolding Some by (simp_all only: enc_map_utf8) (simp add: go_wf_def)
    have sb: "distinct (map fst (sort_key fst b))" using b(2) by (rule map_fst_sort_key_distinct)
    show ?thesis
    proof (cases "go_entries (s_annotations s) = []")
      case True
      then show ?thesis unfolding start using b sb
        by (simp add: dec Some prune_str go_eqv_def copy_range_Nil del: prune.simps)
    next
      case False
      then obtain a where a: "s_annotations s = Some a" by (cases "s_annotations s") simp_all
      have aw: "distinct (map fst a)" "utf8_map (Some a)" using assms(1) by (simp_all add: status_ok_def a go_wf_def)
      have sa: "distinct (map fst (sort_key fst a))" using aw(1) by (rule map_fst_sort_key_distinct)
      have "set (copy_range (sort_key fst a) (sort_key fst b)) = set (copy_range a b)"
        by (rule copy_range_set) (use aw(1) b(2) sa sb in simp_all)
      then show ?thesis unfolding start using False b aw sa
        by (simp add: dec a Some enc_map_utf8 merge_docs_str copy_range_Nil copy_range_distinct go_eqv_def)
    qed
  qed
qed

lemma merge_rr_members:
  "merge_json (enc_rr r) (JObj [(''status'', JObj p)]) =
     JObj (omit_str ''kind'' (t_kind r) @ omit_str ''apiVersion'' (t_apiVersion r)
       @ [(''metadata'', enc_meta (meta r)), (''spec'', enc_spec (spec_params r)),
          (''status'', merge_json (enc_status (rr_status r)) (JObj p))])"
  by (simp add: enc_rr_def omit_str_def enc_status_def)

lemma merge_patch_object_status:
  assumes "json_ok r" "go_wf (sp_annotations p)" "utf8_map (sp_annotations p)" "utf8 (sp_data p)"
  shows "\<exists>x. merge_patch_object cd r (enc_status_patch p) = Inr x \<and>
    rr_eqv x ((json_rr r)\<lparr>rr_status := merge_status (rr_status (json_rr r)) p\<rparr>)"
proof -
  note u = assms(1) [unfolded json_ok_def utf8_def]
  let ?s = "merge_json (enc_status (rr_status r))
    (JObj [(''annotations'', enc_map (sp_annotations p)), (''data'', enc_str (sp_data p))])"
  let ?y = "reread (cd_addr cd) r"
  let ?x = "empty_rr\<lparr>t_kind := t_kind r, t_apiVersion := t_apiVersion r\<rparr>"
  obtain a where a: "dec_struct (cd_mm cd) (cd_ip cd) False ''status'' (status_fields cd False) ?s empty_status =
      Inr ((rr_status ?y)\<lparr>s_annotations := a, s_data := sp_data p\<rparr>)"
    "go_eqv a (merge_annotations (json_map (s_annotations (rr_status r))) (sp_annotations p))"
    using dec_merged_status [OF _ assms(2-4), of "rr_status r" cd] u by (fastforce simp: reread_def)
  have rest: "dec_members (cd_ip cd) False (rr_fields cd False)
      [(''metadata'', enc_meta (meta r)), (''spec'', enc_spec (spec_params r)), (''status'', ?s)] ?x =
    Inr (?y\<lparr>rr_status := (rr_status ?y)\<lparr>s_annotations := a, s_data := sp_data p\<rparr>\<rparr>)"
    using u a(1) by (simp add: rr_find fld_def empty_rr_def dec_meta_enc dec_spec_enc reread_def)
  have "dec_members (cd_ip cd) False (rr_fields cd False)
      (omit_str ''kind'' (t_kind r) @ omit_str ''apiVersion'' (t_apiVersion r)
       @ [(''metadata'', enc_meta (meta r)), (''spec'', enc_spec (spec_params r)), (''status'', ?s)]) empty_rr =
    Inr (?y\<lparr>rr_status := (rr_status ?y)\<lparr>s_annotations := a, s_data := sp_data p\<rparr>\<rparr>)"
    using u by (intro dec_step [OF dec_omit_str [OF rr_find(1)] dec_step [OF dec_omit_str [OF rr_find(2)] rest]])
      (simp_all add: empty_rr_def)
  moreover have "rr_eqv (?y\<lparr>rr_status := (rr_status ?y)\<lparr>s_annotations := a, s_data := sp_data p\<rparr>\<rparr>)
      ((json_rr r)\<lparr>rr_status := merge_status (rr_status (json_rr r)) p\<rparr>)"
    using a(2) by (simp add: rr_eqv_def reread_def json_rr_def merge_status_def)
  ultimately show ?thesis
    by (simp add: merge_patch_object_def enc_status_patch_def merge_rr_members dec_rr_def dec_rr_into_def dec_struct_def)
qed

subsection \<open>The equivalence\<close>


definition example_patch :: status_patch where
  "example_patch = \<lparr> sp_annotations = Some [(''b'', ''3''), (''c'', ''4'')], sp_data = ''aGk='' \<rparr>"

lemma example_patch_ok:
  "go_wf (sp_annotations example_patch)" "utf8_map (sp_annotations example_patch)" "utf8 (sp_data example_patch)"
  by code_simp+


end
