(* ===== verification/Deep_Copy.thy ===== *)
theory Deep_Copy
  imports Json_Patch
begin

section \<open>Deep copies\<close>

text \<open>
  The generated \<^verbatim>\<open>DeepCopy\<close> methods (\<^verbatim>\<open>zz_generated.deepcopy.go\<close>, and those of knative and Kubernetes
  that they call) on an explicit store: maps, slices and the targets of pointers are cells with
  addresses, so that sharing is visible. The objects that the informer caches hand out are shared
  by every reader; the reconcilers may change what they get only because they copy it first. A
  nil map, slice or pointer is \<open>None\<close>. The other theories describe objects by value; \<open>rr_val\<close> is the
  value of an object in a store. The order in which a copy allocates its cells cannot be observed.
\<close>

subsection \<open>The store\<close>

record owner_h =
  oh_apiVersion :: string
  oh_kind :: string
  oh_name :: string
  oh_uid :: string
  oh_controller :: "nat option"

record meta_h =
  mh_name :: string
  mh_namespace :: string
  mh_generation :: int
  mh_resourceVersion :: string
  mh_creationTimestamp :: time
  mh_deletionTimestamp :: "nat option"
  mh_labels :: "nat option"
  mh_ownerReferences :: "nat option"
  mh_finalizers :: "nat option"

record spec_h =
  sh_params :: "nat option"

record status_h =
  th_observedGeneration :: int
  th_conditions :: "nat option"
  th_annotations :: "nat option"
  th_data :: string

record rr_h =
  rh_kind :: string
  rh_apiVersion :: string
  rh_meta :: meta_h
  rh_spec :: spec_h
  rh_status :: status_h

datatype cell =
    Map_cell "(string \<times> string) list"
  | Bool_cell bool
  | Time_cell time
  | Strings_cell "string list"
  | Conditions_cell "condition list"
  | Owners_cell "owner_h list"
  | Items_cell "rr_h list"

record heap =
  h_cells :: "nat \<Rightarrow> cell option"
  h_next :: nat

definition alloc :: "heap \<Rightarrow> cell \<Rightarrow> heap \<times> nat" where
  "alloc h c = (\<lparr> h_cells = (h_cells h)(h_next h \<mapsto> c), h_next = Suc (h_next h) \<rparr>, h_next h)"

definition store_cell :: "heap \<Rightarrow> nat \<Rightarrow> cell \<Rightarrow> heap" where
  "store_cell h a c = h\<lparr>h_cells := (h_cells h)(a \<mapsto> c)\<rparr>"

definition stores :: "heap \<Rightarrow> (nat \<times> cell) list \<Rightarrow> heap" where
  "stores h ws = foldl (\<lambda>h (a, c). store_cell h a c) h ws"

text \<open>The cells of each type.\<close>

fun map_of_cell :: "cell \<Rightarrow> (string \<times> string) list option" where
  "map_of_cell (Map_cell al) = Some al" | "map_of_cell _ = None"

fun bool_of_cell :: "cell \<Rightarrow> bool option" where
  "bool_of_cell (Bool_cell b) = Some b" | "bool_of_cell _ = None"

fun time_of_cell :: "cell \<Rightarrow> time option" where
  "time_of_cell (Time_cell t) = Some t" | "time_of_cell _ = None"

fun strings_of_cell :: "cell \<Rightarrow> string list option" where
  "strings_of_cell (Strings_cell ss) = Some ss" | "strings_of_cell _ = None"

fun conditions_of_cell :: "cell \<Rightarrow> condition list option" where
  "conditions_of_cell (Conditions_cell cs) = Some cs" | "conditions_of_cell _ = None"

fun owners_of_cell :: "cell \<Rightarrow> owner_h list option" where
  "owners_of_cell (Owners_cell os) = Some os" | "owners_of_cell _ = None"

fun items_of_cell :: "cell \<Rightarrow> rr_h list option" where
  "items_of_cell (Items_cell rs) = Some rs" | "items_of_cell _ = None"

definition load :: "(cell \<Rightarrow> 'c option) \<Rightarrow> heap \<Rightarrow> nat \<Rightarrow> 'c option" where
  "load proj h a = Option.bind (h_cells h a) proj"

subsection \<open>Copying references\<close>

text \<open>A pointer, map or slice whose contents have no references of their own: a new cell with the copied
  contents.\<close>

definition copy_ptr :: "(cell \<Rightarrow> 'c option) \<Rightarrow> ('c \<Rightarrow> cell) \<Rightarrow> ('c \<Rightarrow> 'c) \<Rightarrow> heap \<Rightarrow> nat option \<Rightarrow> heap \<times> nat option" where
  "copy_ptr proj mk dup h p =
     (case Option.bind p (load proj h) of
        None \<Rightarrow> (h, None)
      | Some v \<Rightarrow> (case alloc h (mk (dup v)) of (h', a) \<Rightarrow> (h', Some a)))"

fun copy_list :: "(heap \<Rightarrow> 'a \<Rightarrow> heap \<times> 'a) \<Rightarrow> heap \<Rightarrow> 'a list \<Rightarrow> heap \<times> 'a list" where
  "copy_list copy h [] = (h, [])"
| "copy_list copy h (x # xs) =
     (case copy h x of (h1, y) \<Rightarrow> (case copy_list copy h1 xs of (h2, ys) \<Rightarrow> (h2, y # ys)))"

text \<open>A slice whose elements are copied by their own method.\<close>

definition copy_slice ::
  "(cell \<Rightarrow> 'a list option) \<Rightarrow> ('a list \<Rightarrow> cell) \<Rightarrow> (heap \<Rightarrow> 'a \<Rightarrow> heap \<times> 'a) \<Rightarrow> heap \<Rightarrow> nat option \<Rightarrow> heap \<times> nat option" where
  "copy_slice proj mk copy h p =
     (case Option.bind p (load proj h) of
        None \<Rightarrow> (h, None)
      | Some xs \<Rightarrow>
          (case copy_list copy h xs of (h1, ys) \<Rightarrow> (case alloc h1 (mk ys) of (h2, a) \<Rightarrow> (h2, Some a))))"

text \<open>\<^verbatim>\<open>*out = make(map[string]string, len(*in)); for key, val := range *in { (*out)[key] = val }\<close>\<close>

abbreviation copy_map :: "heap \<Rightarrow> nat option \<Rightarrow> heap \<times> nat option" where
  "copy_map \<equiv> copy_ptr map_of_cell Map_cell (copy_range [])"

subsection \<open>The methods\<close>

definition owner_DeepCopyInto :: "heap \<Rightarrow> owner_h \<Rightarrow> heap \<times> owner_h" where
  "owner_DeepCopyInto h x =
     (case copy_ptr bool_of_cell Bool_cell (\<lambda>b. b) h (oh_controller x) of (h1, controller) \<Rightarrow>
      (h1, x\<lparr>oh_controller := controller\<rparr>))"

definition meta_DeepCopyInto :: "heap \<Rightarrow> meta_h \<Rightarrow> heap \<times> meta_h" where
  "meta_DeepCopyInto h x =
     (case copy_ptr time_of_cell Time_cell (\<lambda>t. t) h (mh_deletionTimestamp x) of (h1, deletionTimestamp) \<Rightarrow>
      (case copy_map h1 (mh_labels x) of (h2, labels) \<Rightarrow>
      (case copy_slice owners_of_cell Owners_cell owner_DeepCopyInto h2 (mh_ownerReferences x) of (h3, ownerReferences) \<Rightarrow>
      (case copy_ptr strings_of_cell Strings_cell (\<lambda>ss. ss) h3 (mh_finalizers x) of (h4, finalizers) \<Rightarrow>
      (h4, x\<lparr>mh_deletionTimestamp := deletionTimestamp, mh_labels := labels,
             mh_ownerReferences := ownerReferences, mh_finalizers := finalizers\<rparr>)))))"

definition spec_DeepCopyInto :: "heap \<Rightarrow> spec_h \<Rightarrow> heap \<times> spec_h" where
  "spec_DeepCopyInto h x = (case copy_map h (sh_params x) of (h1, params) \<Rightarrow> (h1, x\<lparr>sh_params := params\<rparr>))"

definition status_DeepCopyInto :: "heap \<Rightarrow> status_h \<Rightarrow> heap \<times> status_h" where
  "status_DeepCopyInto h x =
     (case copy_ptr conditions_of_cell Conditions_cell (\<lambda>cs. cs) h (th_conditions x) of (h1, conditions) \<Rightarrow>
      (case copy_map h1 (th_annotations x) of (h2, annotations) \<Rightarrow>
      (h2, x\<lparr>th_conditions := conditions, th_annotations := annotations\<rparr>)))"

definition rr_DeepCopyInto :: "heap \<Rightarrow> rr_h \<Rightarrow> heap \<times> rr_h" where
  "rr_DeepCopyInto h x =
     (case meta_DeepCopyInto h (rh_meta x) of (h1, m) \<Rightarrow>
      (case spec_DeepCopyInto h1 (rh_spec x) of (h2, s) \<Rightarrow>
      (case status_DeepCopyInto h2 (rh_status x) of (h3, t) \<Rightarrow>
      (h3, x\<lparr>rh_meta := m, rh_spec := s, rh_status := t\<rparr>))))"

text \<open>A nil receiver gives nil.\<close>

definition rr_DeepCopy :: "heap \<Rightarrow> rr_h option \<Rightarrow> heap \<times> rr_h option" where
  "rr_DeepCopy h x =
     (case x of None \<Rightarrow> (h, None) | Some r \<Rightarrow> (case rr_DeepCopyInto h r of (h1, out) \<Rightarrow> (h1, Some out)))"

text \<open>The interface value of a nil copy is nil, not an interface that holds a nil pointer.\<close>

definition rr_DeepCopyObject :: "heap \<Rightarrow> rr_h option \<Rightarrow> heap \<times> rr_h option" where
  "rr_DeepCopyObject h x = (case rr_DeepCopy h x of (h1, Some c) \<Rightarrow> (h1, Some c) | (h1, None) \<Rightarrow> (h1, None))"

definition spec_DeepCopy :: "heap \<Rightarrow> spec_h option \<Rightarrow> heap \<times> spec_h option" where
  "spec_DeepCopy h x =
     (case x of None \<Rightarrow> (h, None) | Some s \<Rightarrow> (case spec_DeepCopyInto h s of (h1, out) \<Rightarrow> (h1, Some out)))"

definition status_DeepCopy :: "heap \<Rightarrow> status_h option \<Rightarrow> heap \<times> status_h option" where
  "status_DeepCopy h x =
     (case x of None \<Rightarrow> (h, None) | Some s \<Rightarrow> (case status_DeepCopyInto h s of (h1, out) \<Rightarrow> (h1, Some out)))"

record list_h =
  lh_kind :: string
  lh_apiVersion :: string
  lh_resourceVersion :: string
  lh_items :: "nat option"

definition list_DeepCopyInto :: "heap \<Rightarrow> list_h \<Rightarrow> heap \<times> list_h" where
  "list_DeepCopyInto h x =
     (case copy_slice items_of_cell Items_cell rr_DeepCopyInto h (lh_items x) of (h1, items) \<Rightarrow> (h1, x\<lparr>lh_items := items\<rparr>))"

definition list_DeepCopy :: "heap \<Rightarrow> list_h option \<Rightarrow> heap \<times> list_h option" where
  "list_DeepCopy h x =
     (case x of None \<Rightarrow> (h, None) | Some l \<Rightarrow> (case list_DeepCopyInto h l of (h1, out) \<Rightarrow> (h1, Some out)))"

definition list_DeepCopyObject :: "heap \<Rightarrow> list_h option \<Rightarrow> heap \<times> list_h option" where
  "list_DeepCopyObject h x = (case list_DeepCopy h x of (h1, Some c) \<Rightarrow> (h1, Some c) | (h1, None) \<Rightarrow> (h1, None))"

subsection \<open>The contract of a copy\<close>

text \<open>A store that has everything the other one has.\<close>

definition extends :: "heap \<Rightarrow> heap \<Rightarrow> bool" where
  "extends h h' \<longleftrightarrow> h_next h \<le> h_next h' \<and> (\<forall>a < h_next h. h_cells h' a = h_cells h a)"

lemma extends_refl [simp]: "extends h h"
  by (simp add: extends_def)

lemma extends_trans: "extends h h1 \<Longrightarrow> extends h1 h2 \<Longrightarrow> extends h h2"
  by (auto simp: extends_def)

lemma extends_alloc: "alloc h c = (h', a) \<Longrightarrow> extends h h'"
  by (auto simp: alloc_def extends_def)

text \<open>For a type of objects: \<open>ok\<close> says that every reference of an object leads to a cell of the right
  type, \<open>val\<close> is the value of an object and \<open>refs\<close> the addresses it reaches. A copy has the same value and
  reaches only cells that did not exist before.\<close>

locale deep_copy =
  fixes copy :: "heap \<Rightarrow> 'a \<Rightarrow> heap \<times> 'a"
    and val :: "heap \<Rightarrow> 'a \<Rightarrow> 'v"
    and refs :: "heap \<Rightarrow> 'a \<Rightarrow> nat set"
    and ok :: "heap \<Rightarrow> 'a \<Rightarrow> bool"
  assumes refs_below: "ok h x \<Longrightarrow> refs h x \<subseteq> {..<h_next h}"
    and frame: "ok h x \<Longrightarrow> h_next h \<le> h_next h' \<Longrightarrow> (\<And>a. a \<in> refs h x \<Longrightarrow> h_cells h' a = h_cells h a) \<Longrightarrow>
      ok h' x \<and> val h' x = val h x \<and> refs h' x = refs h x"
    and copied: "ok h x \<Longrightarrow> copy h x = (h', y) \<Longrightarrow>
      extends h h' \<and> ok h' y \<and> val h' y = val h x \<and> refs h' y \<subseteq> {h_next h..<h_next h'}"
begin

lemma extended: "ok h x \<Longrightarrow> extends h h' \<Longrightarrow> ok h' x \<and> val h' x = val h x \<and> refs h' x = refs h x"
  using refs_below [of h x] by (intro frame) (auto simp: extends_def)

lemma apart:
  assumes "ok h x" "copy h x = (h', y)"
  shows "refs h' x \<inter> refs h' y = {}"
  using copied [OF assms] extended [OF assms(1), of h'] refs_below [OF assms(1)] by fastforce

lemma stored:
  assumes "ok h x" "a \<notin> refs h x"
  shows "val (store_cell h a c) x = val h x"
proof -
  have cells: "h_cells (store_cell h a c) b = h_cells h b" if "b \<in> refs h x" for b
    using that assms(2) by (auto simp: store_cell_def)
  have "h_next h \<le> h_next (store_cell h a c)" by (simp add: store_cell_def)
  from frame [OF assms(1) this cells] show ?thesis by blast
qed

lemma stores_kept:
  "ok h x \<Longrightarrow> list_all (\<lambda>(a, c). a \<notin> refs h x) ws \<Longrightarrow> val (stores h ws) x = val h x"
proof (induction ws arbitrary: h)
  case (Cons w ws)
  obtain a c where w: "w = (a, c)" by fastforce
  let ?h = "store_cell h a c"
  have cells: "h_cells ?h b = h_cells h b" if "b \<in> refs h x" for b
    using that Cons.prems(2) by (auto simp: store_cell_def w)
  have "h_next h \<le> h_next ?h" by (simp add: store_cell_def)
  from frame [OF Cons.prems(1) this cells] Cons.IH [of ?h] Cons.prems(2) show ?case by (simp add: w stores_def)
qed (simp add: stores_def)

text \<open>Whatever is stored through the copy, the original keeps its value, and the other way round.\<close>

lemma original_kept:
  assumes "ok h x" "copy h x = (h', y)" "a \<in> refs h' y"
  shows "val (store_cell h' a c) x = val h x"
proof -
  have x: "ok h' x" "val h' x = val h x" using copied [OF assms(1,2)] extended [OF assms(1), of h'] by auto
  have "a \<notin> refs h' x" using apart [OF assms(1,2)] assms(3) by blast
  then show ?thesis using stored [OF x(1)] x(2) by simp
qed

lemma copy_kept:
  assumes "ok h x" "copy h x = (h', y)" "a \<in> refs h' x"
  shows "val (store_cell h' a c) y = val h x"
proof -
  have y: "ok h' y" "val h' y = val h x" using copied [OF assms(1,2)] by auto
  have "a \<notin> refs h' y" using apart [OF assms(1,2)] assms(3) by blast
  then show ?thesis using stored [OF y(1)] y(2) by simp
qed

text \<open>Elements copied one after the other.\<close>

lemma list_copied:
  "list_all (ok h) xs \<Longrightarrow> copy_list copy h xs = (h', ys) \<Longrightarrow>
   extends h h' \<and> list_all (ok h') ys \<and> map (val h') ys = map (val h) xs \<and>
   (\<Union>y \<in> set ys. refs h' y) \<subseteq> {h_next h..<h_next h'}"
proof (induction xs arbitrary: h ys)
  case (Cons x xs)
  obtain h1 y where 1: "copy h x = (h1, y)" by fastforce
  obtain zs where 2: "copy_list copy h1 xs = (h', zs)" "ys = y # zs" using Cons.prems(2) 1 by (auto split: prod.splits)
  have c: "extends h h1" "ok h1 y" "val h1 y = val h x" "refs h1 y \<subseteq> {h_next h..<h_next h1}"
    using copied [OF _ 1] Cons.prems(1) by auto
  have all: "list_all (ok h1) xs" "map (val h1) xs = map (val h) xs"
    using Cons.prems(1) extended [OF _ c(1)] by (auto simp: list_all_iff)
  note r = Cons.IH [OF all(1) 2(1)]
  have "extends h h'" using c(1) r extends_trans by blast
  moreover have "ok h' y \<and> val h' y = val h1 y \<and> refs h' y = refs h1 y" using extended [OF c(2)] r by blast
  moreover have "h_next h \<le> h_next h1" "h_next h1 \<le> h_next h'" using c(1) r by (auto simp: extends_def)
  ultimately show ?case using c r all(2) unfolding 2 by fastforce
qed simp

end

subsection \<open>Interpretations: references\<close>

definition ptr_val :: "(cell \<Rightarrow> 'c option) \<Rightarrow> heap \<Rightarrow> nat option \<Rightarrow> 'c option" where
  "ptr_val proj h p = Option.bind p (load proj h)"

definition ptr_refs :: "heap \<Rightarrow> nat option \<Rightarrow> nat set" where
  "ptr_refs h p = set_option p"

definition ptr_ok :: "(cell \<Rightarrow> 'c option) \<Rightarrow> ('c \<Rightarrow> bool) \<Rightarrow> heap \<Rightarrow> nat option \<Rightarrow> bool" where
  "ptr_ok proj good h p =
     (case p of None \<Rightarrow> True
      | Some a \<Rightarrow> a < h_next h \<and> (case load proj h a of None \<Rightarrow> False | Some v \<Rightarrow> good v))"

lemmas ptr_defs = ptr_val_def ptr_refs_def ptr_ok_def copy_ptr_def load_def

lemma deep_copy_ptr:
  assumes "\<And>v. good v \<Longrightarrow> dup v = v" "\<And>v. proj (mk v) = Some v"
  shows "deep_copy (copy_ptr proj mk dup) (ptr_val proj) ptr_refs (ptr_ok proj good)"
proof
  fix h h' :: heap and x y :: "nat option"
  assume ok: "ptr_ok proj good h x"
  then show "ptr_refs h x \<subseteq> {..<h_next h}" by (auto simp: ptr_defs split: option.splits)
  show "ptr_ok proj good h' x \<and> ptr_val proj h' x = ptr_val proj h x \<and> ptr_refs h' x = ptr_refs h x"
    if "h_next h \<le> h_next h'" "\<And>a. a \<in> ptr_refs h x \<Longrightarrow> h_cells h' a = h_cells h a"
    using ok that by (cases x) (auto simp: ptr_defs)
  show "extends h h' \<and> ptr_ok proj good h' y \<and> ptr_val proj h' y = ptr_val proj h x \<and>
      ptr_refs h' y \<subseteq> {h_next h..<h_next h'}" if "copy_ptr proj mk dup h x = (h', y)"
    using ok that assms by (cases x) (auto simp: ptr_defs alloc_def extends_def split: option.splits Option.bind_splits)
qed

definition map_ok :: "heap \<Rightarrow> nat option \<Rightarrow> bool" where
  "map_ok = ptr_ok map_of_cell (\<lambda>al. distinct (map fst al))"

interpretation map_copy: deep_copy copy_map "ptr_val map_of_cell" ptr_refs map_ok
  unfolding map_ok_def by (rule deep_copy_ptr) (simp_all add: copy_range_Nil)

text \<open>A slice whose elements have references: its own cell and theirs.\<close>

definition slice_val :: "(cell \<Rightarrow> 'a list option) \<Rightarrow> (heap \<Rightarrow> 'a \<Rightarrow> 'v) \<Rightarrow> heap \<Rightarrow> nat option \<Rightarrow> 'v list" where
  "slice_val proj val h p = (case ptr_val proj h p of None \<Rightarrow> [] | Some xs \<Rightarrow> map (val h) xs)"

definition slice_refs :: "(cell \<Rightarrow> 'a list option) \<Rightarrow> (heap \<Rightarrow> 'a \<Rightarrow> nat set) \<Rightarrow> heap \<Rightarrow> nat option \<Rightarrow> nat set" where
  "slice_refs proj refs h p = set_option p \<union> (case ptr_val proj h p of None \<Rightarrow> {} | Some xs \<Rightarrow> \<Union>x \<in> set xs. refs h x)"

definition slice_ok :: "(cell \<Rightarrow> 'a list option) \<Rightarrow> (heap \<Rightarrow> 'a \<Rightarrow> bool) \<Rightarrow> heap \<Rightarrow> nat option \<Rightarrow> bool" where
  "slice_ok proj ok h p = ptr_ok proj (list_all (ok h)) h p"

lemma slice_cases:
  assumes "slice_ok proj ok h p"
  obtains (nil) "p = None"
    | (cell) a xs where "p = Some a" "a < h_next h" "load proj h a = Some xs" "list_all (ok h) xs"
  using assms by (cases p) (auto simp: slice_ok_def ptr_ok_def split: option.splits)

lemma deep_copy_slice:
  assumes A: "deep_copy copy val refs ok" and mk: "\<And>xs. proj (mk xs) = Some xs"
  shows "deep_copy (copy_slice proj mk copy) (slice_val proj val) (slice_refs proj refs) (slice_ok proj ok)"
proof
  note defs = slice_val_def slice_refs_def ptr_val_def
  fix h h' :: heap and x y :: "nat option"
  assume ok: "slice_ok proj ok h x"
  then show "slice_refs proj refs h x \<subseteq> {..<h_next h}"
    by (cases rule: slice_cases) (use deep_copy.refs_below [OF A] in \<open>fastforce simp: defs list_all_iff\<close>)+
  show "slice_ok proj ok h' x \<and> slice_val proj val h' x = slice_val proj val h x \<and>
      slice_refs proj refs h' x = slice_refs proj refs h x"
    if below: "h_next h \<le> h_next h'" and cells: "\<And>a. a \<in> slice_refs proj refs h x \<Longrightarrow> h_cells h' a = h_cells h a"
    using ok
  proof (cases rule: slice_cases)
    case (cell a xs)
    have load: "load proj h' a = Some xs" using cells [of a] cell by (simp add: defs load_def)
    have "ok h' z \<and> val h' z = val h z \<and> refs h' z = refs h z" if "z \<in> set xs" for z
      using deep_copy.frame [OF A, of h z h'] below cells cell that by (auto simp: defs list_all_iff)
    with cell load below show ?thesis by (auto simp: defs slice_ok_def ptr_ok_def list_all_iff)
  qed (simp add: defs slice_ok_def ptr_ok_def)
  show "extends h h' \<and> slice_ok proj ok h' y \<and> slice_val proj val h' y = slice_val proj val h x \<and>
      slice_refs proj refs h' y \<subseteq> {h_next h..<h_next h'}" if run: "copy_slice proj mk copy h x = (h', y)"
    using ok
  proof (cases rule: slice_cases)
    case nil
    with run show ?thesis by (simp add: copy_slice_def defs slice_ok_def ptr_ok_def)
  next
    case (cell a xs)
    obtain h1 ys where 1: "copy_list copy h xs = (h1, ys)" by fastforce
    have h': "alloc h1 (mk ys) = (h', h_next h1)" "y = Some (h_next h1)"
      using run cell 1 by (auto simp: copy_slice_def alloc_def)
    note c = deep_copy.list_copied [OF A cell(4) 1]
    have e: "extends h1 h'" using h'(1) by (rule extends_alloc)
    have load: "load proj h' (h_next h1) = Some ys" "h_next h' = Suc (h_next h1)"
      using h'(1) mk by (auto simp: alloc_def load_def)
    have each: "ok h' z \<and> val h' z = val h1 z \<and> refs h' z = refs h1 z" if "z \<in> set ys" for z
      using deep_copy.extended [OF A _ e] c that by (auto simp: list_all_iff)
    have "list_all (ok h') ys" using each by (simp add: list_all_iff)
    moreover have "map (val h') ys = map (val h) xs" using each c by (metis map_eq_conv)
    moreover have "(\<Union>z \<in> set ys. refs h' z) = (\<Union>z \<in> set ys. refs h1 z)" using each by simp
    then have "(\<Union>z \<in> set ys. refs h' z) \<subseteq> {h_next h..<h_next h'}" using c load(2) by auto
    moreover have "extends h h'" using c e extends_trans by blast
    moreover have "h_next h \<le> h_next h1" using c by (simp add: extends_def)
    ultimately show ?thesis using load cell(1,3) h'(2) by (simp add: defs slice_ok_def ptr_ok_def)
  qed
qed

text \<open>Two parts copied one after the other.\<close>

definition copy_pair :: "(heap \<Rightarrow> 'a \<Rightarrow> heap \<times> 'a) \<Rightarrow> (heap \<Rightarrow> 'b \<Rightarrow> heap \<times> 'b) \<Rightarrow> heap \<Rightarrow> 'a \<times> 'b \<Rightarrow> heap \<times> 'a \<times> 'b" where
  "copy_pair c1 c2 h p =
     (case c1 h (fst p) of (h1, x) \<Rightarrow> (case c2 h1 (snd p) of (h2, y) \<Rightarrow> (h2, (x, y))))"

lemma deep_copy_pair:
  assumes A: "deep_copy c1 v1 r1 o1" and B: "deep_copy c2 v2 r2 o2"
  shows "deep_copy (copy_pair c1 c2) (\<lambda>h p. (v1 h (fst p), v2 h (snd p))) (\<lambda>h p. r1 h (fst p) \<union> r2 h (snd p))
    (\<lambda>h p. o1 h (fst p) \<and> o2 h (snd p))"
proof
  fix h h' :: heap and p q
  assume ok: "o1 h (fst p) \<and> o2 h (snd p)"
  then show "r1 h (fst p) \<union> r2 h (snd p) \<subseteq> {..<h_next h}"
    using deep_copy.refs_below [OF A] deep_copy.refs_below [OF B] by blast
  show "(o1 h' (fst p) \<and> o2 h' (snd p)) \<and> (v1 h' (fst p), v2 h' (snd p)) = (v1 h (fst p), v2 h (snd p)) \<and>
      r1 h' (fst p) \<union> r2 h' (snd p) = r1 h (fst p) \<union> r2 h (snd p)"
    if "h_next h \<le> h_next h'" "\<And>a. a \<in> r1 h (fst p) \<union> r2 h (snd p) \<Longrightarrow> h_cells h' a = h_cells h a"
    using ok that deep_copy.frame [OF A, of h "fst p" h'] deep_copy.frame [OF B, of h "snd p" h'] by simp
  show "extends h h' \<and> (o1 h' (fst q) \<and> o2 h' (snd q)) \<and> (v1 h' (fst q), v2 h' (snd q)) = (v1 h (fst p), v2 h (snd p)) \<and>
      r1 h' (fst q) \<union> r2 h' (snd q) \<subseteq> {h_next h..<h_next h'}" if run: "copy_pair c1 c2 h p = (h', q)"
  proof -
    obtain h1 x y where 1: "c1 h (fst p) = (h1, x)" and 2: "c2 h1 (snd p) = (h', y)" and q: "q = (x, y)"
      using run by (auto simp: copy_pair_def split: prod.splits)
    have a: "extends h h1" "o1 h1 x" "v1 h1 x = v1 h (fst p)" "r1 h1 x \<subseteq> {h_next h..<h_next h1}"
      using deep_copy.copied [OF A _ 1] ok by auto
    have o: "o2 h1 (snd p)" "v2 h1 (snd p) = v2 h (snd p)" using deep_copy.extended [OF B _ a(1)] ok by auto
    have b: "extends h1 h'" "o2 h' y" "v2 h' y = v2 h1 (snd p)" "r2 h' y \<subseteq> {h_next h1..<h_next h'}"
      using deep_copy.copied [OF B o(1) 2] by auto
    have "o1 h' x \<and> v1 h' x = v1 h1 x \<and> r1 h' x = r1 h1 x" by (rule deep_copy.extended [OF A a(2) b(1)])
    moreover have "h_next h \<le> h_next h1" "h_next h1 \<le> h_next h'" using a(1) b(1) by (simp_all add: extends_def)
    ultimately show ?thesis using a b o extends_trans [OF a(1) b(1)] unfolding q by fastforce
  qed
qed

text \<open>The parts of a record that have references, copied into the record.\<close>

lemma deep_copy_field:
  assumes A: "deep_copy copy val refs ok"
    and "\<And>x y. get (put y x) = y" "\<And>x y. rest (put y x) = rest x"
    and "\<And>h x. copy' h x = (case copy h (get x) of (h', y) \<Rightarrow> (h', put y x))"
    and "\<And>h x. val' h x = F (rest x) (val h (get x))" "\<And>h x. refs' h x = refs h (get x)" "\<And>h x. ok' h x = ok h (get x)"
  shows "deep_copy copy' val' refs' ok'"
proof
  fix h h' :: heap and x y
  assume ok: "ok' h x"
  then show "refs' h x \<subseteq> {..<h_next h}" using deep_copy.refs_below [OF A] assms by simp
  show "ok' h' x \<and> val' h' x = val' h x \<and> refs' h' x = refs' h x"
    if "h_next h \<le> h_next h'" "\<And>a. a \<in> refs' h x \<Longrightarrow> h_cells h' a = h_cells h a"
    using deep_copy.frame [OF A, of h "get x" h'] ok that assms by simp
  show "extends h h' \<and> ok' h' y \<and> val' h' y = val' h x \<and> refs' h' y \<subseteq> {h_next h..<h_next h'}" if "copy' h x = (h', y)"
    using deep_copy.copied [OF A, of h "get x"] ok that assms by (auto split: prod.splits)
qed

subsection \<open>Interpretations: the methods\<close>

text \<open>The values of objects are those of the other theories; the address of a \<^verbatim>\<open>*bool\<close> is forgotten.\<close>

definition owner_val :: "heap \<Rightarrow> owner_h \<Rightarrow> owner_ref" where
  "owner_val h x =
     \<lparr> or_apiVersion = oh_apiVersion x, or_kind = oh_kind x, or_name = oh_name x, or_uid = oh_uid x,
       or_controller = map_option (Pair 0) (ptr_val bool_of_cell h (oh_controller x)) \<rparr>"

definition meta_val :: "heap \<Rightarrow> meta_h \<Rightarrow> object_meta" where
  "meta_val h x =
     \<lparr> m_name = mh_name x, m_namespace = mh_namespace x, m_labels = ptr_val map_of_cell h (mh_labels x),
       m_generation = mh_generation x, m_resourceVersion = mh_resourceVersion x,
       m_creationTimestamp = mh_creationTimestamp x,
       m_deletionTimestamp = ptr_val time_of_cell h (mh_deletionTimestamp x),
       m_ownerReferences = slice_val owners_of_cell owner_val h (mh_ownerReferences x),
       m_finalizers = (case ptr_val strings_of_cell h (mh_finalizers x) of None \<Rightarrow> [] | Some ss \<Rightarrow> ss) \<rparr>"

definition status_val :: "heap \<Rightarrow> status_h \<Rightarrow> rr_status" where
  "status_val h x =
     \<lparr> s_observedGeneration = th_observedGeneration x,
       s_conditions = (case ptr_val conditions_of_cell h (th_conditions x) of None \<Rightarrow> [] | Some cs \<Rightarrow> cs),
       s_annotations = ptr_val map_of_cell h (th_annotations x), s_data = th_data x \<rparr>"

definition rr_val :: "heap \<Rightarrow> rr_h \<Rightarrow> rr" where
  "rr_val h x =
     \<lparr> t_kind = rh_kind x, t_apiVersion = rh_apiVersion x, meta = meta_val h (rh_meta x),
       spec_params = ptr_val map_of_cell h (sh_params (rh_spec x)), rr_status = status_val h (rh_status x) \<rparr>"

definition list_val :: "heap \<Rightarrow> list_h \<Rightarrow> string \<times> string \<times> string \<times> rr list" where
  "list_val h x = (lh_kind x, lh_apiVersion x, lh_resourceVersion x, slice_val items_of_cell rr_val h (lh_items x))"

text \<open>The addresses an object reaches.\<close>

definition owner_refs :: "heap \<Rightarrow> owner_h \<Rightarrow> nat set" where
  "owner_refs h x = ptr_refs h (oh_controller x)"

definition meta_refs :: "heap \<Rightarrow> meta_h \<Rightarrow> nat set" where
  "meta_refs h x = ((ptr_refs h (mh_deletionTimestamp x) \<union> ptr_refs h (mh_labels x)) \<union>
     slice_refs owners_of_cell owner_refs h (mh_ownerReferences x)) \<union> ptr_refs h (mh_finalizers x)"

definition spec_refs :: "heap \<Rightarrow> spec_h \<Rightarrow> nat set" where
  "spec_refs h x = ptr_refs h (sh_params x)"

definition status_refs :: "heap \<Rightarrow> status_h \<Rightarrow> nat set" where
  "status_refs h x = ptr_refs h (th_conditions x) \<union> ptr_refs h (th_annotations x)"

definition rr_refs :: "heap \<Rightarrow> rr_h \<Rightarrow> nat set" where
  "rr_refs h x = (meta_refs h (rh_meta x) \<union> spec_refs h (rh_spec x)) \<union> status_refs h (rh_status x)"

text \<open>Well-typed objects: every reference leads to a cell of its type; the keys of maps are distinct.\<close>

definition owner_typed :: "heap \<Rightarrow> owner_h \<Rightarrow> bool" where
  "owner_typed h x = ptr_ok bool_of_cell (\<lambda>_. True) h (oh_controller x)"

definition meta_typed :: "heap \<Rightarrow> meta_h \<Rightarrow> bool" where
  "meta_typed h x \<longleftrightarrow> ((ptr_ok time_of_cell (\<lambda>_. True) h (mh_deletionTimestamp x) \<and> map_ok h (mh_labels x)) \<and>
     slice_ok owners_of_cell owner_typed h (mh_ownerReferences x)) \<and> ptr_ok strings_of_cell (\<lambda>_. True) h (mh_finalizers x)"

definition spec_typed :: "heap \<Rightarrow> spec_h \<Rightarrow> bool" where
  "spec_typed h x = map_ok h (sh_params x)"

definition status_typed :: "heap \<Rightarrow> status_h \<Rightarrow> bool" where
  "status_typed h x \<longleftrightarrow> ptr_ok conditions_of_cell (\<lambda>_. True) h (th_conditions x) \<and> map_ok h (th_annotations x)"

definition rr_typed :: "heap \<Rightarrow> rr_h \<Rightarrow> bool" where
  "rr_typed h x \<longleftrightarrow> (meta_typed h (rh_meta x) \<and> spec_typed h (rh_spec x)) \<and> status_typed h (rh_status x)"

interpretation bool_copy: deep_copy "copy_ptr bool_of_cell Bool_cell (\<lambda>b. b)" "ptr_val bool_of_cell" ptr_refs "ptr_ok bool_of_cell (\<lambda>_. True)"
  by (rule deep_copy_ptr) simp_all

interpretation time_copy: deep_copy "copy_ptr time_of_cell Time_cell (\<lambda>t. t)" "ptr_val time_of_cell" ptr_refs "ptr_ok time_of_cell (\<lambda>_. True)"
  by (rule deep_copy_ptr) simp_all

interpretation strings_copy: deep_copy "copy_ptr strings_of_cell Strings_cell (\<lambda>ss. ss)" "ptr_val strings_of_cell" ptr_refs "ptr_ok strings_of_cell (\<lambda>_. True)"
  by (rule deep_copy_ptr) simp_all

interpretation conditions_copy: deep_copy "copy_ptr conditions_of_cell Conditions_cell (\<lambda>cs. cs)" "ptr_val conditions_of_cell" ptr_refs
  "ptr_ok conditions_of_cell (\<lambda>_. True)"
  by (rule deep_copy_ptr) simp_all

interpretation owner_copy: deep_copy owner_DeepCopyInto owner_val owner_refs owner_typed
  by (rule deep_copy_field [OF bool_copy.deep_copy_axioms, where get = oh_controller and put = "\<lambda>v x. x\<lparr>oh_controller := v\<rparr>"
        and rest = "\<lambda>x. x\<lparr>oh_controller := None\<rparr>"
        and F = "\<lambda>x b. \<lparr> or_apiVersion = oh_apiVersion x, or_kind = oh_kind x, or_name = oh_name x, or_uid = oh_uid x,
          or_controller = map_option (Pair 0) b \<rparr>"])
    (simp_all add: owner_DeepCopyInto_def owner_val_def owner_refs_def owner_typed_def)

interpretation owners_copy: deep_copy "copy_slice owners_of_cell Owners_cell owner_DeepCopyInto" "slice_val owners_of_cell owner_val"
  "slice_refs owners_of_cell owner_refs" "slice_ok owners_of_cell owner_typed"
  by (rule deep_copy_slice [OF owner_copy.deep_copy_axioms]) simp

lemmas meta_parts = deep_copy_pair [OF deep_copy_pair [OF deep_copy_pair
  [OF time_copy.deep_copy_axioms map_copy.deep_copy_axioms] owners_copy.deep_copy_axioms] strings_copy.deep_copy_axioms]

interpretation meta_copy: deep_copy meta_DeepCopyInto meta_val meta_refs meta_typed
  by (rule deep_copy_field [OF meta_parts,
        where get = "\<lambda>x. (((mh_deletionTimestamp x, mh_labels x), mh_ownerReferences x), mh_finalizers x)"
        and put = "\<lambda>v x. x\<lparr>mh_deletionTimestamp := fst (fst (fst v)), mh_labels := snd (fst (fst v)),
          mh_ownerReferences := snd (fst v), mh_finalizers := snd v\<rparr>"
        and rest = "\<lambda>x. x\<lparr>mh_deletionTimestamp := None, mh_labels := None, mh_ownerReferences := None, mh_finalizers := None\<rparr>"
        and F = "\<lambda>x v. \<lparr> m_name = mh_name x, m_namespace = mh_namespace x, m_labels = snd (fst (fst v)),
          m_generation = mh_generation x, m_resourceVersion = mh_resourceVersion x, m_creationTimestamp = mh_creationTimestamp x,
          m_deletionTimestamp = fst (fst (fst v)), m_ownerReferences = snd (fst v),
          m_finalizers = (case snd v of None \<Rightarrow> [] | Some ss \<Rightarrow> ss) \<rparr>"])
    (simp_all add: meta_DeepCopyInto_def meta_val_def meta_refs_def meta_typed_def copy_pair_def split: prod.splits)

interpretation spec_copy: deep_copy spec_DeepCopyInto "\<lambda>h x. ptr_val map_of_cell h (sh_params x)" spec_refs spec_typed
  by (rule deep_copy_field [OF map_copy.deep_copy_axioms, where get = sh_params and put = "\<lambda>v x. x\<lparr>sh_params := v\<rparr>"
        and rest = "\<lambda>x. ()" and F = "\<lambda>_ v. v"])
    (simp_all add: spec_DeepCopyInto_def spec_refs_def spec_typed_def)

interpretation status_copy: deep_copy status_DeepCopyInto status_val status_refs status_typed
  by (rule deep_copy_field [OF deep_copy_pair [OF conditions_copy.deep_copy_axioms map_copy.deep_copy_axioms],
        where get = "\<lambda>x. (th_conditions x, th_annotations x)"
        and put = "\<lambda>v x. x\<lparr>th_conditions := fst v, th_annotations := snd v\<rparr>"
        and rest = "\<lambda>x. x\<lparr>th_conditions := None, th_annotations := None\<rparr>"
        and F = "\<lambda>x v. \<lparr> s_observedGeneration = th_observedGeneration x,
          s_conditions = (case fst v of None \<Rightarrow> [] | Some cs \<Rightarrow> cs), s_annotations = snd v, s_data = th_data x \<rparr>"])
    (simp_all add: status_DeepCopyInto_def status_val_def status_refs_def status_typed_def copy_pair_def split: prod.splits)

lemmas rr_parts = deep_copy_pair [OF deep_copy_pair [OF meta_copy.deep_copy_axioms spec_copy.deep_copy_axioms] status_copy.deep_copy_axioms]

interpretation rr_copy: deep_copy rr_DeepCopyInto rr_val rr_refs rr_typed
  by (rule deep_copy_field [OF rr_parts,
        where get = "\<lambda>x. ((rh_meta x, rh_spec x), rh_status x)"
        and put = "\<lambda>v x. x\<lparr>rh_meta := fst (fst v), rh_spec := snd (fst v), rh_status := snd v\<rparr>"
        and rest = "\<lambda>x. (rh_kind x, rh_apiVersion x)"
        and F = "\<lambda>k v. \<lparr> t_kind = fst k, t_apiVersion = snd k, meta = fst (fst v), spec_params = snd (fst v), rr_status = snd v \<rparr>"])
    (simp_all add: rr_DeepCopyInto_def rr_val_def rr_refs_def rr_typed_def copy_pair_def split: prod.splits)

interpretation items_copy: deep_copy "copy_slice items_of_cell Items_cell rr_DeepCopyInto" "slice_val items_of_cell rr_val"
  "slice_refs items_of_cell rr_refs" "slice_ok items_of_cell rr_typed"
  by (rule deep_copy_slice [OF rr_copy.deep_copy_axioms]) simp

definition list_refs :: "heap \<Rightarrow> list_h \<Rightarrow> nat set" where
  "list_refs h x = slice_refs items_of_cell rr_refs h (lh_items x)"

definition list_typed :: "heap \<Rightarrow> list_h \<Rightarrow> bool" where
  "list_typed h x = slice_ok items_of_cell rr_typed h (lh_items x)"

interpretation list_copy: deep_copy list_DeepCopyInto list_val list_refs list_typed
  by (rule deep_copy_field [OF items_copy.deep_copy_axioms, where get = lh_items and put = "\<lambda>v x. x\<lparr>lh_items := v\<rparr>"
        and rest = "\<lambda>x. (lh_kind x, lh_apiVersion x, lh_resourceVersion x)"
        and F = "\<lambda>k v. (fst k, fst (snd k), snd (snd k), v)"])
    (simp_all add: list_DeepCopyInto_def list_val_def list_refs_def list_typed_def)

subsection \<open>Properties\<close>


text \<open>A store with one labelled request, and the copy of it whose label is then overwritten.\<close>

definition example_heap :: heap where
  "example_heap = \<lparr> h_cells = [0 \<mapsto> Map_cell [(''resolution.tekton.dev/type'', ''git'')]], h_next = 1 \<rparr>"

definition example_object :: rr_h where
  "example_object =
     \<lparr> rh_kind = ''ResolutionRequest'', rh_apiVersion = ''resolution.tekton.dev/v1alpha1'',
       rh_meta = \<lparr> mh_name = ''git-1'', mh_namespace = ''ns'', mh_generation = 1, mh_resourceVersion = [],
         mh_creationTimestamp = 0, mh_deletionTimestamp = None, mh_labels = Some 0, mh_ownerReferences = None, mh_finalizers = None \<rparr>,
       rh_spec = \<lparr> sh_params = None \<rparr>,
       rh_status = \<lparr> th_observedGeneration = 0, th_conditions = None, th_annotations = None, th_data = [] \<rparr> \<rparr>"

lemma example_object_typed: "rr_typed example_heap example_object"
  by (simp add: rr_typed_def meta_typed_def spec_typed_def status_typed_def map_ok_def slice_ok_def ptr_ok_def load_def
      example_heap_def example_object_def)

lemma example_object_copy:
  "rr_DeepCopy example_heap (Some example_object) =
     (fst (alloc example_heap (Map_cell [(''resolution.tekton.dev/type'', ''git'')])),
      Some (example_object\<lparr>rh_meta := (rh_meta example_object)\<lparr>mh_labels := Some 1\<rparr>\<rparr>))"
  by (simp add: rr_DeepCopy_def rr_DeepCopyInto_def meta_DeepCopyInto_def spec_DeepCopyInto_def status_DeepCopyInto_def
      copy_ptr_def copy_slice_def load_def alloc_def example_heap_def example_object_def)


text \<open>Copying keeps the store well-typed: the copy of a well-typed list, the list itself and every other
  well-typed request lead to cells of the right types afterwards, and all three keep their
  values.\<close>

theorem deep_copy_typed:
  assumes "list_typed h l" "rr_typed h r" "list_DeepCopy h (Some l) = (h', m)"
  shows "\<exists>n. m = Some n \<and> list_typed h' n \<and> list_val h' n = list_val h l \<and>
    list_typed h' l \<and> list_val h' l = list_val h l \<and> rr_typed h' r \<and> rr_val h' r = rr_val h r"
proof -
  obtain n where n: "list_DeepCopyInto h l = (h', n)" "m = Some n"
    using assms(3) by (auto simp: list_DeepCopy_def split: prod.splits)
  note c = list_copy.copied [OF assms(1) n(1)]
  then show ?thesis using n(2) list_copy.extended [OF assms(1), of h'] rr_copy.extended [OF assms(2), of h'] by blast
qed

definition example_list :: list_h where
  "example_list = \<lparr> lh_kind = ''ResolutionRequestList'', lh_apiVersion = [], lh_resourceVersion = ''7'', lh_items = Some 1 \<rparr>"

definition example_list_heap :: heap where
  "example_list_heap = fst (alloc example_heap (Items_cell [example_object]))"

lemma example_list_typed: "list_typed example_list_heap example_list" "rr_typed example_list_heap example_object"
proof -
  have "extends example_heap example_list_heap" unfolding example_list_heap_def by (rule extends_alloc) (simp add: alloc_def)
  then show typed: "rr_typed example_list_heap example_object" using rr_copy.extended [OF example_object_typed] by blast
  then show "list_typed example_list_heap example_list"
    by (simp add: list_typed_def slice_ok_def ptr_ok_def load_def example_list_def)
      (simp add: example_list_heap_def alloc_def example_heap_def)
qed

theorem deep_copy_typed_witness:
  "\<exists>h' n. list_DeepCopy example_list_heap (Some example_list) = (h', Some n) \<and> list_typed h' n \<and>
     list_val h' n = list_val example_list_heap example_list"
proof -
  obtain h' m where "list_DeepCopy example_list_heap (Some example_list) = (h', m)" by fastforce
  with deep_copy_typed [OF example_list_typed this] show ?thesis by blast
qed

end
