(* ===== verification/Rest.thy ===== *)
theory Rest
  imports Registration
begin

section \<open>REST requests\<close>

text \<open>
  The part of client-go's \<^verbatim>\<open>rest\<close> package that the generated clients use: the request that is built up in
  a chain of calls, with the first error kept until it is sent (\<^verbatim>\<open>request.go\<close>), and the URL it
  is sent to. The API server and the connection to it (throttling, retries and the client-side
  timeout included) are a function of the world and the HTTP request, an argument of the
  definitions: \<^verbatim>\<open>'w \<Rightarrow> http_request \<Rightarrow> 'w \<times> json res\<close>. Bodies are JSON values; the media type of a request is
  the one of its body.
\<close>

subsection \<open>Package path\<close>

fun clean_segs :: "bool \<Rightarrow> string list \<Rightarrow> string list \<Rightarrow> string list" where
  "clean_segs rooted out [] = out"
| "clean_segs rooted out (s # ss) =
     clean_segs rooted
       (if s = [] \<or> s = ''.'' then out
        else if s = ''..'' then
          (if out \<noteq> [] \<and> last out \<noteq> ''..'' then butlast out else if rooted then out else out @ [s])
        else out @ [s]) ss"

definition path_clean :: "string \<Rightarrow> string" where
  "path_clean p =
     (if p = [] then ''.''
      else let rooted = (hd p = CHR ''/''); out = clean_segs rooted [] (split_on (CHR ''/'') p) in
        if rooted then CHR ''/'' # join ''/'' out else if out = [] then ''.'' else join ''/'' out)"

definition path_join :: "string list \<Rightarrow> string" where
  "path_join es =
     (let es' = filter (\<lambda>e. e \<noteq> []) es in if es' = [] then [] else path_clean (join ''/'' es'))"

subsection \<open>The request builder\<close>

record rest_client =
  rc_base :: string
  rc_versionedAPIPath :: string
  rc_timeout :: duration

type_synonym query = "(string \<times> string list) list"

record request =
  rq_verb :: string
  rq_pathPrefix :: string
  rq_params :: query
  rq_contentType :: string
  rq_timeout :: duration
  rq_namespace :: string
  rq_namespaceSet :: bool
  rq_resource :: string
  rq_resourceName :: string
  rq_subresource :: string
  rq_err :: "err option"
  rq_body :: "json option"

definition NewRequest :: "rest_client \<Rightarrow> string \<Rightarrow> request" where
  "NewRequest c verb =
     \<lparr> rq_verb = verb, rq_pathPrefix = path_join [''/'', rc_base c, rc_versionedAPIPath c], rq_params = [],
       rq_contentType = [], rq_timeout = rc_timeout c, rq_namespace = [], rq_namespaceSet = False, rq_resource = [],
       rq_resourceName = [], rq_subresource = [], rq_err = None, rq_body = None \<rparr>"

definition IsValidPathSegmentName :: "string \<Rightarrow> string list" where
  "IsValidPathSegmentName name =
     (if name = ''.'' then [''may not be '' @ [CHR 0x27] @ ''.'' @ [CHR 0x27]]
      else if name = ''..'' then [''may not be '' @ [CHR 0x27] @ ''..'' @ [CHR 0x27]]
      else (if CHR ''/'' \<in> set name then [''may not contain '' @ [CHR 0x27] @ ''/'' @ [CHR 0x27]] else []) @
           (if CHR ''%'' \<in> set name then [''may not contain '' @ [CHR 0x27] @ ''%'' @ [CHR 0x27]] else []))"

definition invalid :: "(nat \<Rightarrow> bool) \<Rightarrow> string \<Rightarrow> string \<Rightarrow> err" where
  "invalid ip what s =
     ErrorString (''invalid '' @ what @ '' '' @ quote ip s @ '': ['' @ join '' '' (IsValidPathSegmentName s) @ '']'')"

definition already_set :: "(nat \<Rightarrow> bool) \<Rightarrow> string \<Rightarrow> string \<Rightarrow> string \<Rightarrow> err" where
  "already_set ip what old new =
     ErrorString (what @ '' already set to '' @ quote ip old @ '', cannot change to '' @ quote ip new)"

text \<open>Every step leaves a request alone that has an error.\<close>

definition Namespace :: "(nat \<Rightarrow> bool) \<Rightarrow> string \<Rightarrow> request \<Rightarrow> request" where
  "Namespace ip ns r =
     (if rq_err r \<noteq> None then r
      else if rq_namespaceSet r then r\<lparr>rq_err := Some (already_set ip ''namespace'' (rq_namespace r) ns)\<rparr>
      else if IsValidPathSegmentName ns \<noteq> [] then r\<lparr>rq_err := Some (invalid ip ''namespace'' ns)\<rparr>
      else r\<lparr>rq_namespaceSet := True, rq_namespace := ns\<rparr>)"

definition Resource_of :: "(nat \<Rightarrow> bool) \<Rightarrow> string \<Rightarrow> request \<Rightarrow> request" where
  "Resource_of ip resource r =
     (if rq_err r \<noteq> None then r
      else if rq_resource r \<noteq> [] then r\<lparr>rq_err := Some (already_set ip ''resource'' (rq_resource r) resource)\<rparr>
      else if IsValidPathSegmentName resource \<noteq> [] then r\<lparr>rq_err := Some (invalid ip ''resource'' resource)\<rparr>
      else r\<lparr>rq_resource := resource\<rparr>)"

definition Name :: "(nat \<Rightarrow> bool) \<Rightarrow> string \<Rightarrow> request \<Rightarrow> request" where
  "Name ip name r =
     (if rq_err r \<noteq> None then r
      else if name = [] then r\<lparr>rq_err := Some (ErrorString ''resource name may not be empty'')\<rparr>
      else if rq_resourceName r \<noteq> [] then r\<lparr>rq_err := Some (already_set ip ''resource name'' (rq_resourceName r) name)\<rparr>
      else if IsValidPathSegmentName name \<noteq> [] then r\<lparr>rq_err := Some (invalid ip ''resource name'' name)\<rparr>
      else r\<lparr>rq_resourceName := name\<rparr>)"

definition SubResource :: "(nat \<Rightarrow> bool) \<Rightarrow> string list \<Rightarrow> request \<Rightarrow> request" where
  "SubResource ip subresources r =
     (if rq_err r \<noteq> None then r
      else let subresource = path_join subresources in
        if rq_subresource r \<noteq> [] then r\<lparr>rq_err := Some (already_set ip ''subresource'' (rq_subresource r) subresource)\<rparr>
        else case find (\<lambda>s. IsValidPathSegmentName s \<noteq> []) subresources of
            Some s \<Rightarrow> r\<lparr>rq_err := Some (invalid ip ''subresource'' s)\<rparr>
          | None \<Rightarrow> r\<lparr>rq_subresource := subresource\<rparr>)"

definition AbsPath :: "rest_client \<Rightarrow> string list \<Rightarrow> request \<Rightarrow> request" where
  "AbsPath c segments r =
     (if rq_err r \<noteq> None then r
      else r\<lparr>rq_pathPrefix := path_join [rc_base c, path_join segments]
              @ (if length segments = 1 \<and> (1 < length (rc_base c) \<or> 1 < length (hd segments)) \<and> has_suffix (hd segments) ''/''
                 then ''/'' else [])\<rparr>)"

definition add_params :: "query \<Rightarrow> query \<Rightarrow> query" where
  "add_params old new =
     foldl (\<lambda>q (k, vs). AList.update k ((case map_of q k of None \<Rightarrow> [] | Some ws \<Rightarrow> ws) @ vs) q) old new"

definition VersionedParams :: "query \<Rightarrow> request \<Rightarrow> request" where
  "VersionedParams params r = (if rq_err r \<noteq> None then r else r\<lparr>rq_params := add_params (rq_params r) params\<rparr>)"

definition Timeout :: "duration \<Rightarrow> request \<Rightarrow> request" where
  "Timeout d r = (if rq_err r \<noteq> None then r else r\<lparr>rq_timeout := d\<rparr>)"

definition SetContentType :: "string \<Rightarrow> request \<Rightarrow> request" where
  "SetContentType ct r = r\<lparr>rq_contentType := ct\<rparr>"

text \<open>A body of bytes keeps the content type; a body that is an object sets it.\<close>

definition Body_bytes :: "json \<Rightarrow> request \<Rightarrow> request" where
  "Body_bytes j r = (if rq_err r \<noteq> None then r else r\<lparr>rq_body := Some j\<rparr>)"

definition Body_object :: "json \<Rightarrow> request \<Rightarrow> request" where
  "Body_object j r = (if rq_err r \<noteq> None then r else r\<lparr>rq_body := Some j, rq_contentType := ''application/json''\<rparr>)"

subsection \<open>Sending\<close>

record http_request =
  hr_verb :: string
  hr_path :: string
  hr_query :: query
  hr_contentType :: string
  hr_body :: "json option"

type_synonym 'w server = "'w \<Rightarrow> http_request \<Rightarrow> 'w \<times> json res"

text \<open>The path of the URL; the names of resources are in lower case already.\<close>

definition URL_path :: "request \<Rightarrow> string" where
  "URL_path r =
     (let p = rq_pathPrefix r;
          p = (if rq_namespaceSet r \<and> rq_namespace r \<noteq> [] then path_join [p, ''namespaces'', rq_namespace r] else p);
          p = (if rq_resource r \<noteq> [] then path_join [p, rq_resource r] else p)
      in if rq_resourceName r \<noteq> [] \<or> rq_subresource r \<noteq> [] then path_join [p, rq_resourceName r, rq_subresource r] else p)"

definition URL_query :: "request \<Rightarrow> query" where
  "URL_query r =
     (if rq_timeout r \<noteq> 0 then AList.update ''timeout'' [duration_string (rq_timeout r)] (rq_params r) else rq_params r)"

definition requestPreflightCheck :: "request \<Rightarrow> err option" where
  "requestPreflightCheck r =
     (if \<not> rq_namespaceSet r \<or> rq_namespace r \<noteq> [] then None
      else if rq_verb r = ''POST'' then Some (ErrorString ''an empty namespace may not be set during creation'')
      else if rq_verb r \<in> {''GET'', ''PUT'', ''DELETE''} \<and> rq_resourceName r \<noteq> []
        then Some (ErrorString ''an empty namespace may not be set when a resource name is provided'')
      else None)"

definition newHTTPRequest :: "request \<Rightarrow> http_request" where
  "newHTTPRequest r =
     \<lparr> hr_verb = rq_verb r, hr_path = URL_path r, hr_query = URL_query r, hr_contentType = rq_contentType r, hr_body = rq_body r \<rparr>"

definition Do :: "'w server \<Rightarrow> 'w \<Rightarrow> request \<Rightarrow> 'w \<times> json res" where
  "Do srv w r =
     (case rq_err r of
        Some e \<Rightarrow> (w, Inl e)
      | None \<Rightarrow>
          (case requestPreflightCheck r of
             Some e \<Rightarrow> (w, Inl e)
           | None \<Rightarrow> srv w (newHTTPRequest r)))"

subsection \<open>Lemmas: paths\<close>

text \<open>The segments of a path that are not empty. A path is tidy when none of them is a dot or two.\<close>

definition segs :: "string \<Rightarrow> string list" where
  "segs p = filter (\<lambda>s. s \<noteq> []) (split_on (CHR ''/'') p)"

definition tidy :: "string \<Rightarrow> bool" where
  "tidy p \<longleftrightarrow> list_all (\<lambda>s. s \<noteq> ''.'' \<and> s \<noteq> ''..'') (segs p)"

definition valid_segment :: "string \<Rightarrow> bool" where
  "valid_segment s \<longleftrightarrow> s \<noteq> [] \<and> IsValidPathSegmentName s = []"

lemma valid_segment_iff:
  "valid_segment s \<longleftrightarrow> s \<noteq> [] \<and> s \<noteq> ''.'' \<and> s \<noteq> ''..'' \<and> CHR ''/'' \<notin> set s \<and> CHR ''%'' \<notin> set s"
  by (auto simp: valid_segment_def IsValidPathSegmentName_def)

lemma split_on_sep: "split_on sep (a @ sep # b) = split_on sep a @ split_on sep b"
  by (induction a) (auto split: list.splits)

lemma segs_Nil [simp]: "segs [] = []" "segs ''/'' = []"
  by (simp_all add: segs_def)

lemma segs_slash: "segs (a @ CHR ''/'' # b) = segs a @ segs b"
  by (simp add: segs_def split_on_sep)

lemma segs_rooted [simp]: "segs (CHR ''/'' # b) = segs b"
  using segs_slash [of "[]" b] by simp

lemma segs_join: "segs (join ''/'' es) = concat (map segs es)"
  by (induction "''/'' :: string" es rule: join.induct) (simp_all add: segs_slash)

lemma segs_single: "s \<noteq> [] \<Longrightarrow> CHR ''/'' \<notin> set s \<Longrightarrow> segs s = [s]"
  by (simp add: segs_def split_on_no_sep)

lemma segs_segment [simp]: "valid_segment s \<Longrightarrow> segs s = [s]"
  by (simp add: valid_segment_iff segs_single)

lemma tidy_segment [simp]: "valid_segment s \<Longrightarrow> tidy s"
  by (auto simp: tidy_def valid_segment_iff segs_single)

lemma clean_tidy:
  "list_all (\<lambda>s. s \<noteq> ''.'' \<and> s \<noteq> ''..'') (filter (\<lambda>s. s \<noteq> []) ss) \<Longrightarrow>
   clean_segs rooted out ss = out @ filter (\<lambda>s. s \<noteq> []) ss"
  by (induction rooted out ss rule: clean_segs.induct) auto

lemma path_clean_tidy:
  "tidy p \<Longrightarrow> p \<noteq> [] \<Longrightarrow> path_clean p =
     (if hd p = CHR ''/'' then CHR ''/'' # join ''/'' (segs p) else if segs p = [] then ''.'' else join ''/'' (segs p))"
  using clean_tidy [of "split_on (CHR ''/'') p"] by (simp add: path_clean_def tidy_def segs_def)

lemma tidy_join: "tidy (join ''/'' es) \<longleftrightarrow> list_all tidy es"
  by (auto simp: tidy_def segs_join list_all_iff)

lemma concat_segs_filter: "concat (map segs (filter (\<lambda>e. e \<noteq> []) es)) = concat (map segs es)"
  by (induction es) auto

lemma hd_join: "e \<noteq> [] \<Longrightarrow> hd (join ''/'' (e # es)) = hd e"
  by (cases es) auto

lemma concat_segments: "list_all valid_segment ss \<Longrightarrow> concat (map segs ss) = ss"
  by (induction ss) simp_all

text \<open>Joining tidy paths: below a rooted one, and without a root.\<close>

lemma path_join_rooted:
  assumes "list_all tidy (e # es)" "e \<noteq> []" "hd e = CHR ''/''"
  shows "path_join (e # es) = CHR ''/'' # join ''/'' (concat (map segs (e # es)))"
proof -
  let ?es = "filter (\<lambda>e. e \<noteq> []) es"
  have "tidy (join ''/'' (e # ?es))" using assms(1) by (simp add: tidy_join list_all_iff)
  moreover have "join ''/'' (e # ?es) \<noteq> []" using assms(2) by (cases ?es) auto
  ultimately show ?thesis
    using assms(2,3) path_clean_tidy [of "join ''/'' (e # ?es)"]
    by (simp add: path_join_def hd_join segs_join concat_segs_filter)
qed

lemma path_join_relative:
  assumes "list_all valid_segment (e # es)"
  shows "path_join (e # es) = join ''/'' (e # es)"
proof -
  have ne: "filter (\<lambda>e. e \<noteq> []) (e # es) = e # es"
    by (rule filter_True) (use assms in \<open>simp add: valid_segment_iff list_all_iff\<close>)
  have e: "e \<noteq> []" using assms by (simp add: valid_segment_iff)
  have "CHR ''/'' \<notin> set e" using assms by (simp add: valid_segment_iff)
  with hd_in_set [OF e] have root: "hd e \<noteq> CHR ''/''" by metis
  have "tidy (join ''/'' (e # es))" using assms by (auto simp: tidy_join list_all_iff)
  moreover have "concat (map segs (e # es)) = e # es"
    using concat_segments [OF assms] .
  moreover have "join ''/'' (e # es) \<noteq> []" using e by (cases es) auto
  ultimately show ?thesis
    using e root path_clean_tidy [of "join ''/'' (e # es)"] ne
    by (simp add: path_join_def hd_join segs_join)
qed

lemma tidy_rooted [simp]: "tidy (CHR ''/'' # p) = tidy p"
  by (simp add: tidy_def)

lemma segs_join_segments: "list_all valid_segment ss \<Longrightarrow> segs (join ''/'' ss) = ss"
  by (simp add: segs_join concat_segments)

lemma tidy_join_segments: "list_all valid_segment ss \<Longrightarrow> tidy (join ''/'' ss)"
  by (simp add: tidy_join list_all_iff)

lemma split_on_parts: "s \<in> set (split_on sep p) \<Longrightarrow> sep \<notin> set s"
  by (induction p arbitrary: s) (auto split: if_splits list.splits)

definition part :: "string \<Rightarrow> bool" where
  "part s \<longleftrightarrow> s \<noteq> [] \<and> CHR ''/'' \<notin> set s"

lemma segs_parts: "list_all part (segs p)"
  by (auto simp: segs_def part_def list_all_iff split_on_parts)

lemma valid_parts: "list_all valid_segment ss \<Longrightarrow> list_all part ss"
  by (auto simp: list_all_iff valid_segment_iff part_def)

lemma segs_join_parts: "list_all part ss \<Longrightarrow> segs (join ''/'' ss) = ss"
  unfolding segs_join by (induction ss) (simp_all add: segs_single part_def)

subsection \<open>Lemmas: the paths of the group version\<close>

text \<open>A client of the group version below a host's base path, and the paths of its resources.\<close>

definition base_ok :: "rest_client \<Rightarrow> bool" where
  "base_ok c \<longleftrightarrow> rc_base c \<noteq> [] \<and> hd (rc_base c) = CHR ''/'' \<and> tidy (rc_base c)"

definition api_root :: string where
  "api_root = ''/apis/resolution.tekton.dev/v1alpha1''"

definition api_path :: "rest_client \<Rightarrow> string list \<Rightarrow> string" where
  "api_path c rest =
     CHR ''/'' # join ''/'' (segs (rc_base c) @ [''apis'', ''resolution.tekton.dev'', ''v1alpha1''] @ rest)"

lemma segs_api_path:
  assumes "list_all valid_segment rest"
  shows "segs (api_path c rest) = segs (rc_base c) @ [''apis'', ''resolution.tekton.dev'', ''v1alpha1''] @ rest"
proof -
  have "list_all part [''apis'', ''resolution.tekton.dev'', ''v1alpha1'']" by (simp add: part_def)
  with valid_parts [OF assms] segs_parts [of "rc_base c"]
  have "list_all part (segs (rc_base c) @ [''apis'', ''resolution.tekton.dev'', ''v1alpha1''] @ rest)" by simp
  then show ?thesis unfolding api_path_def segs_rooted by (rule segs_join_parts)
qed

lemma api_path_inj:
  assumes "api_path c xs = api_path c ys" "list_all valid_segment xs" "list_all valid_segment ys"
  shows "xs = ys"
  using arg_cong [OF assms(1), of segs] unfolding segs_api_path [OF assms(2)] segs_api_path [OF assms(3)] by simp

lemma segs_api_root: "segs api_root = [''apis'', ''resolution.tekton.dev'', ''v1alpha1'']"
  by (simp add: api_root_def segs_def)

lemma api_prefix:
  assumes "base_ok c" "rc_versionedAPIPath c = api_root"
  shows "path_join [''/'', rc_base c, rc_versionedAPIPath c] = api_path c []"
proof -
  have "tidy ''/''" "tidy api_root" by (simp_all add: tidy_def segs_api_root)
  then show ?thesis using assms by (subst path_join_rooted) (simp_all add: base_ok_def api_path_def segs_api_root)
qed

lemma tidy_api_path:
  assumes "base_ok c" "list_all valid_segment rest"
  shows "tidy (api_path c rest)"
proof -
  have "list_all (\<lambda>s. s \<noteq> ''.'' \<and> s \<noteq> ''..'') rest" using assms(2) by (auto simp: list_all_iff valid_segment_iff)
  then show ?thesis using assms(1) unfolding tidy_def segs_api_path [OF assms(2)] by (simp add: base_ok_def tidy_def)
qed

lemma api_path_extend:
  assumes "base_ok c" "list_all valid_segment rest" "list_all valid_segment xs"
  shows "path_join (api_path c rest # xs) = api_path c (rest @ xs)"
proof -
  have "path_join (api_path c rest # xs) = CHR ''/'' # join ''/'' (concat (map segs (api_path c rest # xs)))"
  proof (rule path_join_rooted)
    have "list_all tidy xs" using assms(3) by (simp add: list_all_iff)
    then show "list_all tidy (api_path c rest # xs)" using tidy_api_path [OF assms(1,2)] by simp
  qed (simp_all add: api_path_def)
  also have "concat (map segs (api_path c rest # xs)) = segs (rc_base c) @ [''apis'', ''resolution.tekton.dev'', ''v1alpha1''] @ rest @ xs"
    using segs_api_path [OF assms(2)] concat_segments [OF assms(3)] by simp
  finally show ?thesis by (simp add: api_path_def)
qed

lemma path_join_skip: "path_join (a # [] # xs) = path_join (a # xs)" "path_join [a, x, []] = path_join [a, x]"
  by (simp_all add: path_join_def)

text \<open>An absolute path of the same segments.\<close>

lemma api_abs_path:
  assumes "base_ok c" "list_all valid_segment rest"
  shows "path_join [rc_base c, path_join ([''apis'', ''resolution.tekton.dev'', ''v1alpha1''] @ rest)] = api_path c rest"
proof -
  let ?ss = "[''apis'', ''resolution.tekton.dev'', ''v1alpha1''] @ rest"
  have v: "list_all valid_segment ?ss" using assms(2) by (simp add: valid_segment_iff)
  then have inner: "path_join ?ss = join ''/'' ?ss" using path_join_relative [of "''apis''"] by simp
  have "path_join [rc_base c, join ''/'' ?ss] = CHR ''/'' # join ''/'' (concat (map segs [rc_base c, join ''/'' ?ss]))"
    by (rule path_join_rooted) (use assms(1) tidy_join_segments [OF v] in \<open>simp_all add: base_ok_def\<close>)
  then show ?thesis unfolding inner using segs_join_segments [OF v] by (simp add: api_path_def)
qed

end
