(* ===== verification/Clientset.thy ===== *)
theory Clientset
  imports Rest Json_Patch
begin

section \<open>The generated clientset\<close>

text \<open>
  The typed client of ResolutionRequests (\<^verbatim>\<open>typed/resolution/v1alpha1/resolutionrequest.go\<close>), the client of
  the group version (\<^verbatim>\<open>resolution_client.go\<close>) and the clientset (\<^verbatim>\<open>clientset.go\<close>), over the requests of
  \<open>Rest\<close>. The options of an operation are the query parameters they encode to; of a \<^verbatim>\<open>ListOptions\<close>
  the two fields that the client looks at are kept apart. An object is encoded with the kind that
  the scheme has for its type and decoded without one (\<^verbatim>\<open>scheme.Codecs.WithoutConversion()\<close>); the decoder
  of the answer is case-sensitive in the names of fields, and a server writes them as they are
  declared.
\<close>

subsection \<open>Objects and options\<close>

definition rr_gvk :: gvk where
  "rr_gvk = \<lparr> k_group = ''resolution.tekton.dev'', k_version = ''v1alpha1'', k_kind = ''ResolutionRequest'' \<rparr>"

definition no_gvk :: gvk where
  "no_gvk = \<lparr> k_group = [], k_version = [], k_kind = [] \<rparr>"

definition Into :: "codec \<Rightarrow> json \<Rightarrow> rr res" where
  "Into cd j = map_sum id (SetGroupVersionKind no_gvk) (dec_rr cd False j)"

record rr_list =
  ls_kind :: string
  ls_apiVersion :: string
  ls_resourceVersion :: string
  ls_items :: "rr list"

definition empty_list :: rr_list where
  "empty_list = \<lparr> ls_kind = [], ls_apiVersion = [], ls_resourceVersion = [], ls_items = [] \<rparr>"

definition list_fields :: "codec \<Rightarrow> (string \<times> rr_list setter) list" where
  "list_fields cd =
     [(''kind'', fld ls_kind (\<lambda>v l. l\<lparr>ls_kind := v\<rparr>) (dec_str (cd_mm cd) ''kind'')),
      (''apiVersion'', fld ls_apiVersion (\<lambda>v l. l\<lparr>ls_apiVersion := v\<rparr>) (dec_str (cd_mm cd) ''apiVersion'')),
      (''metadata'', dec_struct (cd_mm cd) (cd_ip cd) False ''metadata''
         [(''resourceVersion'', fld ls_resourceVersion (\<lambda>v l. l\<lparr>ls_resourceVersion := v\<rparr>) (dec_str (cd_mm cd) ''resourceVersion''))]),
      (''items'', fld ls_items (\<lambda>v l. l\<lparr>ls_items := v\<rparr>) (\<lambda>j _. dec_list (cd_mm cd) ''items'' (dec_rr cd False) j))]"

definition dec_rr_list :: "codec \<Rightarrow> json \<Rightarrow> rr_list res" where
  "dec_rr_list cd j = dec_struct (cd_mm cd) (cd_ip cd) False ''ResolutionRequestList'' (list_fields cd) j empty_list"

definition Into_list :: "codec \<Rightarrow> json \<Rightarrow> rr_list res" where
  "Into_list cd j = map_sum id (\<lambda>l. l\<lparr>ls_kind := [], ls_apiVersion := []\<rparr>) (dec_rr_list cd j)"

record list_options =
  lo_params :: query
  lo_watch :: bool
  lo_timeoutSeconds :: "int option"

definition list_query :: "list_options \<Rightarrow> query" where
  "list_query opts =
     lo_params opts @ (if lo_watch opts then [(''watch'', [''true''])] else [])
     @ (case lo_timeoutSeconds opts of None \<Rightarrow> [] | Some n \<Rightarrow> [(''timeoutSeconds'', [itoa n])])"

text \<open>\<^verbatim>\<open>time.Duration(*opts.TimeoutSeconds) * time.Second\<close>, with the product at 64 bits.\<close>

definition list_timeout :: "list_options \<Rightarrow> duration" where
  "list_timeout opts = (case lo_timeoutSeconds opts of None \<Rightarrow> 0 | Some n \<Rightarrow> wrap64 (n * second))"

definition enc_delete_options :: "group_version \<Rightarrow> (string \<times> json) list \<Rightarrow> json" where
  "enc_delete_options gv opts = JObj ([(''kind'', enc_str ''DeleteOptions''), (''apiVersion'', enc_str (gv_string gv))] @ opts)"

subsection \<open>The typed client\<close>

definition answer_with :: "(json \<Rightarrow> 'a res) \<Rightarrow> 'w \<times> json res \<Rightarrow> 'w \<times> 'a res" where
  "answer_with dec x = (case x of (w, Inl e) \<Rightarrow> (w, Inl e) | (w, Inr j) \<Rightarrow> (w, dec j))"

text \<open>\<^verbatim>\<open>Error()\<close> of a result.\<close>

definition answer_error :: "'w \<times> json res \<Rightarrow> 'w \<times> err option" where
  "answer_error x = (case x of (w, Inl e) \<Rightarrow> (w, Some e) | (w, Inr _) \<Rightarrow> (w, None))"

definition rr_request :: "(nat \<Rightarrow> bool) \<Rightarrow> rest_client \<Rightarrow> string \<Rightarrow> string \<Rightarrow> request" where
  "rr_request ip c verb ns = Resource_of ip ''resolutionrequests'' (Namespace ip ns (NewRequest c verb))"

definition rest_Get :: "codec \<Rightarrow> 'w server \<Rightarrow> rest_client \<Rightarrow> string \<Rightarrow> 'w \<Rightarrow> string \<Rightarrow> query \<Rightarrow> 'w \<times> rr res" where
  "rest_Get cd srv c ns w name options =
     answer_with (Into cd)
       (Do srv w (VersionedParams options (Name (cd_ip cd) name (rr_request (cd_ip cd) c ''GET'' ns))))"

definition rest_List :: "codec \<Rightarrow> 'w server \<Rightarrow> rest_client \<Rightarrow> string \<Rightarrow> 'w \<Rightarrow> list_options \<Rightarrow> 'w \<times> rr_list res" where
  "rest_List cd srv c ns w opts =
     answer_with (Into_list cd)
       (Do srv w (Timeout (list_timeout opts) (VersionedParams (list_query opts) (rr_request (cd_ip cd) c ''GET'' ns))))"

text \<open>Opening a watch: the request that is sent, or the error of building it.\<close>

definition rest_Watch :: "codec \<Rightarrow> rest_client \<Rightarrow> string \<Rightarrow> list_options \<Rightarrow> http_request res" where
  "rest_Watch cd c ns opts =
     (let opts' = opts\<lparr>lo_watch := True\<rparr>;
          r = Timeout (list_timeout opts) (VersionedParams (list_query opts') (rr_request (cd_ip cd) c ''GET'' ns))
      in case rq_err r of Some e \<Rightarrow> Inl e | None \<Rightarrow> Inr (newHTTPRequest r))"

definition rest_Create :: "codec \<Rightarrow> 'w server \<Rightarrow> rest_client \<Rightarrow> string \<Rightarrow> 'w \<Rightarrow> rr \<Rightarrow> query \<Rightarrow> 'w \<times> rr res" where
  "rest_Create cd srv c ns w obj opts =
     answer_with (Into cd)
       (Do srv w (Body_object (enc_rr (SetGroupVersionKind rr_gvk obj))
         (VersionedParams opts (rr_request (cd_ip cd) c ''POST'' ns))))"

definition rest_Update :: "codec \<Rightarrow> 'w server \<Rightarrow> rest_client \<Rightarrow> string \<Rightarrow> 'w \<Rightarrow> rr \<Rightarrow> query \<Rightarrow> 'w \<times> rr res" where
  "rest_Update cd srv c ns w obj opts =
     answer_with (Into cd)
       (Do srv w (Body_object (enc_rr (SetGroupVersionKind rr_gvk obj))
         (VersionedParams opts (Name (cd_ip cd) (m_name (meta obj)) (rr_request (cd_ip cd) c ''PUT'' ns)))))"

definition rest_UpdateStatus :: "codec \<Rightarrow> 'w server \<Rightarrow> rest_client \<Rightarrow> string \<Rightarrow> 'w \<Rightarrow> rr \<Rightarrow> query \<Rightarrow> 'w \<times> rr res" where
  "rest_UpdateStatus cd srv c ns w obj opts =
     answer_with (Into cd)
       (Do srv w (Body_object (enc_rr (SetGroupVersionKind rr_gvk obj))
         (VersionedParams opts (SubResource (cd_ip cd) [''status'']
           (Name (cd_ip cd) (m_name (meta obj)) (rr_request (cd_ip cd) c ''PUT'' ns))))))"

definition rest_Delete :: "codec \<Rightarrow> 'w server \<Rightarrow> rest_client \<Rightarrow> string \<Rightarrow> 'w \<Rightarrow> string \<Rightarrow> (string \<times> json) list \<Rightarrow> 'w \<times> err option" where
  "rest_Delete cd srv c ns w name opts =
     answer_error
       (Do srv w (Body_object (enc_delete_options SchemeGroupVersion opts)
         (Name (cd_ip cd) name (rr_request (cd_ip cd) c ''DELETE'' ns))))"

definition rest_DeleteCollection ::
  "codec \<Rightarrow> 'w server \<Rightarrow> rest_client \<Rightarrow> string \<Rightarrow> 'w \<Rightarrow> (string \<times> json) list \<Rightarrow> list_options \<Rightarrow> 'w \<times> err option" where
  "rest_DeleteCollection cd srv c ns w opts listOpts =
     answer_error
       (Do srv w (Body_object (enc_delete_options SchemeGroupVersion opts)
         (Timeout (list_timeout listOpts) (VersionedParams (list_query listOpts) (rr_request (cd_ip cd) c ''DELETE'' ns)))))"

definition rest_Patch ::
  "codec \<Rightarrow> 'w server \<Rightarrow> rest_client \<Rightarrow> string \<Rightarrow> 'w \<Rightarrow> string \<Rightarrow> string \<Rightarrow> json \<Rightarrow> query \<Rightarrow> string list \<Rightarrow> 'w \<times> rr res" where
  "rest_Patch cd srv c ns w name pt data opts subresources =
     answer_with (Into cd)
       (Do srv w (Body_bytes data
         (VersionedParams opts (SubResource (cd_ip cd) subresources
           (Name (cd_ip cd) name (Resource_of (cd_ip cd) ''resolutionrequests'' (Namespace (cd_ip cd) ns
             (SetContentType pt (NewRequest c ''PATCH'')))))))))"

subsection \<open>The client of the group version\<close>

text \<open>What is read of a \<^verbatim>\<open>rest.Config\<close>. A rate limiter is one that the caller gave or a token bucket; QPS
  is a float of which only the sign is looked at. The host is the path of its URL, or the error of
  parsing it.\<close>

datatype limiter = Given nat | TokenBucket int int

record rest_config =
  cf_host :: "string res"
  cf_QPS :: int
  cf_Burst :: int
  cf_RateLimiter :: "limiter option"
  cf_UserAgent :: string
  cf_APIPath :: string
  cf_GroupVersion :: "group_version option"
  cf_Serializer :: "string option"
  cf_Timeout :: duration

definition setConfigDefaults :: "string \<Rightarrow> rest_config \<Rightarrow> rest_config" where
  "setConfigDefaults userAgent config =
     (let config = config\<lparr>cf_GroupVersion := Some SchemeGroupVersion, cf_APIPath := ''/apis'', cf_Serializer := Some ''WithoutConversion''\<rparr>
      in if cf_UserAgent config = [] then config\<lparr>cf_UserAgent := userAgent\<rparr> else config)"

definition DefaultVersionedAPIPath :: "string \<Rightarrow> group_version \<Rightarrow> string" where
  "DefaultVersionedAPIPath apiPath gv =
     (let p = path_join [''/'', apiPath] in
      if gv_group gv \<noteq> [] then path_join [p, gv_group gv, gv_version gv] else path_join [p, gv_version gv])"

definition RESTClientForConfigAndClient :: "rest_config \<Rightarrow> (rest_client \<times> limiter option) res" where
  "RESTClientForConfigAndClient config =
     (case cf_GroupVersion config of
        None \<Rightarrow> Inl (ErrorString ''GroupVersion is required when initializing a RESTClient'')
      | Some gv \<Rightarrow>
          if cf_Serializer config = None then Inl (ErrorString ''NegotiatedSerializer is required when initializing a RESTClient'')
          else case cf_host config of
            Inl e \<Rightarrow> Inl e
          | Inr base \<Rightarrow>
              let qps = (if cf_QPS config = 0 then 5 else cf_QPS config);
                  burst = (if cf_Burst config = 0 then 10 else cf_Burst config);
                  lim = (case cf_RateLimiter config of
                           Some l \<Rightarrow> Some l
                         | None \<Rightarrow> if 0 < qps then Some (TokenBucket qps burst) else None)
              in Inr (\<lparr> rc_base = (if has_suffix base ''/'' then base else base @ ''/''),
                        rc_versionedAPIPath = DefaultVersionedAPIPath (cf_APIPath config) gv,
                        rc_timeout = cf_Timeout config \<rparr>, lim))"

definition v1alpha1_NewForConfigAndClient :: "string \<Rightarrow> rest_config \<Rightarrow> (rest_client \<times> limiter option) res" where
  "v1alpha1_NewForConfigAndClient userAgent c = RESTClientForConfigAndClient (setConfigDefaults userAgent c)"

text \<open>\<open>httpErr\<close> is the error of \<^verbatim>\<open>rest.HTTPClientFor\<close>, which looks at the certificates of the configuration.\<close>

definition v1alpha1_NewForConfig :: "string \<Rightarrow> err option \<Rightarrow> rest_config \<Rightarrow> (rest_client \<times> limiter option) res" where
  "v1alpha1_NewForConfig userAgent httpErr c =
     (let config = setConfigDefaults userAgent c in
      case httpErr of Some e \<Rightarrow> Inl e | None \<Rightarrow> v1alpha1_NewForConfigAndClient userAgent config)"

text \<open>A panic is \<open>None\<close>.\<close>

definition v1alpha1_NewForConfigOrDie :: "string \<Rightarrow> err option \<Rightarrow> rest_config \<Rightarrow> (rest_client \<times> limiter option) option" where
  "v1alpha1_NewForConfigOrDie userAgent httpErr c =
     (case v1alpha1_NewForConfig userAgent httpErr c of Inl _ \<Rightarrow> None | Inr x \<Rightarrow> Some x)"

subsection \<open>The clientset\<close>

text \<open>The discovery client is built from the same configuration; \<open>discovery\<close> is its constructor.\<close>

record 'd clientset =
  cs_resolutionV1alpha1 :: "rest_client \<times> limiter option"
  cs_DiscoveryClient :: 'd

definition NewForConfigAndClient :: "string \<Rightarrow> (rest_config \<Rightarrow> 'd res) \<Rightarrow> rest_config \<Rightarrow> 'd clientset res" where
  "NewForConfigAndClient userAgent discovery c =
     (if cf_RateLimiter c = None \<and> 0 < cf_QPS c \<and> cf_Burst c \<le> 0 then
        Inl (ErrorString ''burst is required to be greater than 0 when RateLimiter is not set and QPS is set to greater than 0'')
      else let config =
               (if cf_RateLimiter c = None \<and> 0 < cf_QPS c then c\<lparr>cf_RateLimiter := Some (TokenBucket (cf_QPS c) (cf_Burst c))\<rparr>
                else c)
           in case v1alpha1_NewForConfigAndClient userAgent config of
                Inl e \<Rightarrow> Inl e
              | Inr v1 \<Rightarrow>
                  (case discovery config of
                     Inl e \<Rightarrow> Inl e
                   | Inr d \<Rightarrow> Inr \<lparr> cs_resolutionV1alpha1 = v1, cs_DiscoveryClient = d \<rparr>))"

definition NewForConfig :: "string \<Rightarrow> (rest_config \<Rightarrow> 'd res) \<Rightarrow> err option \<Rightarrow> rest_config \<Rightarrow> 'd clientset res" where
  "NewForConfig userAgent discovery httpErr c =
     (case httpErr of Some e \<Rightarrow> Inl e | None \<Rightarrow> NewForConfigAndClient userAgent discovery c)"

definition NewForConfigOrDie :: "string \<Rightarrow> (rest_config \<Rightarrow> 'd res) \<Rightarrow> err option \<Rightarrow> rest_config \<Rightarrow> 'd clientset option" where
  "NewForConfigOrDie userAgent discovery httpErr c =
     (case NewForConfig userAgent discovery httpErr c of Inl _ \<Rightarrow> None | Inr cs \<Rightarrow> Some cs)"

text \<open>A nil clientset has no discovery client.\<close>

definition Discovery :: "'d clientset option \<Rightarrow> 'd option" where
  "Discovery c = (case c of None \<Rightarrow> None | Some cs \<Rightarrow> Some (cs_DiscoveryClient cs))"

text \<open>\<^verbatim>\<open>New\<close>: both clients over one REST client, which keeps its own limiter.\<close>

definition clientset_New :: "(rest_client \<Rightarrow> 'd) \<Rightarrow> rest_client \<times> limiter option \<Rightarrow> 'd clientset" where
  "clientset_New discovery c = \<lparr> cs_resolutionV1alpha1 = c, cs_DiscoveryClient = discovery (fst c) \<rparr>"

subsection \<open>Lemmas: the requests that are sent\<close>

text \<open>The HTTP request for a path of the namespaced resource.\<close>

definition rr_http :: "rest_client \<Rightarrow> duration \<Rightarrow> string \<Rightarrow> string \<Rightarrow> string list \<Rightarrow> query \<Rightarrow> string \<Rightarrow> json option \<Rightarrow> http_request" where
  "rr_http c d verb ns rest params ct body =
     \<lparr> hr_verb = verb, hr_path = api_path c ([''namespaces'', ns, ''resolutionrequests''] @ rest),
       hr_query = (let q = add_params [] params in if d \<noteq> 0 then AList.update ''timeout'' [duration_string d] q else q),
       hr_contentType = ct, hr_body = body \<rparr>"

definition client_ok :: "rest_client \<Rightarrow> bool" where
  "client_ok c \<longleftrightarrow> base_ok c \<and> rc_versionedAPIPath c = api_root"

lemma segment_consts [simp]:
  "valid_segment ''namespaces''" "valid_segment ''resolutionrequests''" "valid_segment ''status''"
  by (simp_all add: valid_segment_iff)

lemma path_join_status [simp]: "path_join [''status''] = ''status''" "path_join [] = []"
  using path_join_relative [of "''status''" "[]"] by (simp_all add: path_join_def)

lemma IsValid_iff: "valid_segment s \<Longrightarrow> IsValidPathSegmentName s = []" "valid_segment s \<Longrightarrow> s \<noteq> []"
  by (simp_all add: valid_segment_def)

lemma rr_request_ok:
  assumes "valid_segment ns"
  shows "rr_request ip c verb ns = (NewRequest c verb)\<lparr>rq_namespaceSet := True, rq_namespace := ns, rq_resource := ''resolutionrequests''\<rparr>"
proof -
  have "IsValidPathSegmentName ''resolutionrequests'' = []" by (rule IsValid_iff) simp
  with assms show ?thesis by (simp add: rr_request_def Namespace_def Resource_of_def NewRequest_def IsValid_iff)
qed

text \<open>The URL of a request of the typed client.\<close>

lemma rr_url:
  assumes "client_ok c" "valid_segment (rq_namespace r)"
    and "rq_pathPrefix r = api_path c []" "rq_namespaceSet r" "rq_resource r = ''resolutionrequests''"
    and "rq_resourceName r = [] \<or> valid_segment (rq_resourceName r)"
    and "rq_subresource r = [] \<or> rq_resourceName r \<noteq> [] \<and> valid_segment (rq_subresource r)"
  shows "URL_path r = api_path c ([''namespaces'', rq_namespace r, ''resolutionrequests'']
    @ filter (\<lambda>s. s \<noteq> []) [rq_resourceName r, rq_subresource r])"
proof -
  have b: "base_ok c" using assms(1) by (simp add: client_ok_def)
  let ?ns = "rq_namespace r" and ?name = "rq_resourceName r" and ?sub = "rq_subresource r"
  let ?p = "[''namespaces'', ?ns, ''resolutionrequests'']"
  have 1: "path_join [api_path c [], ''namespaces'', ?ns] = api_path c [''namespaces'', ?ns]"
    using api_path_extend [OF b, of "[]" "[''namespaces'', ?ns]"] assms(2) by simp
  have 2: "path_join [api_path c [''namespaces'', ?ns], ''resolutionrequests''] = api_path c ?p"
    using api_path_extend [OF b, of "[''namespaces'', ?ns]" "[''resolutionrequests'']"] assms(2) by simp
  have v: "list_all valid_segment ?p" using assms(2) by simp
  have 3: "path_join [api_path c ?p, ?name, ?sub] = api_path c (?p @ [?name, ?sub])" if "valid_segment ?name" "valid_segment ?sub"
    using api_path_extend [OF b v, of "[?name, ?sub]"] that by simp
  have 4: "path_join [api_path c ?p, ?name, []] = api_path c (?p @ [?name])" if "valid_segment ?name"
    using api_path_extend [OF b v, of "[?name]"] that by (simp add: path_join_skip)
  show ?thesis
    using assms(2-) 1 2 3 4 IsValid_iff(2) [of ?ns] IsValid_iff(2) [of ?name] by (auto simp: URL_path_def Let_def)
qed

lemma NewRequest_prefix: "client_ok c \<Longrightarrow> rq_pathPrefix (NewRequest c verb) = api_path c []"
  using api_prefix [of c] by (simp add: NewRequest_def client_ok_def)

lemma NewRequest_sel:
  "rq_err (NewRequest c v) = None" "rq_params (NewRequest c v) = []" "rq_timeout (NewRequest c v) = rc_timeout c"
  "rq_resourceName (NewRequest c v) = []" "rq_subresource (NewRequest c v) = []" "rq_verb (NewRequest c v) = v"
  "rq_contentType (NewRequest c v) = []" "rq_body (NewRequest c v) = None" "rq_namespaceSet (NewRequest c v) = False"
  "rq_resource (NewRequest c v) = []"
  by (simp_all add: NewRequest_def)

lemma IsValid_consts: "IsValidPathSegmentName ''status'' = []" "IsValidPathSegmentName ''resolutionrequests'' = []"
  by (rule IsValid_iff, simp)+

lemmas rest_defs = rest_Get_def rest_Create_def rest_Update_def rest_UpdateStatus_def rest_List_def rest_Patch_def
  Namespace_def Resource_of_def

lemmas builder_defs = VersionedParams_def Name_def SubResource_def Body_object_def Body_bytes_def Timeout_def SetContentType_def

lemma Do_ok:
  "rq_err r = None \<Longrightarrow> \<not> rq_namespaceSet r \<or> rq_namespace r \<noteq> [] \<Longrightarrow> Do srv w r = srv w (newHTTPRequest r)"
  by (auto simp: Do_def requestPreflightCheck_def)

lemma rest_requests:
  assumes "client_ok c" "valid_segment ns"
  shows "valid_segment name \<Longrightarrow> rest_Get cd srv c ns w name q =
      answer_with (Into cd) (srv w (rr_http c (rc_timeout c) ''GET'' ns [name] q [] None))"
    and "rest_Create cd srv c ns w obj q =
      answer_with (Into cd) (srv w (rr_http c (rc_timeout c) ''POST'' ns [] q ''application/json'' (Some (enc_rr (SetGroupVersionKind rr_gvk obj)))))"
    and "valid_segment (m_name (meta obj)) \<Longrightarrow> rest_Update cd srv c ns w obj q =
      answer_with (Into cd) (srv w (rr_http c (rc_timeout c) ''PUT'' ns [m_name (meta obj)] q ''application/json'' (Some (enc_rr (SetGroupVersionKind rr_gvk obj)))))"
    and "valid_segment (m_name (meta obj)) \<Longrightarrow> rest_UpdateStatus cd srv c ns w obj q =
      answer_with (Into cd) (srv w (rr_http c (rc_timeout c) ''PUT'' ns [m_name (meta obj), ''status''] q ''application/json'' (Some (enc_rr (SetGroupVersionKind rr_gvk obj)))))"
    and "rest_List cd srv c ns w lo =
      answer_with (Into_list cd) (srv w (rr_http c (list_timeout lo) ''GET'' ns [] (list_query lo) [] None))"
    and "valid_segment name \<Longrightarrow> rest_Patch cd srv c ns w name pt data q [''status''] =
      answer_with (Into cd) (srv w (rr_http c (rc_timeout c) ''PATCH'' ns [name, ''status''] q pt (Some data)))"
    and "valid_segment name \<Longrightarrow> rest_Patch cd srv c ns w name pt data q [] =
      answer_with (Into cd) (srv w (rr_http c (rc_timeout c) ''PATCH'' ns [name] q pt (Some data)))"
  using assms
  by (simp_all add: rest_defs builder_defs rr_request_ok IsValid_iff IsValid_consts NewRequest_sel newHTTPRequest_def rr_http_def
      URL_query_def rr_url NewRequest_prefix Do_ok)

subsection \<open>Properties\<close>

text \<open>What a configuration makes of the rate limiter: the caller's, a token bucket with the configured
  rate, or one with the defaults of client-go; a negative rate turns it off.\<close>

definition config_limiter :: "rest_config \<Rightarrow> limiter option" where
  "config_limiter c =
     (case cf_RateLimiter c of
        Some l \<Rightarrow> Some l
      | None \<Rightarrow>
          if 0 < cf_QPS c then Some (TokenBucket (cf_QPS c) (cf_Burst c))
          else if cf_QPS c = 0 then Some (TokenBucket 5 (if cf_Burst c = 0 then 10 else cf_Burst c))
          else None)"

lemma versioned_path: "DefaultVersionedAPIPath ''/apis'' SchemeGroupVersion = api_root"
proof -
  have t: "tidy ''/''" "tidy ''/apis''" "tidy ''resolution.tekton.dev''" "tidy ''v1alpha1''"
    and s: "segs ''/apis'' = [''apis'']" "segs ''resolution.tekton.dev'' = [''resolution.tekton.dev'']" "segs ''v1alpha1'' = [''v1alpha1'']"
    by (simp_all add: tidy_def segs_def)
  have "path_join [''/'', ''/apis''] = ''/apis''" using path_join_rooted [of "''/''" "[''/apis'']"] t s by simp
  then show ?thesis
    using path_join_rooted [of "''/apis''" "[''resolution.tekton.dev'', ''v1alpha1'']"] t s
    by (simp add: DefaultVersionedAPIPath_def SchemeGroupVersion_def GroupName_def api_root_def)
qed

lemma setConfigDefaults_sel:
  "cf_GroupVersion (setConfigDefaults ua c) = Some SchemeGroupVersion" "cf_APIPath (setConfigDefaults ua c) = ''/apis''"
  "cf_Serializer (setConfigDefaults ua c) \<noteq> None" "cf_host (setConfigDefaults ua c) = cf_host c"
  "cf_QPS (setConfigDefaults ua c) = cf_QPS c" "cf_Burst (setConfigDefaults ua c) = cf_Burst c"
  "cf_RateLimiter (setConfigDefaults ua c) = cf_RateLimiter c" "cf_Timeout (setConfigDefaults ua c) = cf_Timeout c"
  by (simp_all add: setConfigDefaults_def Let_def)

text \<open>Building the clientset from a configuration fails exactly when the transport cannot be built, the host
  is not a URL, the discovery client fails, or a positive rate comes without a burst and without a
  rate limiter; otherwise the client of the group version sends its requests below
  \<^verbatim>\<open>/apis/resolution.tekton.dev/v1alpha1\<close> of the host, and the typed and the discovery client share the rate
  limiter that the configuration asks for.\<close>

theorem clientset_for_config:
  "case NewForConfig ua (\<lambda>c. if bad then Inl e else Inr (cf_RateLimiter c)) httpErr c of
     Inl _ \<Rightarrow> (\<exists>x. httpErr = Some x) \<or> is_err (cf_host c) \<or> bad \<or> (cf_RateLimiter c = None \<and> 0 < cf_QPS c \<and> cf_Burst c \<le> 0)
   | Inr cs \<Rightarrow>
       httpErr = None \<and> \<not> bad \<and> \<not> (cf_RateLimiter c = None \<and> 0 < cf_QPS c \<and> cf_Burst c \<le> 0) \<and>
       snd (cs_resolutionV1alpha1 cs) = config_limiter c \<and>
       cs_DiscoveryClient cs = (if cf_QPS c \<le> 0 then cf_RateLimiter c else config_limiter c) \<and>
       rc_versionedAPIPath (fst (cs_resolutionV1alpha1 cs)) = api_root"
  by (auto simp: NewForConfig_def NewForConfigAndClient_def v1alpha1_NewForConfigAndClient_def RESTClientForConfigAndClient_def
      setConfigDefaults_sel versioned_path config_limiter_def Let_def split: option.splits sum.splits)

end
