(* ===== verification/Dynamic_Client.thy ===== *)
theory Dynamic_Client
  imports Clientset
begin

section \<open>The client over the dynamic client\<close>

text \<open>
  \<^verbatim>\<open>pkg/client/injection/client/client.go\<close>: the implementation of the typed interface on top of client-go's
  dynamic client (\<^verbatim>\<open>dynamic/simple.go\<close>), which sends and receives objects without a Go type. An
  object is converted by marshalling it and decoding the document. The members of a document keep
  their order here; Go sorts them on the way. Where Go panics because an answer is a list, the
  model has the error \<open>not_unstructured\<close>.
\<close>

subsection \<open>The dynamic client\<close>

definition makeURLSegments :: "gvr \<Rightarrow> string \<Rightarrow> string \<Rightarrow> string list" where
  "makeURLSegments res ns name =
     (if r_group res = [] then [''api''] else [''apis'', r_group res]) @ [r_version res]
     @ (if ns \<noteq> [] then [''namespaces'', ns] else []) @ [r_resource res] @ (if name \<noteq> [] then [name] else [])"

definition name_required :: err where
  "name_required = ErrorString ''name is required''"

definition not_unstructured :: err where
  "not_unstructured = ErrorString ''interface conversion: runtime.Object is *unstructured.UnstructuredList, not *unstructured.Unstructured''"

text \<open>A string member of a document, empty where it is missing or something else.\<close>

definition doc_string :: "json \<Rightarrow> string \<Rightarrow> string" where
  "doc_string j name =
     (case j of JObj ms \<Rightarrow> (case map_of (rev ms) name of Some (JStr s) \<Rightarrow> s | _ \<Rightarrow> []) | _ \<Rightarrow> [])"

definition doc_name :: "json \<Rightarrow> string" where
  "doc_name j =
     (case j of JObj ms \<Rightarrow> (case map_of (rev ms) ''metadata'' of Some m \<Rightarrow> doc_string m ''name'' | _ \<Rightarrow> []) | _ \<Rightarrow> [])"

definition has_items :: "json \<Rightarrow> bool" where
  "has_items j = (case j of JObj ms \<Rightarrow> (case map_of (rev ms) ''items'' of Some v \<Rightarrow> True | None \<Rightarrow> False) | _ \<Rightarrow> False)"

text \<open>The codec of unstructured objects wants a kind.\<close>

definition decodeUnstructured :: "codec \<Rightarrow> json \<Rightarrow> json res" where
  "decodeUnstructured cd j =
     (case j of
        JObj _ \<Rightarrow> if doc_string j ''kind'' = [] then Inl (ErrorString (''Object '' @ [CHR 0x27] @ ''Kind'' @ [CHR 0x27] @ '' is missing''))
                  else Inr j
      | _ \<Rightarrow> Inl (ErrorString (cd_mm cd ''object'' j)))"

definition dyn_decode :: "codec \<Rightarrow> json \<Rightarrow> json res" where
  "dyn_decode cd j = (if has_items j then Inl not_unstructured else decodeUnstructured cd j)"

definition rr_resource_gvr :: gvr where
  "rr_resource_gvr = \<lparr> r_group = ''resolution.tekton.dev'', r_version = ''v1alpha1'', r_resource = ''resolutionrequests'' \<rparr>"

definition dyn_Create :: "codec \<Rightarrow> 'w server \<Rightarrow> rest_client \<Rightarrow> string \<Rightarrow> 'w \<Rightarrow> json \<Rightarrow> query \<Rightarrow> 'w \<times> json res" where
  "dyn_Create cd srv c ns w obj opts =
     answer_with (dyn_decode cd)
       (Do srv w (VersionedParams opts (Body_bytes obj (SetContentType ''application/json''
         (AbsPath c (makeURLSegments rr_resource_gvr ns []) (NewRequest c ''POST''))))))"

definition dyn_Update :: "codec \<Rightarrow> 'w server \<Rightarrow> rest_client \<Rightarrow> string \<Rightarrow> 'w \<Rightarrow> json \<Rightarrow> query \<Rightarrow> string list \<Rightarrow> 'w \<times> json res" where
  "dyn_Update cd srv c ns w obj opts subresources =
     (if doc_name obj = [] then (w, Inl name_required)
      else answer_with (dyn_decode cd)
        (Do srv w (VersionedParams opts (Body_bytes obj (SetContentType ''application/json''
          (AbsPath c (makeURLSegments rr_resource_gvr ns (doc_name obj) @ subresources) (NewRequest c ''PUT'')))))))"

definition dyn_UpdateStatus :: "codec \<Rightarrow> 'w server \<Rightarrow> rest_client \<Rightarrow> string \<Rightarrow> 'w \<Rightarrow> json \<Rightarrow> query \<Rightarrow> 'w \<times> json res" where
  "dyn_UpdateStatus cd srv c ns w obj opts = dyn_Update cd srv c ns w obj opts [''status'']"

definition dyn_Delete :: "codec \<Rightarrow> 'w server \<Rightarrow> rest_client \<Rightarrow> string \<Rightarrow> 'w \<Rightarrow> string \<Rightarrow> (string \<times> json) list \<Rightarrow> 'w \<times> err option" where
  "dyn_Delete cd srv c ns w name opts =
     (if name = [] then (w, Some name_required)
      else answer_error
        (Do srv w (Body_bytes (enc_delete_options \<lparr> gv_group = [], gv_version = ''v1'' \<rparr> opts) (SetContentType ''application/json''
          (AbsPath c (makeURLSegments rr_resource_gvr ns name) (NewRequest c ''DELETE''))))))"

definition dyn_DeleteCollection ::
  "codec \<Rightarrow> 'w server \<Rightarrow> rest_client \<Rightarrow> string \<Rightarrow> 'w \<Rightarrow> (string \<times> json) list \<Rightarrow> list_options \<Rightarrow> 'w \<times> err option" where
  "dyn_DeleteCollection cd srv c ns w opts listOptions =
     answer_error
       (Do srv w (VersionedParams (list_query listOptions)
         (Body_bytes (enc_delete_options \<lparr> gv_group = [], gv_version = ''v1'' \<rparr> opts) (SetContentType ''application/json''
           (AbsPath c (makeURLSegments rr_resource_gvr ns []) (NewRequest c ''DELETE''))))))"

definition dyn_Get :: "codec \<Rightarrow> 'w server \<Rightarrow> rest_client \<Rightarrow> string \<Rightarrow> 'w \<Rightarrow> string \<Rightarrow> query \<Rightarrow> 'w \<times> json res" where
  "dyn_Get cd srv c ns w name opts =
     (if name = [] then (w, Inl name_required)
      else answer_with (dyn_decode cd)
        (Do srv w (VersionedParams opts (AbsPath c (makeURLSegments rr_resource_gvr ns name) (NewRequest c ''GET'')))))"

text \<open>The items of a list that have neither a kind nor an API version get those of the list.\<close>

definition set_member :: "string \<Rightarrow> json \<Rightarrow> json \<Rightarrow> json" where
  "set_member k v j = (case j of JObj ms \<Rightarrow> JObj (AList.update k v ms) | _ \<Rightarrow> j)"

definition trim_suffix :: "string \<Rightarrow> string \<Rightarrow> string" where
  "trim_suffix s suf = (if has_suffix s suf then take (length s - length suf) s else s)"

definition infer_kind :: "json \<Rightarrow> json \<Rightarrow> json" where
  "infer_kind lst item =
     (if doc_string item ''kind'' = [] \<and> doc_string item ''apiVersion'' = []
      then set_member ''apiVersion'' (JStr (doc_string lst ''apiVersion''))
             (set_member ''kind'' (JStr (trim_suffix (doc_string lst ''kind'') ''List'')) item)
      else item)"

definition decodeToList :: "codec \<Rightarrow> json \<Rightarrow> json res" where
  "decodeToList cd j =
     (case j of
        JObj ms \<Rightarrow>
          (case map_of (rev ms) ''items'' of
             Some (JArr items) \<Rightarrow>
               if doc_string j ''kind'' = [] then decodeUnstructured cd j
               else if list_all (\<lambda>i. case i of JObj _ \<Rightarrow> True | _ \<Rightarrow> False) items
                 then Inr (JObj (AList.delete ''items'' ms @ [(''items'', JArr (map (infer_kind j) items))]))
               else Inl (ErrorString (cd_mm cd ''items'' j))
           | Some JNull \<Rightarrow> map_sum id (\<lambda>_. JObj (AList.delete ''items'' ms @ [(''items'', JArr [])])) (decodeUnstructured cd j)
           | _ \<Rightarrow> Inl (ErrorString (cd_mm cd ''items'' j)))
      | _ \<Rightarrow> Inl (ErrorString (cd_mm cd ''object'' j)))"

text \<open>An object that is no list becomes a list without items.\<close>

definition dyn_List :: "codec \<Rightarrow> 'w server \<Rightarrow> rest_client \<Rightarrow> string \<Rightarrow> 'w \<Rightarrow> list_options \<Rightarrow> 'w \<times> json res" where
  "dyn_List cd srv c ns w opts =
     answer_with (\<lambda>j. if has_items j then decodeToList cd j
                      else map_sum id (\<lambda>d. case d of JObj ms \<Rightarrow> JObj (ms @ [(''items'', JArr [])]) | _ \<Rightarrow> d) (decodeUnstructured cd j))
       (Do srv w (VersionedParams (list_query opts) (AbsPath c (makeURLSegments rr_resource_gvr ns []) (NewRequest c ''GET''))))"

definition dyn_Patch ::
  "codec \<Rightarrow> 'w server \<Rightarrow> rest_client \<Rightarrow> string \<Rightarrow> 'w \<Rightarrow> string \<Rightarrow> string \<Rightarrow> json \<Rightarrow> query \<Rightarrow> string list \<Rightarrow> 'w \<times> json res" where
  "dyn_Patch cd srv c ns w name pt data opts subresources =
     (if name = [] then (w, Inl name_required)
      else answer_with (dyn_decode cd)
        (Do srv w (VersionedParams opts (Body_bytes data
          (AbsPath c (makeURLSegments rr_resource_gvr ns name @ subresources) (SetContentType pt (NewRequest c ''PATCH'')))))))"

subsection \<open>The wrapper\<close>

text \<open>\<^verbatim>\<open>convert\<close> into an unstructured object and out of one.\<close>

definition convert_to :: "codec \<Rightarrow> rr \<Rightarrow> json res" where
  "convert_to cd from =
     (case decodeUnstructured cd (enc_rr from) of Inl e \<Rightarrow> Inl (WrapError ''Unmarshal() = '' e) | Inr j \<Rightarrow> Inr j)"

definition convert_from :: "codec \<Rightarrow> json \<Rightarrow> rr res" where
  "convert_from cd from =
     (case dec_rr cd False from of Inl e \<Rightarrow> Inl (WrapError ''Unmarshal() = '' e) | Inr out \<Rightarrow> Inr out)"

text \<open>The operations that take an object set its kind first; the object is the caller's, so it is a result
  as well.\<close>

definition wrap_send ::
  "codec \<Rightarrow> ('w \<Rightarrow> json \<Rightarrow> 'w \<times> json res) \<Rightarrow> 'w \<Rightarrow> rr \<Rightarrow> 'w \<times> rr \<times> rr res" where
  "wrap_send cd op w obj =
     (let obj = SetGroupVersionKind rr_gvk obj in
      case convert_to cd obj of
        Inl e \<Rightarrow> (w, obj, Inl e)
      | Inr uo \<Rightarrow> (case answer_with (convert_from cd) (op w uo) of (w', x) \<Rightarrow> (w', obj, x)))"

definition wrap_Create :: "codec \<Rightarrow> 'w server \<Rightarrow> rest_client \<Rightarrow> string \<Rightarrow> 'w \<Rightarrow> rr \<Rightarrow> query \<Rightarrow> 'w \<times> rr \<times> rr res" where
  "wrap_Create cd srv c ns w obj opts = wrap_send cd (\<lambda>w uo. dyn_Create cd srv c ns w uo opts) w obj"

definition wrap_Update :: "codec \<Rightarrow> 'w server \<Rightarrow> rest_client \<Rightarrow> string \<Rightarrow> 'w \<Rightarrow> rr \<Rightarrow> query \<Rightarrow> 'w \<times> rr \<times> rr res" where
  "wrap_Update cd srv c ns w obj opts = wrap_send cd (\<lambda>w uo. dyn_Update cd srv c ns w uo opts []) w obj"

definition wrap_UpdateStatus :: "codec \<Rightarrow> 'w server \<Rightarrow> rest_client \<Rightarrow> string \<Rightarrow> 'w \<Rightarrow> rr \<Rightarrow> query \<Rightarrow> 'w \<times> rr \<times> rr res" where
  "wrap_UpdateStatus cd srv c ns w obj opts = wrap_send cd (\<lambda>w uo. dyn_UpdateStatus cd srv c ns w uo opts) w obj"

definition wrap_Delete :: "codec \<Rightarrow> 'w server \<Rightarrow> rest_client \<Rightarrow> string \<Rightarrow> 'w \<Rightarrow> string \<Rightarrow> (string \<times> json) list \<Rightarrow> 'w \<times> err option" where
  "wrap_Delete cd srv c ns w name opts = dyn_Delete cd srv c ns w name opts"

definition wrap_DeleteCollection ::
  "codec \<Rightarrow> 'w server \<Rightarrow> rest_client \<Rightarrow> string \<Rightarrow> 'w \<Rightarrow> (string \<times> json) list \<Rightarrow> list_options \<Rightarrow> 'w \<times> err option" where
  "wrap_DeleteCollection cd srv c ns w opts listOpts = dyn_DeleteCollection cd srv c ns w opts listOpts"

definition wrap_Get :: "codec \<Rightarrow> 'w server \<Rightarrow> rest_client \<Rightarrow> string \<Rightarrow> 'w \<Rightarrow> string \<Rightarrow> query \<Rightarrow> 'w \<times> rr res" where
  "wrap_Get cd srv c ns w name opts = answer_with (convert_from cd) (dyn_Get cd srv c ns w name opts)"

definition wrap_List :: "codec \<Rightarrow> 'w server \<Rightarrow> rest_client \<Rightarrow> string \<Rightarrow> 'w \<Rightarrow> list_options \<Rightarrow> 'w \<times> rr_list res" where
  "wrap_List cd srv c ns w opts =
     answer_with (\<lambda>j. case dec_rr_list cd j of Inl e \<Rightarrow> Inl (WrapError ''Unmarshal() = '' e) | Inr l \<Rightarrow> Inr l)
       (dyn_List cd srv c ns w opts)"

definition wrap_Patch ::
  "codec \<Rightarrow> 'w server \<Rightarrow> rest_client \<Rightarrow> string \<Rightarrow> 'w \<Rightarrow> string \<Rightarrow> string \<Rightarrow> json \<Rightarrow> query \<Rightarrow> string list \<Rightarrow> 'w \<times> rr res" where
  "wrap_Patch cd srv c ns w name pt data opts subresources =
     answer_with (convert_from cd) (dyn_Patch cd srv c ns w name pt data opts [])"

definition wrap_Watch :: "list_options \<Rightarrow> http_request res" where
  "wrap_Watch opts = Inl (ErrorString ''NYI: Watch'')"

subsection \<open>Lemmas\<close>

lemma segments_rr:
  "valid_segment ns \<Longrightarrow> makeURLSegments rr_resource_gvr ns name =
     [''apis'', ''resolution.tekton.dev'', ''v1alpha1''] @ [''namespaces'', ns, ''resolutionrequests''] @ filter (\<lambda>s. s \<noteq> []) [name]"
  by (simp add: makeURLSegments_def rr_resource_gvr_def valid_segment_def)

text \<open>The URL of a request of the dynamic client is its absolute path.\<close>

lemma dyn_path:
  assumes "base_ok d" "valid_segment ns" "list_all valid_segment rest" "rq_err r = None"
  shows "AbsPath d (makeURLSegments rr_resource_gvr ns [] @ rest) r =
    r\<lparr>rq_pathPrefix := api_path d ([''namespaces'', ns, ''resolutionrequests''] @ rest)\<rparr>"
  using api_abs_path [OF assms(1), of "[''namespaces'', ns, ''resolutionrequests''] @ rest"] assms(2-)
  by (simp add: AbsPath_def segments_rr)

lemma segments_name: "name \<noteq> [] \<Longrightarrow> makeURLSegments res ns name = makeURLSegments res ns [] @ [name]"
  by (simp add: makeURLSegments_def)

lemma dyn_url:
  "\<not> rq_namespaceSet r \<Longrightarrow> rq_resource r = [] \<Longrightarrow> rq_resourceName r = [] \<Longrightarrow> rq_subresource r = [] \<Longrightarrow> URL_path r = rq_pathPrefix r"
  by (simp add: URL_path_def)

lemmas dyn_defs = dyn_Get_def dyn_Create_def dyn_Update_def dyn_UpdateStatus_def dyn_List_def dyn_Patch_def

lemma dyn_requests:
  assumes "base_ok d" "valid_segment ns"
  shows "valid_segment name \<Longrightarrow> dyn_Get cd srv d ns w name q =
      answer_with (dyn_decode cd) (srv w (rr_http d (rc_timeout d) ''GET'' ns [name] q [] None))"
    and "dyn_Create cd srv d ns w obj q =
      answer_with (dyn_decode cd) (srv w (rr_http d (rc_timeout d) ''POST'' ns [] q ''application/json'' (Some obj)))"
    and "valid_segment (doc_name obj) \<Longrightarrow> dyn_Update cd srv d ns w obj q [] =
      answer_with (dyn_decode cd) (srv w (rr_http d (rc_timeout d) ''PUT'' ns [doc_name obj] q ''application/json'' (Some obj)))"
    and "valid_segment (doc_name obj) \<Longrightarrow> dyn_UpdateStatus cd srv d ns w obj q =
      answer_with (dyn_decode cd) (srv w (rr_http d (rc_timeout d) ''PUT'' ns [doc_name obj, ''status''] q ''application/json'' (Some obj)))"
    and "valid_segment name \<Longrightarrow> dyn_Patch cd srv d ns w name pt data q [] =
      answer_with (dyn_decode cd) (srv w (rr_http d (rc_timeout d) ''PATCH'' ns [name] q pt (Some data)))"
  using assms dyn_path [OF assms, of "[]"]
  by (simp_all add: dyn_defs builder_defs NewRequest_sel segments_name IsValid_iff dyn_path Do_ok newHTTPRequest_def dyn_url
      URL_query_def rr_http_def)

text \<open>The name and the kind of a document that was encoded from an object.\<close>

lemma doc_name_enc: "utf8 (m_name (meta r)) \<Longrightarrow> doc_name (enc_rr r) = m_name (meta r)"
proof -
  have "doc_string (enc_meta (meta r)) ''name'' = json_string (m_name (meta r))"
    by (simp add: doc_string_def enc_meta_def enc_defs map_add_def split: option.split)
  then show "utf8 (m_name (meta r)) \<Longrightarrow> doc_name (enc_rr r) = m_name (meta r)"
    by (simp add: doc_name_def enc_rr_def utf8_def)
qed

lemma convert_to_enc: "utf8 (t_kind r) \<Longrightarrow> t_kind r \<noteq> [] \<Longrightarrow> convert_to cd r = Inr (enc_rr r)"
  by (simp add: convert_to_def decodeUnstructured_def enc_rr_def doc_string_def enc_defs utf8_def)

subsection \<open>Properties\<close>

text \<open>An answer that is one object: it has a kind, and no items.\<close>

definition object_doc :: "json \<Rightarrow> bool" where
  "object_doc j \<longleftrightarrow> (case j of JObj _ \<Rightarrow> True | _ \<Rightarrow> False) \<and> doc_string j ''kind'' \<noteq> [] \<and> \<not> has_items j"

text \<open>The same world, and the same object up to its kind, which the typed client clears; or an error each.\<close>

definition agree :: "'w \<times> rr res \<Rightarrow> 'w \<times> rr res \<Rightarrow> bool" where
  "agree x y \<longleftrightarrow> fst x = fst y \<and>
     (case (snd x, snd y) of
        (Inl _, Inl _) \<Rightarrow> True
      | (Inr a, Inr b) \<Rightarrow> a = SetGroupVersionKind no_gvk b
      | _ \<Rightarrow> False)"

definition without_caller :: "'w \<times> rr \<times> rr res \<Rightarrow> 'w \<times> rr res" where
  "without_caller x = (fst x, snd (snd x))"

lemma dyn_decode_object: "object_doc j \<Longrightarrow> dyn_decode cd j = Inr j"
  by (auto simp: dyn_decode_def decodeUnstructured_def object_doc_def split: json.splits)

lemma agree_answers:
  assumes "\<And>w' j. x = (w', Inr j) \<Longrightarrow> object_doc j"
  shows "agree (answer_with (Into cd) x) (answer_with (convert_from cd) (answer_with (dyn_decode cd) x))"
  using assms
  by (cases x; cases "snd x") (auto simp: agree_def answer_with_def dyn_decode_object Into_def convert_from_def split: sum.splits)

lemma rr_http_base: "rc_base d = rc_base c \<Longrightarrow> rr_http d = rr_http c"
  by (simp add: fun_eq_iff rr_http_def api_path_def)

lemma SetGroupVersionKind_rr [simp]:
  "meta (SetGroupVersionKind k r) = meta r" "t_kind (SetGroupVersionKind rr_gvk r) = ''ResolutionRequest''"
  by (simp_all add: SetGroupVersionKind_def rr_gvk_def)

lemma wrap_send_eq:
  "without_caller (wrap_send cd op w obj) = answer_with (convert_from cd) (op w (enc_rr (SetGroupVersionKind rr_gvk obj)))"
proof -
  have "utf8 ''ResolutionRequest''" unfolding utf8_def by (rule json_string_ascii) simp
  then have "convert_to cd (SetGroupVersionKind rr_gvk obj) = Inr (enc_rr (SetGroupVersionKind rr_gvk obj))"
    by (simp add: convert_to_enc)
  then show ?thesis by (simp add: wrap_send_def without_caller_def Let_def split: prod.split)
qed


text \<open>A server for examples: it counts its requests and answers each with the same object.\<close>

definition echo_server :: "rr \<Rightarrow> nat server" where
  "echo_server r w q = (Suc w, Inr (enc_rr r))"

definition example_client :: rest_client where
  "example_client = \<lparr> rc_base = ''/k8s/'', rc_versionedAPIPath = api_root, rc_timeout = 0 \<rparr>"

lemma example_client_ok: "client_ok example_client"
  by (simp add: client_ok_def base_ok_def example_client_def tidy_def segs_def)


text \<open>Patching through the dynamic client loses the subresource: whatever subresources the caller names,
  the patch is sent to the object itself, so a patch of the status goes to another path than the
  typed client's.\<close>

theorem dynamic_patch_drops_subresource:
  assumes "client_ok c" "rc_base d = rc_base c" "rc_timeout d = rc_timeout c" "valid_segment ns" "valid_segment name"
  shows "wrap_Patch cd srv d ns w name pt data q subs = wrap_Patch cd srv d ns w name pt data q [] \<and>
    (\<exists>r s. wrap_Patch cd (\<lambda>_ r. (Some r, Inl e)) d ns None name pt data q [''status''] = (Some r, Inl e) \<and>
      hr_path r = api_path c [''namespaces'', ns, ''resolutionrequests'', name] \<and>
      rest_Patch cd (\<lambda>_ r. (Some r, Inl e)) c ns None name pt data q [''status''] = (Some s, Inl e) \<and>
      hr_path s = api_path c [''namespaces'', ns, ''resolutionrequests'', name, ''status''] \<and> hr_path r \<noteq> hr_path s)"
proof -
  have b: "base_ok d" using assms(1,2) by (simp add: client_ok_def base_ok_def)
  have "wrap_Patch cd (\<lambda>_ r. (Some r, Inl e)) d ns None name pt data q [''status''] =
      (Some (rr_http c (rc_timeout c) ''PATCH'' ns [name] q pt (Some data)), Inl e)"
    using assms(4,5) rr_http_base [OF assms(2)]
    by (simp add: wrap_Patch_def dyn_requests [OF b assms(4)] assms(3) answer_with_def)
  moreover have "rest_Patch cd (\<lambda>_ r. (Some r, Inl e)) c ns None name pt data q [''status''] =
      (Some (rr_http c (rc_timeout c) ''PATCH'' ns [name, ''status''] q pt (Some data)), Inl e)"
    using assms(5) by (simp add: rest_requests [OF assms(1,4)] answer_with_def)
  moreover have "api_path c [''namespaces'', ns, ''resolutionrequests'', name] \<noteq>
      api_path c [''namespaces'', ns, ''resolutionrequests'', name, ''status'']"
    using api_path_inj [of c "[''namespaces'', ns, ''resolutionrequests'', name]" "[''namespaces'', ns, ''resolutionrequests'', name, ''status'']"]
      assms(4,5) by auto
  ultimately show ?thesis by (simp add: wrap_Patch_def rr_http_def)
qed

theorem dynamic_patch_drops_subresource_witness:
  "\<exists>r s. wrap_Patch example_codec (\<lambda>_ r. (Some r, Inl Canceled)) example_client ''ns'' None ''git-1'' ''application/merge-patch+json''
      (enc_status_patch example_patch) [] [''status''] = (Some r, Inl Canceled) \<and>
    rest_Patch example_codec (\<lambda>_ r. (Some r, Inl Canceled)) example_client ''ns'' None ''git-1'' ''application/merge-patch+json''
      (enc_status_patch example_patch) [] [''status''] = (Some s, Inl Canceled) \<and> hr_path r \<noteq> hr_path s"
proof -
  have "valid_segment ''ns''" "valid_segment ''git-1''" by (simp_all add: valid_segment_iff)
  from dynamic_patch_drops_subresource [OF example_client_ok refl refl this, of example_codec "echo_server example_created" 0
      "''application/merge-patch+json''" "enc_status_patch example_patch" "[]" "[]" Canceled]
  show ?thesis by blast
qed

end
