(* ===== verification/Fake_Clientset.thy ===== *)
theory Fake_Clientset
  imports Clientset
begin

section \<open>The fake clientset\<close>

text \<open>
  The generated fake clientset (\<^verbatim>\<open>versioned/fake\<close>) with the whole interface of a ResolutionRequest client
  (\<^verbatim>\<open>fake_resolutionrequest.go\<close>) over client-go's object tracker with its watchers. \<open>Api\<close> has the
  operations the components use as functions of the objects alone; here they also notify the
  watchers, whose channels hold a hundred events and panic when they are full (\<open>None\<close>). Each watcher
  keeps the list of all events it was sent and of those that were not received yet.
\<close>

subsection \<open>List options\<close>

text \<open>A field of the options is encoded unless it is empty.\<close>

definition set_param :: "string \<Rightarrow> string \<Rightarrow> query \<Rightarrow> query" where
  "set_param k v q = (if v = [] then AList.delete k q else AList.update k [v] q)"

definition no_list_options :: list_options where
  "no_list_options = \<lparr> lo_params = [], lo_watch = False, lo_timeoutSeconds = None \<rparr>"

definition set_labelSelector :: "string \<Rightarrow> list_options \<Rightarrow> list_options" where
  "set_labelSelector s l = l\<lparr>lo_params := set_param ''labelSelector'' s (lo_params l)\<rparr>"

definition labelSelector :: "list_options \<Rightarrow> string" where
  "labelSelector l = (case map_of (lo_params l) ''labelSelector'' of Some (v # _) \<Rightarrow> v | _ \<Rightarrow> [])"

definition fieldSelector :: "list_options \<Rightarrow> string" where
  "fieldSelector l = (case map_of (lo_params l) ''fieldSelector'' of Some (v # _) \<Rightarrow> v | _ \<Rightarrow> [])"

definition resourceVersion :: "list_options \<Rightarrow> string" where
  "resourceVersion l = (case map_of (lo_params l) ''resourceVersion'' of Some (v # _) \<Rightarrow> v | _ \<Rightarrow> [])"

text \<open>\<^verbatim>\<open>testing.ExtractFromListOptions\<close>: it panics (\<open>None\<close>) on a selector that it cannot parse. The field
  selector is not used by the fake clientset.\<close>

definition ExtractFromListOptions :: "(nat \<Rightarrow> bool) \<Rightarrow> list_options \<Rightarrow> (selector \<times> string) option" where
  "ExtractFromListOptions ip opts =
     (case Parse ip (labelSelector opts) of
        Some (Inr label) \<Rightarrow> if fields_ParseSelector_ok (fieldSelector opts) then Some (label, resourceVersion opts) else None
      | _ \<Rightarrow> None)"

subsection \<open>Watchers\<close>

datatype event = Added rr | Modified rr | Deleted rr

record fake_watcher =
  fw_ns :: string
  fw_log :: "event list"
  fw_pending :: "event list"
  fw_stopped :: bool

record fake_state =
  fs_objects :: tracker
  fs_watchers :: "fake_watcher list"

definition DefaultChanSize :: nat where
  "DefaultChanSize = 100"

definition send_event :: "event \<Rightarrow> fake_watcher \<Rightarrow> fake_watcher option" where
  "send_event ev w =
     (if fw_stopped w then Some w
      else if length (fw_pending w) < DefaultChanSize then Some (w\<lparr>fw_log := fw_log w @ [ev], fw_pending := fw_pending w @ [ev]\<rparr>)
      else None)"

text \<open>The watchers of the namespace and those of all namespaces.\<close>

fun notify :: "string \<Rightarrow> event \<Rightarrow> fake_watcher list \<Rightarrow> fake_watcher list option" where
  "notify ns ev [] = Some []"
| "notify ns ev (w # ws) =
     (case (if fw_ns w = ns \<or> fw_ns w = [] then send_event ev w else Some w) of
        None \<Rightarrow> None
      | Some w' \<Rightarrow> (case notify ns ev ws of None \<Rightarrow> None | Some ws' \<Rightarrow> Some (w' # ws')))"

subsection \<open>The tracker with its watchers\<close>

definition watched_add :: "(nat \<Rightarrow> bool) \<Rightarrow> fake_state \<Rightarrow> rr \<Rightarrow> string \<Rightarrow> bool \<Rightarrow> fake_state res option" where
  "watched_add ip st obj ns replaceExisting =
     (case tracker_add ip (fs_objects st) obj ns replaceExisting of
        Inl e \<Rightarrow> Some (Inl e)
      | Inr t \<Rightarrow>
          (let newObj = propagate_ns ns obj in
           case notify ns (if replaceExisting then Modified newObj else Added newObj) (fs_watchers st) of
             None \<Rightarrow> None
           | Some ws \<Rightarrow> Some (Inr \<lparr> fs_objects = t, fs_watchers = ws \<rparr>)))"

definition watched_delete :: "(nat \<Rightarrow> bool) \<Rightarrow> fake_state \<Rightarrow> string \<Rightarrow> string \<Rightarrow> fake_state res option" where
  "watched_delete ip st ns name =
     (case map_of (fs_objects st) (ns, name) of
        None \<Rightarrow> Some (Inl (NewNotFound ip rr_resource name))
      | Some obj \<Rightarrow>
          (case notify ns (Deleted obj) (fs_watchers st) of
             None \<Rightarrow> None
           | Some ws \<Rightarrow> Some (Inr \<lparr> fs_objects = AList.delete (ns, name) (fs_objects st), fs_watchers = ws \<rparr>)))"

definition tracker_list :: "tracker \<Rightarrow> string \<Rightarrow> rr list" where
  "tracker_list t ns =
     sort_key (\<lambda>r. (m_namespace (meta r), m_name (meta r)))
       (filter (\<lambda>r. \<not> (ns \<noteq> [] \<and> m_namespace (meta r) \<noteq> ns)) (map snd t))"

subsection \<open>The clientset\<close>

fun add_all :: "(nat \<Rightarrow> bool) \<Rightarrow> tracker \<Rightarrow> rr list \<Rightarrow> tracker option" where
  "add_all ip t [] = Some t"
| "add_all ip t (obj # objs) =
     (case tracker_add ip t obj (m_namespace (meta obj)) False of Inl _ \<Rightarrow> None | Inr t' \<Rightarrow> add_all ip t' objs)"

text \<open>An object that cannot be added makes the constructor panic.\<close>

definition NewSimpleClientset :: "(nat \<Rightarrow> bool) \<Rightarrow> rr list \<Rightarrow> fake_state option" where
  "NewSimpleClientset ip objects =
     (case add_all ip [] objects of None \<Rightarrow> None | Some t \<Rightarrow> Some \<lparr> fs_objects = t, fs_watchers = [] \<rparr>)"

subsection \<open>The operations of FakeResolutionRequests\<close>

definition FakeGet :: "(nat \<Rightarrow> bool) \<Rightarrow> fake_state \<Rightarrow> string \<Rightarrow> string \<Rightarrow> rr res" where
  "FakeGet ip st ns name = tracker_get ip (fs_objects st) ns name"

definition FakeList :: "(nat \<Rightarrow> bool) \<Rightarrow> fake_state \<Rightarrow> string \<Rightarrow> list_options \<Rightarrow> rr_list option" where
  "FakeList ip st ns opts =
     (case ExtractFromListOptions ip opts of
        None \<Rightarrow> None
      | Some (label, _) \<Rightarrow>
          Some (empty_list\<lparr>ls_items := filter (\<lambda>item. Selector_Matches label (m_labels (meta item))) (tracker_list (fs_objects st) ns)\<rparr>))"

definition FakeWatch :: "(nat \<Rightarrow> bool) \<Rightarrow> fake_state \<Rightarrow> string \<Rightarrow> list_options \<Rightarrow> (fake_state \<times> nat) option" where
  "FakeWatch ip st ns opts =
     (case ExtractFromListOptions ip opts of
        None \<Rightarrow> None
      | Some _ \<Rightarrow>
          Some (st\<lparr>fs_watchers := fs_watchers st @ [\<lparr> fw_ns = ns, fw_log = [], fw_pending = [], fw_stopped = False \<rparr>]\<rparr>,
                length (fs_watchers st)))"

definition store_then_get :: "(nat \<Rightarrow> bool) \<Rightarrow> bool \<Rightarrow> fake_state \<Rightarrow> string \<Rightarrow> rr \<Rightarrow> (fake_state \<times> rr res) option" where
  "store_then_get ip replaceExisting st ns obj =
     (case watched_add ip st obj ns replaceExisting of
        None \<Rightarrow> None
      | Some (Inl e) \<Rightarrow> Some (st, Inl e)
      | Some (Inr st') \<Rightarrow> Some (st', tracker_get ip (fs_objects st') ns (m_name (meta obj))))"

definition FakeCreate :: "(nat \<Rightarrow> bool) \<Rightarrow> fake_state \<Rightarrow> string \<Rightarrow> rr \<Rightarrow> (fake_state \<times> rr res) option" where
  "FakeCreate ip st ns obj = store_then_get ip False st ns obj"

definition FakeUpdate :: "(nat \<Rightarrow> bool) \<Rightarrow> fake_state \<Rightarrow> string \<Rightarrow> rr \<Rightarrow> (fake_state \<times> rr res) option" where
  "FakeUpdate ip st ns obj = store_then_get ip True st ns obj"

definition FakeUpdateStatus :: "(nat \<Rightarrow> bool) \<Rightarrow> fake_state \<Rightarrow> string \<Rightarrow> rr \<Rightarrow> (fake_state \<times> rr res) option" where
  "FakeUpdateStatus ip st ns obj = store_then_get ip True st ns obj"

definition FakeDelete :: "(nat \<Rightarrow> bool) \<Rightarrow> fake_state \<Rightarrow> string \<Rightarrow> string \<Rightarrow> (fake_state \<times> err option) option" where
  "FakeDelete ip st ns name =
     (case watched_delete ip st ns name of
        None \<Rightarrow> None
      | Some (Inl e) \<Rightarrow> Some (st, Some e)
      | Some (Inr st') \<Rightarrow> Some (st', None))"

text \<open>No reaction handles the deletion of a collection: the default result is returned, without an error.\<close>

definition FakeDeleteCollection :: "(nat \<Rightarrow> bool) \<Rightarrow> fake_state \<Rightarrow> string \<Rightarrow> list_options \<Rightarrow> (fake_state \<times> err option) option" where
  "FakeDeleteCollection ip st ns listOpts =
     (case ExtractFromListOptions ip listOpts of None \<Rightarrow> None | Some _ \<Rightarrow> Some (st, None))"

text \<open>A merge patch, with or without a subresource.\<close>

definition FakeMergePatch :: "codec \<Rightarrow> fake_state \<Rightarrow> string \<Rightarrow> string \<Rightarrow> json \<Rightarrow> (fake_state \<times> rr res) option" where
  "FakeMergePatch cd st ns name patch =
     (case tracker_get (cd_ip cd) (fs_objects st) ns name of
        Inl e \<Rightarrow> Some (st, Inl e)
      | Inr old \<Rightarrow>
          (case merge_patch_object cd old patch of
             Inl e \<Rightarrow> Some (st, Inl e)
           | Inr obj \<Rightarrow>
               (case watched_add (cd_ip cd) st obj ns True of
                  None \<Rightarrow> None
                | Some (Inl e) \<Rightarrow> Some (st, Inl e)
                | Some (Inr st') \<Rightarrow> Some (st', Inr obj))))"

subsection \<open>Sequences of operations\<close>

text \<open>What clients of one fake clientset can do, in any order; the last two are the calls of a watcher's
  consumer.\<close>

datatype fake_op =
    OpCreate string rr | OpUpdate string rr | OpDelete string string | OpDeleteCollection string list_options
  | OpMergePatch string string json | OpWatch string list_options | OpReceive nat | OpStop nat

definition fake_exec :: "codec \<Rightarrow> fake_op \<Rightarrow> fake_state \<Rightarrow> fake_state option" where
  "fake_exec cd op st =
     (case op of
        OpCreate ns obj \<Rightarrow> map_option fst (FakeCreate (cd_ip cd) st ns obj)
      | OpUpdate ns obj \<Rightarrow> map_option fst (FakeUpdate (cd_ip cd) st ns obj)
      | OpDelete ns name \<Rightarrow> map_option fst (FakeDelete (cd_ip cd) st ns name)
      | OpDeleteCollection ns opts \<Rightarrow> map_option fst (FakeDeleteCollection (cd_ip cd) st ns opts)
      | OpMergePatch ns name patch \<Rightarrow> map_option fst (FakeMergePatch cd st ns name patch)
      | OpWatch ns opts \<Rightarrow> map_option fst (FakeWatch (cd_ip cd) st ns opts)
      | OpReceive i \<Rightarrow>
          Some (if i < length (fs_watchers st)
                then st\<lparr>fs_watchers := (fs_watchers st)[i := (fs_watchers st ! i)\<lparr>fw_pending := tl (fw_pending (fs_watchers st ! i))\<rparr>]\<rparr>
                else st)
      | OpStop i \<Rightarrow>
          Some (if i < length (fs_watchers st)
                then st\<lparr>fs_watchers := (fs_watchers st)[i := (fs_watchers st ! i)\<lparr>fw_stopped := True\<rparr>]\<rparr>
                else st))"

fun fake_run :: "codec \<Rightarrow> fake_op list \<Rightarrow> fake_state \<Rightarrow> fake_state option" where
  "fake_run cd [] st = Some st"
| "fake_run cd (op # ops) st = (case fake_exec cd op st of None \<Rightarrow> None | Some st' \<Rightarrow> fake_run cd ops st')"

subsection \<open>Lemmas: watchers see every change\<close>

text \<open>The objects of a namespace (of all, for the empty one), and the effect of an event on them.\<close>

definition view :: "string \<Rightarrow> tracker \<Rightarrow> string \<times> string \<Rightarrow> rr option" where
  "view ns t k = (if ns = [] \<or> fst k = ns then map_of t k else None)"

definition obj_key :: "rr \<Rightarrow> string \<times> string" where
  "obj_key r = (m_namespace (meta r), m_name (meta r))"

fun apply_event :: "(string \<times> string \<Rightarrow> rr option) \<Rightarrow> event \<Rightarrow> string \<times> string \<Rightarrow> rr option" where
  "apply_event m (Added r) = m(obj_key r \<mapsto> r)"
| "apply_event m (Modified r) = m(obj_key r \<mapsto> r)"
| "apply_event m (Deleted r) = m(obj_key r := None)"

lemma view_add:
  "view ns (AList.update k r t) = (if ns = [] \<or> fst k = ns then (view ns t)(k \<mapsto> r) else view ns t)"
  by (auto simp: view_def fun_eq_iff update_conv)

lemma view_delete:
  "view ns (AList.delete k t) = (if ns = [] \<or> fst k = ns then (view ns t)(k := None) else view ns t)"
  by (auto simp: view_def fun_eq_iff delete_conv)

lemma notify_nth:
  assumes "notify ns ev ws = Some ws'"
  shows "length ws' = length ws"
    and "i < length ws \<Longrightarrow> fw_ns (ws' ! i) = fw_ns (ws ! i) \<and> fw_stopped (ws' ! i) = fw_stopped (ws ! i) \<and>
      fw_log (ws' ! i) = fw_log (ws ! i) @ (if \<not> fw_stopped (ws ! i) \<and> (fw_ns (ws ! i) = ns \<or> fw_ns (ws ! i) = []) then [ev] else [])"
proof -
  show "length ws' = length ws" using assms
    by (induction ns ev ws arbitrary: ws' rule: notify.induct) (auto split: option.splits)
  show "i < length ws \<Longrightarrow> fw_ns (ws' ! i) = fw_ns (ws ! i) \<and> fw_stopped (ws' ! i) = fw_stopped (ws ! i) \<and>
      fw_log (ws' ! i) = fw_log (ws ! i) @ (if \<not> fw_stopped (ws ! i) \<and> (fw_ns (ws ! i) = ns \<or> fw_ns (ws ! i) = []) then [ev] else [])"
    using assms
  proof (induction ns ev ws arbitrary: ws' i rule: notify.induct)
    case (2 ns ev w ws)
    then show ?case by (cases i) (auto simp: send_event_def split: option.splits if_splits)
  qed simp
qed

text \<open>What a watcher was sent, applied to what was there when it was opened, is what is there now.\<close>

definition in_step :: "(string \<times> string \<Rightarrow> rr option) \<Rightarrow> string \<Rightarrow> nat \<Rightarrow> fake_state \<Rightarrow> bool" where
  "in_step m ns i st \<longleftrightarrow>
     tracker_wf (fs_objects st) \<and> i < length (fs_watchers st) \<and> fw_ns (fs_watchers st ! i) = ns \<and> \<not> fw_stopped (fs_watchers st ! i) \<and>
     foldl apply_event m (fw_log (fs_watchers st ! i)) = view ns (fs_objects st)"

lemma in_step_notified:
  assumes "in_step m ns i st" "notify ns' ev (fs_watchers st) = Some ws" "tracker_wf t"
    and "view ns t = (if ns = [] \<or> ns' = ns then apply_event (view ns (fs_objects st)) ev else view ns (fs_objects st))"
  shows "in_step m ns i \<lparr> fs_objects = t, fs_watchers = ws \<rparr>"
  using assms(1,3,4) notify_nth [OF assms(2)] by (auto simp: in_step_def)

lemma watched_add_in_step:
  assumes "in_step m ns i st" "watched_add ip st obj ns' rep = Some (Inr st')"
  shows "in_step m ns i st'"
proof -
  obtain t ws where t: "tracker_add ip (fs_objects st) obj ns' rep = Inr t" and st': "st' = \<lparr> fs_objects = t, fs_watchers = ws \<rparr>"
    and ws: "notify ns' (if rep then Modified (propagate_ns ns' obj) else Added (propagate_ns ns' obj)) (fs_watchers st) = Some ws"
    using assms(2) by (auto simp: watched_add_def Let_def split: sum.splits option.splits)
  note a = tracker_add_InrD [OF t]
  have "tracker_wf t" using assms(1) tracker_add_wf [OF _ t] by (simp add: in_step_def)
  moreover have "obj_key (propagate_ns ns' obj) = (ns', m_name (meta obj))" using a(2) by (simp add: obj_key_def)
  ultimately show ?thesis unfolding st' by (intro in_step_notified [OF assms(1) ws]) (auto simp: a(1) view_add)
qed

lemma tracker_wf_delete: "tracker_wf t \<Longrightarrow> tracker_wf (AList.delete k t)"
  using distinct_delete [of t k] by (simp add: tracker_wf_def list_all_iff) (simp add: AList.delete_eq)

lemma watched_delete_in_step:
  assumes "in_step m ns i st" "watched_delete ip st ns' name = Some (Inr st')"
  shows "in_step m ns i st'"
proof -
  obtain obj ws where obj: "map_of (fs_objects st) (ns', name) = Some obj"
    and ws: "notify ns' (Deleted obj) (fs_watchers st) = Some ws"
    and st': "st' = \<lparr> fs_objects = AList.delete (ns', name) (fs_objects st), fs_watchers = ws \<rparr>"
    using assms(2) by (auto simp: watched_delete_def split: option.splits)
  have wf: "tracker_wf (fs_objects st)" using assms(1) by (simp add: in_step_def)
  have "tracker_get ip (fs_objects st) ns' name = Inr obj" using obj by (simp add: tracker_get_def)
  then have "obj_key obj = (ns', name)" using tracker_get_wf [OF wf] by (simp add: obj_key_def)
  then show ?thesis unfolding st'
    by (intro in_step_notified [OF assms(1) ws]) (auto simp: view_delete intro: tracker_wf_delete [OF wf])
qed

lemma exec_in_step:
  assumes "in_step m ns i st" "fake_exec cd op st = Some st'" "op \<noteq> OpStop i"
  shows "in_step m ns i st'"
proof (cases op)
  case (OpCreate ns' obj)
  with assms show ?thesis
    by (auto simp: fake_exec_def FakeCreate_def store_then_get_def split: option.splits sum.splits intro: watched_add_in_step)
next
  case (OpUpdate ns' obj)
  with assms show ?thesis
    by (auto simp: fake_exec_def FakeUpdate_def store_then_get_def split: option.splits sum.splits intro: watched_add_in_step)
next
  case (OpDelete ns' name)
  with assms show ?thesis
    by (auto simp: fake_exec_def FakeDelete_def split: option.splits sum.splits intro: watched_delete_in_step)
next
  case (OpMergePatch ns' name patch)
  with assms show ?thesis
    by (auto simp: fake_exec_def FakeMergePatch_def split: option.splits sum.splits intro: watched_add_in_step)
qed (use assms in \<open>auto simp: fake_exec_def FakeDeleteCollection_def FakeWatch_def in_step_def nth_append nth_list_update split: if_splits option.splits\<close>)

lemma run_in_step:
  "in_step m ns i st \<Longrightarrow> fake_run cd ops st = Some st' \<Longrightarrow> OpStop i \<notin> set ops \<Longrightarrow> in_step m ns i st'"
  by (induction cd ops st rule: fake_run.induct) (auto split: option.splits intro: exec_in_step)

subsection \<open>Lemmas: the objects are those of the tracker alone\<close>

lemma watched_add_objects:
  assumes "watched_add ip st obj ns rep = Some x"
  shows "map_sum id fs_objects x = tracker_add ip (fs_objects st) obj ns rep"
  using assms by (auto simp: watched_add_def Let_def split: sum.splits option.splits)

text \<open>While no channel is full the operations are those of \<open>fake_client\<close>, on the objects.\<close>

lemma store_then_get_objects:
  "store_then_get ip rep st ns obj = Some (st', x) \<Longrightarrow> fake_store ip rep (fs_objects st) ns obj = (fs_objects st', x)"
  using watched_add_objects [of ip st obj ns rep]
  by (auto simp: store_then_get_def fake_store_def split: option.splits sum.splits)

subsection \<open>Lemmas: selectors in list options\<close>

lemma Parse_Nil: "Parse ip [] = Some (Inr Everything)"
  using Parse_printed [of "[]" ip] by (simp add: Everything_def)

lemma extract_nothing: "ExtractFromListOptions ip no_list_options = Some (Everything, [])"
  by (simp add: ExtractFromListOptions_def no_list_options_def labelSelector_def fieldSelector_def resourceVersion_def
      Parse_Nil fields_ParseSelector_ok_def splitTerms_def)

subsection \<open>Properties\<close>

text \<open>C21. A watcher of the fake clientset misses nothing: from the moment it is opened, whatever the clients do
  and however they interleave, the events it was sent, applied in order to the objects of its
  namespace at that moment, give the objects of its namespace now.\<close>

theorem watch_replays_changes:
  assumes "tracker_wf (fs_objects st)" "fake_run cd (OpWatch ns opts # ops) st = Some st'"
    and "i = length (fs_watchers st)" "OpStop i \<notin> set ops"
  shows "foldl apply_event (view ns (fs_objects st)) (fw_log (fs_watchers st' ! i)) = view ns (fs_objects st')"
proof -
  obtain st1 j where st1: "FakeWatch (cd_ip cd) st ns opts = Some (st1, j)" "fake_run cd ops st1 = Some st'"
    using assms(2) by (auto simp: fake_exec_def split: option.splits)
  then have "in_step (view ns (fs_objects st)) ns i st1"
    using assms(1,3) by (auto simp: in_step_def FakeWatch_def split: option.splits)
  then have "in_step (view ns (fs_objects st)) ns i st'" by (rule run_in_step [OF _ st1(2) assms(4)])
  then show ?thesis by (simp only: in_step_def)
qed

theorem watch_replays_changes_witness:
  "\<exists>st'. fake_run example_codec [OpWatch ''ns'' no_list_options, OpCreate ''ns'' example_request, OpDelete ''ns'' ''git-1'']
       \<lparr> fs_objects = [], fs_watchers = [] \<rparr> = Some st' \<and>
     fw_log (fs_watchers st' ! 0) = [Added example_request, Deleted example_request] \<and>
     foldl apply_event (view ''ns'' []) (fw_log (fs_watchers st' ! 0)) = view ''ns'' (fs_objects st')"
proof -
  let ?st = "\<lparr> fs_objects = [], fs_watchers = [] \<rparr>"
  let ?ops = "[OpCreate ''ns'' example_request, OpDelete ''ns'' ''git-1'']"
  let ?evs = "[Added example_request, Deleted example_request]"
  let ?st' = "\<lparr> fs_objects = [], fs_watchers = [\<lparr> fw_ns = ''ns'', fw_log = ?evs, fw_pending = ?evs, fw_stopped = False \<rparr>] \<rparr>"
  have key: "m_namespace (meta example_request) = ''ns''" "m_name (meta example_request) = ''git-1''"
    by (simp_all add: example_request_def)
  have keep: "propagate_ns ''ns'' example_request = example_request" by (simp add: propagate_ns_def key)
  let ?w = "\<lambda>evs. \<lparr> fw_ns = ''ns'', fw_log = evs, fw_pending = evs, fw_stopped = False \<rparr>"
  let ?st1 = "\<lparr> fs_objects = [], fs_watchers = [?w []] \<rparr>"
  let ?st2 = "\<lparr> fs_objects = [((''ns'', ''git-1''), example_request)], fs_watchers = [?w [Added example_request]] \<rparr>"
  have 1: "fake_exec example_codec (OpWatch ''ns'' no_list_options) ?st = Some ?st1" by (simp add: fake_exec_def FakeWatch_def extract_nothing)
  have "tracker_add ip [] example_request ''ns'' False = Inr [((''ns'', ''git-1''), example_request)]" for ip
    by (simp add: tracker_add_def keep key)
  then have "watched_add ip ?st1 example_request ''ns'' False = Some (Inr ?st2)" for ip
    by (simp add: watched_add_def send_event_def DefaultChanSize_def keep)
  then have 2: "fake_exec example_codec (OpCreate ''ns'' example_request) ?st1 = Some ?st2"
    by (simp add: fake_exec_def FakeCreate_def store_then_get_def)
  have "watched_delete ip ?st2 ''ns'' ''git-1'' = Some (Inr ?st')" for ip
    by (simp add: watched_delete_def send_event_def DefaultChanSize_def)
  then have 3: "fake_exec example_codec (OpDelete ''ns'' ''git-1'') ?st2 = Some ?st'"
    by (simp add: fake_exec_def FakeDelete_def)
  have run: "fake_run example_codec (OpWatch ''ns'' no_list_options # ?ops) ?st = Some ?st'"
    by (simp only: fake_run.simps option.simps 1 2 3)
  have "tracker_wf (fs_objects ?st)" by (simp add: tracker_wf_def)
  from watch_replays_changes [OF this run, of 0] run show ?thesis by simp
qed

text \<open>The tracker's reaction has no case for the deletion of a collection: nothing is deleted, and no error
  says so.\<close>

theorem fake_delete_collection_keeps_objects:
  "FakeDeleteCollection ip st ns no_list_options = Some (st, None)"
  by (simp add: FakeDeleteCollection_def extract_nothing)

end
