(* ===== verification/Informers.thy ===== *)
theory Informers
  imports Dynamic_Client Fake_Clientset
begin

section \<open>Informers and their injection\<close>

text \<open>
  The shared informer factory (\<^verbatim>\<open>informers/externalversions\<close>) and the injection of clients, factories and
  informers into a context (\<^verbatim>\<open>pkg/client/injection\<close>). Factories and informers are Go pointers, hence
  numbers that index the lists of a \<open>world\<close>; the factory's lock makes each of its operations one step.
  A \<^verbatim>\<open>versioned.Interface\<close> value is the record of the operations that are called through it. A tweak of
  the list options is a closure: it reads the variables it captured when it is called, so it is a
  function of the values that the captured variables have by then. What an informer does once it
  runs (lists, watches, fills its index) is client-go's; a run is counted. \<open>None\<close> is a panic.
\<close>

subsection \<open>Clients\<close>

text \<open>A watch is a pending HTTP request or, of the fake clientset, one of its watchers.\<close>

datatype watch_handle = HttpWatch http_request | FakeWatcher nat

record 'w versioned =
  v_fake :: bool
  v_Get :: "string \<Rightarrow> string \<Rightarrow> query \<Rightarrow> 'w \<Rightarrow> 'w \<times> rr res"
  v_List :: "string \<Rightarrow> list_options \<Rightarrow> 'w \<Rightarrow> ('w \<times> rr_list res) option"
  v_Watch :: "string \<Rightarrow> list_options \<Rightarrow> 'w \<Rightarrow> ('w \<times> watch_handle res) option"

definition clientset_of :: "codec \<Rightarrow> 'w server \<Rightarrow> rest_client \<Rightarrow> 'w versioned" where
  "clientset_of cd srv c =
     \<lparr> v_fake = False, v_Get = (\<lambda>ns name opts w. rest_Get cd srv c ns w name opts),
       v_List = (\<lambda>ns opts w. Some (rest_List cd srv c ns w opts)),
       v_Watch = (\<lambda>ns opts w. Some (w, map_sum id HttpWatch (rest_Watch cd c ns opts))) \<rparr>"

definition wrapClient_of :: "codec \<Rightarrow> 'w server \<Rightarrow> rest_client \<Rightarrow> 'w versioned" where
  "wrapClient_of cd srv c =
     \<lparr> v_fake = False, v_Get = (\<lambda>ns name opts w. wrap_Get cd srv c ns w name opts),
       v_List = (\<lambda>ns opts w. Some (wrap_List cd srv c ns w opts)),
       v_Watch = (\<lambda>ns opts w. Some (w, map_sum id HttpWatch (wrap_Watch opts))) \<rparr>"

text \<open>The interface of a fake clientset, whose state is the world it works on.\<close>

definition fake_clientset_of :: "(nat \<Rightarrow> bool) \<Rightarrow> fake_state versioned" where
  "fake_clientset_of ip =
     \<lparr> v_fake = True, v_Get = (\<lambda>ns name opts st. (st, FakeGet ip st ns name)),
       v_List = (\<lambda>ns opts st. map_option (\<lambda>l. (st, Inr l)) (FakeList ip st ns opts)),
       v_Watch = (\<lambda>ns opts st. map_option (\<lambda>(st', i). (st', Inr (FakeWatcher i))) (FakeWatch ip st ns opts)) \<rparr>"

subsection \<open>The factory\<close>

type_synonym tweak = "string list \<Rightarrow> list_options \<Rightarrow> list_options"

record 'w informer =
  if_client :: "'w versioned"
  if_namespace :: string
  if_resync :: duration
  if_indexers :: "string list"
  if_tweak :: "tweak option"
  if_runs :: nat

record 'w factory =
  f_client :: "'w versioned"
  f_namespace :: string
  f_tweakListOptions :: "tweak option"
  f_defaultResync :: duration
  f_customResync :: "(string \<times> duration) list"
  f_informers :: "(string \<times> nat) list"
  f_startedInformers :: "(string \<times> bool) list"

record 'w world =
  iw_factories :: "'w factory list"
  iw_informers :: "'w informer list"
  iw_vars :: "string list"

definition empty_world :: "'w world" where
  "empty_world = \<lparr> iw_factories = [], iw_informers = [], iw_vars = [] \<rparr>"

text \<open>Each object of the configuration is given by its Go type.\<close>

definition WithCustomResyncConfig :: "(string \<times> duration) list \<Rightarrow> 'w factory \<Rightarrow> 'w factory" where
  "WithCustomResyncConfig resyncConfig f =
     f\<lparr>f_customResync := foldl (\<lambda>m (k, v). AList.update k v m) (f_customResync f) resyncConfig\<rparr>"

definition WithTweakListOptions :: "tweak option \<Rightarrow> 'w factory \<Rightarrow> 'w factory" where
  "WithTweakListOptions tw f = f\<lparr>f_tweakListOptions := tw\<rparr>"

definition WithNamespace :: "string \<Rightarrow> 'w factory \<Rightarrow> 'w factory" where
  "WithNamespace ns f = f\<lparr>f_namespace := ns\<rparr>"

definition NewSharedInformerFactoryWithOptions ::
  "'w versioned \<Rightarrow> duration \<Rightarrow> ('w factory \<Rightarrow> 'w factory) list \<Rightarrow> 'w world \<Rightarrow> 'w world \<times> nat" where
  "NewSharedInformerFactoryWithOptions client defaultResync options w =
     (let f = \<lparr> f_client = client, f_namespace = [], f_tweakListOptions = None, f_defaultResync = defaultResync,
                f_customResync = [], f_informers = [], f_startedInformers = [] \<rparr>;
          f = foldl (\<lambda>f opt. opt f) f options
      in (w\<lparr>iw_factories := iw_factories w @ [f]\<rparr>, length (iw_factories w)))"

definition NewSharedInformerFactory :: "'w versioned \<Rightarrow> duration \<Rightarrow> 'w world \<Rightarrow> 'w world \<times> nat" where
  "NewSharedInformerFactory client defaultResync = NewSharedInformerFactoryWithOptions client defaultResync []"

definition NewFilteredSharedInformerFactory ::
  "'w versioned \<Rightarrow> duration \<Rightarrow> string \<Rightarrow> tweak option \<Rightarrow> 'w world \<Rightarrow> 'w world \<times> nat" where
  "NewFilteredSharedInformerFactory client defaultResync namespace tw =
     NewSharedInformerFactoryWithOptions client defaultResync [WithNamespace namespace, WithTweakListOptions tw]"

text \<open>\<^verbatim>\<open>go informer.Run(stopCh)\<close>.\<close>

definition run_informer :: "nat \<Rightarrow> 'w informer list \<Rightarrow> 'w informer list" where
  "run_informer i xs = xs[i := (xs ! i)\<lparr>if_runs := if_runs (xs ! i) + 1\<rparr>]"

definition started :: "'w factory \<Rightarrow> string \<Rightarrow> bool" where
  "started f t \<longleftrightarrow> map_of (f_startedInformers f) t = Some True"

fun start_loop :: "(string \<times> nat) list \<Rightarrow> 'w factory \<Rightarrow> 'w informer list \<Rightarrow> 'w factory \<times> 'w informer list" where
  "start_loop [] f xs = (f, xs)"
| "start_loop ((informerType, i) # rest) f xs =
     (if started f informerType then start_loop rest f xs
      else start_loop rest (f\<lparr>f_startedInformers := AList.update informerType True (f_startedInformers f)\<rparr>) (run_informer i xs))"

definition Start :: "nat \<Rightarrow> 'w world \<Rightarrow> 'w world" where
  "Start n w =
     (let f = iw_factories w ! n in
      case start_loop (f_informers f) f (iw_informers w) of
        (f', xs) \<Rightarrow> w\<lparr>iw_factories := (iw_factories w)[n := f'], iw_informers := xs\<rparr>)"

text \<open>\<open>wait\<close> is the result of \<^verbatim>\<open>cache.WaitForCacheSync\<close> for an informer: whether it synced before the stop.\<close>

definition factory_WaitForCacheSync :: "(nat \<Rightarrow> bool) \<Rightarrow> nat \<Rightarrow> 'w world \<Rightarrow> (string \<times> bool) list" where
  "factory_WaitForCacheSync wait n w =
     (let f = iw_factories w ! n;
          informers = filter (\<lambda>(t, i). started f t) (f_informers f)
      in map (\<lambda>(t, i). (t, wait i)) informers)"

definition InformerFor :: "nat \<Rightarrow> string \<Rightarrow> ('w versioned \<Rightarrow> duration \<Rightarrow> 'w informer) \<Rightarrow> 'w world \<Rightarrow> 'w world \<times> nat" where
  "InformerFor n informerType newFunc w =
     (let f = iw_factories w ! n in
      case map_of (f_informers f) informerType of
        Some i \<Rightarrow> (w, i)
      | None \<Rightarrow>
          let resyncPeriod = (case map_of (f_customResync f) informerType of Some d \<Rightarrow> d | None \<Rightarrow> f_defaultResync f);
              i = length (iw_informers w)
          in (w\<lparr>iw_informers := iw_informers w @ [newFunc (f_client f) resyncPeriod],
                iw_factories := (iw_factories w)[n := f\<lparr>f_informers := AList.update informerType i (f_informers f)\<rparr>]\<rparr>, i))"

subsection \<open>The informer of ResolutionRequests\<close>

text \<open>\<^verbatim>\<open>resolutionRequestInformer\<close>; the types \<^verbatim>\<open>group\<close> and \<^verbatim>\<open>version\<close> on the way to it have the same fields.\<close>

record resolutionRequestInformer =
  ri_factory :: nat
  ri_namespace :: string
  ri_tweakListOptions :: "tweak option"

definition rr_go_type :: string where
  "rr_go_type = ''*v1alpha1.ResolutionRequest''"

definition NewFilteredResolutionRequestInformer ::
  "'w versioned \<Rightarrow> string \<Rightarrow> duration \<Rightarrow> string list \<Rightarrow> tweak option \<Rightarrow> 'w informer" where
  "NewFilteredResolutionRequestInformer client namespace resyncPeriod indexers tw =
     \<lparr> if_client = client, if_namespace = namespace, if_resync = resyncPeriod, if_indexers = indexers, if_tweak = tw, if_runs = 0 \<rparr>"

definition NewResolutionRequestInformer :: "'w versioned \<Rightarrow> string \<Rightarrow> duration \<Rightarrow> string list \<Rightarrow> 'w informer" where
  "NewResolutionRequestInformer client namespace resyncPeriod indexers =
     NewFilteredResolutionRequestInformer client namespace resyncPeriod indexers None"

definition tweaked :: "'w world \<Rightarrow> 'w informer \<Rightarrow> list_options \<Rightarrow> list_options" where
  "tweaked iw infr options = (case if_tweak infr of None \<Rightarrow> options | Some tw \<Rightarrow> tw (iw_vars iw) options)"

definition ListFunc :: "'w world \<Rightarrow> 'w informer \<Rightarrow> list_options \<Rightarrow> 'w \<Rightarrow> ('w \<times> rr_list res) option" where
  "ListFunc iw infr options w = v_List (if_client infr) (if_namespace infr) (tweaked iw infr options) w"

definition WatchFunc :: "'w world \<Rightarrow> 'w informer \<Rightarrow> list_options \<Rightarrow> 'w \<Rightarrow> ('w \<times> watch_handle res) option" where
  "WatchFunc iw infr options w = v_Watch (if_client infr) (if_namespace infr) (tweaked iw infr options) w"

definition defaultInformer :: "resolutionRequestInformer \<Rightarrow> 'w versioned \<Rightarrow> duration \<Rightarrow> 'w informer" where
  "defaultInformer f client resyncPeriod =
     NewFilteredResolutionRequestInformer client (ri_namespace f) resyncPeriod [''namespace''] (ri_tweakListOptions f)"

definition Informer :: "resolutionRequestInformer \<Rightarrow> 'w world \<Rightarrow> 'w world \<times> nat" where
  "Informer f = InformerFor (ri_factory f) rr_go_type (defaultInformer f)"

text \<open>The lister reads the index of that informer.\<close>

definition Lister :: "resolutionRequestInformer \<Rightarrow> 'w world \<Rightarrow> 'w world \<times> nat" where
  "Lister f = Informer f"

text \<open>\<^verbatim>\<open>f.Resolution().V1alpha1().ResolutionRequests()\<close>\<close>

definition Resolution :: "nat \<Rightarrow> 'w world \<Rightarrow> resolutionRequestInformer" where
  "Resolution n w =
     (let f = iw_factories w ! n in
      \<lparr> ri_factory = n, ri_namespace = f_namespace f, ri_tweakListOptions = f_tweakListOptions f \<rparr>)"

definition V1alpha1 :: "resolutionRequestInformer \<Rightarrow> resolutionRequestInformer" where
  "V1alpha1 g = \<lparr> ri_factory = ri_factory g, ri_namespace = ri_namespace g, ri_tweakListOptions = ri_tweakListOptions g \<rparr>"

definition ResolutionRequests :: "resolutionRequestInformer \<Rightarrow> resolutionRequestInformer" where
  "ResolutionRequests v = \<lparr> ri_factory = ri_factory v, ri_namespace = ri_namespace v, ri_tweakListOptions = ri_tweakListOptions v \<rparr>"

definition gvr_string :: "gvr \<Rightarrow> string" where
  "gvr_string r = r_group r @ ''/'' @ r_version r @ '', Resource='' @ r_resource r"

definition ForResource :: "gvr \<Rightarrow> nat \<Rightarrow> 'w world \<Rightarrow> 'w world \<times> nat res" where
  "ForResource resource n w =
     (if resource = WithResource SchemeGroupVersion ''resolutionrequests'' then
        (case Informer (ResolutionRequests (V1alpha1 (Resolution n w))) w of (w', i) \<Rightarrow> (w', Inr i))
      else (w, Inl (ErrorString (''no informer found for '' @ gvr_string resource))))"

subsection \<open>Contexts\<close>

text \<open>What the injected packages keep in a context, a field for each of their keys: each key type is used
  with one type of value only, so the type assertions on what is found succeed.\<close>

datatype 'w rr_informer =
    Shared resolutionRequestInformer
  | Wrapper "'w versioned" string string
  | FilteredWrapper "'w versioned" string string

record 'w icontext =
  cx_config :: bool
  cx_client :: "'w versioned option"
  cx_namespace :: string
  cx_resync :: "duration option"
  cx_resourceVersion :: string
  cx_factory :: "nat option"
  cx_labels :: "string list option"
  cx_filteredFactory :: "(string \<times> nat) list"
  cx_informer :: "'w rr_informer option"
  cx_filteredInformer :: "(string \<times> 'w rr_informer) list"

definition GetResyncPeriod :: "'w icontext \<Rightarrow> duration" where
  "GetResyncPeriod c = (case cx_resync c of None \<Rightarrow> 10 * hour | Some d \<Rightarrow> d)"

subsection \<open>Injection of the client\<close>

definition withClientFromConfig ::
  "codec \<Rightarrow> 'w server \<Rightarrow> string \<Rightarrow> (rest_config \<Rightarrow> 'd res) \<Rightarrow> err option \<Rightarrow> 'w icontext \<Rightarrow> rest_config \<Rightarrow> 'w icontext option" where
  "withClientFromConfig cd srv userAgent discovery httpErr c cfg =
     (case NewForConfigOrDie userAgent discovery httpErr cfg of
        None \<Rightarrow> None
      | Some cs \<Rightarrow> Some (c\<lparr>cx_client := Some (clientset_of cd srv (fst (cs_resolutionV1alpha1 cs)))\<rparr>))"

definition withClientFromDynamic :: "codec \<Rightarrow> 'w server \<Rightarrow> rest_client \<Rightarrow> 'w icontext \<Rightarrow> 'w icontext" where
  "withClientFromDynamic cd srv dyn c = c\<lparr>cx_client := Some (wrapClient_of cd srv dyn)\<rparr>"

text \<open>The panic's message says whether the context has a configuration.\<close>

definition client_Get :: "'w icontext \<Rightarrow> string + 'w versioned" where
  "client_Get c =
     (case cx_client c of
        Some cl \<Rightarrow> Inr cl
      | None \<Rightarrow>
          Inl (''Unable to fetch github.com/tektoncd/resolution/pkg/client/clientset/versioned.Interface from context.'' @
               (if cx_config c then []
                else '' This context is not the application context (which is typically given to constructors via sharedmain).'')))"

text \<open>The fake client, with the state of the new clientset over the objects. Its \<^verbatim>\<open>Get\<close> also panics when the
  client of the context is another one.\<close>

definition fake_With :: "(nat \<Rightarrow> bool) \<Rightarrow> fake_state icontext \<Rightarrow> rr list \<Rightarrow> (fake_state icontext \<times> fake_state) option" where
  "fake_With ip c objects =
     (case NewSimpleClientset ip objects of
        None \<Rightarrow> None
      | Some cs \<Rightarrow> Some (c\<lparr>cx_client := Some (fake_clientset_of ip)\<rparr>, cs))"

definition fake_withClient :: "(nat \<Rightarrow> bool) \<Rightarrow> fake_state icontext \<Rightarrow> fake_state icontext option" where
  "fake_withClient ip c = map_option fst (fake_With ip c [])"

definition fake_client_Get :: "'w icontext \<Rightarrow> 'w versioned option" where
  "fake_client_Get c = (case cx_client c of None \<Rightarrow> None | Some cl \<Rightarrow> if v_fake cl then Some cl else None)"

subsection \<open>Injection of factories\<close>

definition scope_option :: "'w icontext \<Rightarrow> ('w factory \<Rightarrow> 'w factory) list" where
  "scope_option c = (if cx_namespace c \<noteq> [] then [WithNamespace (cx_namespace c)] else [])"

definition inject_factory :: "'w versioned \<Rightarrow> 'w icontext \<Rightarrow> 'w world \<Rightarrow> 'w world \<times> 'w icontext" where
  "inject_factory cl c w =
     (case NewSharedInformerFactoryWithOptions cl (GetResyncPeriod c) (scope_option c) w of
        (w', n) \<Rightarrow> (w', c\<lparr>cx_factory := Some n\<rparr>))"

definition withInformerFactory :: "'w icontext \<Rightarrow> 'w world \<Rightarrow> ('w world \<times> 'w icontext) option" where
  "withInformerFactory c w = (case client_Get c of Inl _ \<Rightarrow> None | Inr cl \<Rightarrow> Some (inject_factory cl c w))"

definition fake_withInformerFactory :: "'w icontext \<Rightarrow> 'w world \<Rightarrow> ('w world \<times> 'w icontext) option" where
  "fake_withInformerFactory c w = (case fake_client_Get c of None \<Rightarrow> None | Some cl \<Rightarrow> Some (inject_factory cl c w))"

definition factory_Get :: "'w icontext \<Rightarrow> nat option" where
  "factory_Get c = cx_factory c"

definition WithSelectors :: "string list \<Rightarrow> 'w icontext \<Rightarrow> 'w icontext" where
  "WithSelectors selectors c = c\<lparr>cx_labels := Some selectors\<rparr>"

text \<open>The loop over the selectors. Its variable \<^verbatim>\<open>selector\<close> is one variable, the captured variable number \<open>v\<close>,
  that each iteration assigns; the closure reads it when it is called.\<close>

fun filtered_factory_loop ::
  "'w versioned \<Rightarrow> nat \<Rightarrow> string list \<Rightarrow> 'w icontext \<Rightarrow> 'w world \<Rightarrow> 'w world \<times> 'w icontext" where
  "filtered_factory_loop cl v [] c w = (w, c)"
| "filtered_factory_loop cl v (selector # rest) c w =
     (let w1 = w\<lparr>iw_vars := (iw_vars w)[v := selector]\<rparr>;
          opts = scope_option c @ [WithTweakListOptions (Some (\<lambda>vars l. set_labelSelector (vars ! v) l))]
      in case NewSharedInformerFactoryWithOptions cl (GetResyncPeriod c) opts w1 of
           (w2, n) \<Rightarrow>
             filtered_factory_loop cl v rest (c\<lparr>cx_filteredFactory := AList.update selector n (cx_filteredFactory c)\<rparr>) w2)"

definition inject_filtered :: "'w versioned \<Rightarrow> 'w icontext \<Rightarrow> 'w world \<Rightarrow> ('w world \<times> 'w icontext) option" where
  "inject_filtered cl c w =
     (case cx_labels c of
        None \<Rightarrow> None
      | Some labelSelectors \<Rightarrow>
          Some (filtered_factory_loop cl (length (iw_vars w)) labelSelectors c (w\<lparr>iw_vars := iw_vars w @ [[]]\<rparr>)))"

definition filtered_withInformerFactory :: "'w icontext \<Rightarrow> 'w world \<Rightarrow> ('w world \<times> 'w icontext) option" where
  "filtered_withInformerFactory c w = (case client_Get c of Inl _ \<Rightarrow> None | Inr cl \<Rightarrow> inject_filtered cl c w)"

definition fake_filtered_withInformerFactory :: "'w icontext \<Rightarrow> 'w world \<Rightarrow> ('w world \<times> 'w icontext) option" where
  "fake_filtered_withInformerFactory c w = (case fake_client_Get c of None \<Rightarrow> None | Some cl \<Rightarrow> inject_filtered cl c w)"

definition filtered_factory_Get :: "'w icontext \<Rightarrow> string \<Rightarrow> nat option" where
  "filtered_factory_Get c selector = map_of (cx_filteredFactory c) selector"

subsection \<open>Injection of informers\<close>

definition withInformer :: "'w icontext \<Rightarrow> 'w world \<Rightarrow> ('w world \<times> 'w icontext \<times> nat) option" where
  "withInformer c w =
     (case factory_Get c of
        None \<Rightarrow> None
      | Some n \<Rightarrow>
          let infr = ResolutionRequests (V1alpha1 (Resolution n w)) in
          case Informer infr w of (w', i) \<Rightarrow> Some (w', c\<lparr>cx_informer := Some (Shared infr)\<rparr>, i))"

definition withDynamicInformer :: "'w icontext \<Rightarrow> 'w icontext option" where
  "withDynamicInformer c =
     (case client_Get c of
        Inl _ \<Rightarrow> None
      | Inr cl \<Rightarrow> Some (c\<lparr>cx_informer := Some (Wrapper cl [] (cx_resourceVersion c))\<rparr>))"

definition informer_Get :: "'w icontext \<Rightarrow> 'w rr_informer option" where
  "informer_Get c = cx_informer c"

fun filtered_informer_loop ::
  "string list \<Rightarrow> 'w icontext \<Rightarrow> 'w world \<Rightarrow> nat list \<Rightarrow> ('w world \<times> 'w icontext \<times> nat list) option" where
  "filtered_informer_loop [] c w infs = Some (w, c, infs)"
| "filtered_informer_loop (selector # rest) c w infs =
     (case filtered_factory_Get c selector of
        None \<Rightarrow> None
      | Some n \<Rightarrow>
          let infr = ResolutionRequests (V1alpha1 (Resolution n w)) in
          case Informer infr w of
            (w', i) \<Rightarrow>
              filtered_informer_loop rest (c\<lparr>cx_filteredInformer := AList.update selector (Shared infr) (cx_filteredInformer c)\<rparr>) w' (infs @ [i]))"

definition filtered_withInformer :: "'w icontext \<Rightarrow> 'w world \<Rightarrow> ('w world \<times> 'w icontext \<times> nat list) option" where
  "filtered_withInformer c w =
     (case cx_labels c of None \<Rightarrow> None | Some labelSelectors \<Rightarrow> filtered_informer_loop labelSelectors c w [])"

fun filtered_dynamic_loop :: "string list \<Rightarrow> 'w icontext \<Rightarrow> 'w icontext option" where
  "filtered_dynamic_loop [] c = Some c"
| "filtered_dynamic_loop (selector # rest) c =
     (case client_Get c of
        Inl _ \<Rightarrow> None
      | Inr cl \<Rightarrow>
          filtered_dynamic_loop rest
            (c\<lparr>cx_filteredInformer := AList.update selector (FilteredWrapper cl [] selector) (cx_filteredInformer c)\<rparr>))"

definition filtered_withDynamicInformer :: "'w icontext \<Rightarrow> 'w icontext option" where
  "filtered_withDynamicInformer c =
     (case cx_labels c of None \<Rightarrow> None | Some labelSelectors \<Rightarrow> filtered_dynamic_loop labelSelectors c)"

definition filtered_informer_Get :: "'w icontext \<Rightarrow> string \<Rightarrow> 'w rr_informer option" where
  "filtered_informer_Get c selector = map_of (cx_filteredInformer c) selector"

subsection \<open>Lemmas: one informer for each type, run once\<close>

text \<open>What the clients of the factories can do, in any order.\<close>

datatype 'w factory_option = OptResync "(string \<times> duration) list" | OptTweak "tweak option" | OptNamespace string

primrec option_fun :: "'w factory_option \<Rightarrow> 'w factory \<Rightarrow> 'w factory" where
  "option_fun (OptResync m) = WithCustomResyncConfig m"
| "option_fun (OptTweak tw) = WithTweakListOptions tw"
| "option_fun (OptNamespace ns) = WithNamespace ns"

datatype 'w factory_op =
    NewFactory "'w versioned" duration "'w factory_option list"
  | AskInformer nat string resolutionRequestInformer
  | StartFactory nat

definition factory_exec :: "'w factory_op \<Rightarrow> 'w world \<Rightarrow> 'w world" where
  "factory_exec op w =
     (case op of
        NewFactory cl d opts \<Rightarrow> fst (NewSharedInformerFactoryWithOptions cl d (map option_fun opts) w)
      | AskInformer n t ri \<Rightarrow> if n < length (iw_factories w) then fst (InformerFor n t (defaultInformer ri) w) else w
      | StartFactory n \<Rightarrow> if n < length (iw_factories w) then Start n w else w)"

definition factory_run :: "'w factory_op list \<Rightarrow> 'w world \<Rightarrow> 'w world" where
  "factory_run ops w = foldl (\<lambda>w op. factory_exec op w) w ops"

text \<open>The informers of a factory exist, one for each type; one that was started has run once, and the
  others have not run.\<close>

definition factory_ok :: "'w informer list \<Rightarrow> 'w factory \<Rightarrow> bool" where
  "factory_ok xs f \<longleftrightarrow>
     distinct (map fst (f_informers f)) \<and> (\<forall>t. started f t \<longrightarrow> t \<in> fst ` set (f_informers f)) \<and>
     (\<forall>t i. (t, i) \<in> set (f_informers f) \<longrightarrow> i < length xs \<and> if_runs (xs ! i) = (if started f t then 1 else 0))"

definition has_informer :: "'w world \<Rightarrow> nat \<Rightarrow> string \<Rightarrow> nat \<Rightarrow> bool" where
  "has_informer w n t i \<longleftrightarrow> n < length (iw_factories w) \<and> (t, i) \<in> set (f_informers (iw_factories w ! n))"

definition world_ok :: "'w world \<Rightarrow> bool" where
  "world_ok w \<longleftrightarrow>
     (\<forall>n < length (iw_factories w). factory_ok (iw_informers w) (iw_factories w ! n)) \<and>
     (\<forall>m n t u i. has_informer w m t i \<longrightarrow> has_informer w n u i \<longrightarrow> m = n \<and> t = u)"

lemma start_loop_props:
  assumes "start_loop L f xs = (f', xs')"
  shows "f' = f\<lparr>f_startedInformers := f_startedInformers f'\<rparr>" "length xs' = length xs"
    and "started f' t = (started f t \<or> t \<in> fst ` set L)"
  using assms by (induction L f xs rule: start_loop.induct)
    (auto simp: run_informer_def started_def update_conv split: if_splits)

lemma start_loop_runs:
  assumes "start_loop L f xs = (f', xs')" "distinct (map fst L)" "distinct (map snd L)" "j < length xs"
  shows "if_runs (xs' ! j) = if_runs (xs ! j) + (if \<exists>t. (t, j) \<in> set L \<and> \<not> started f t then 1 else 0)"
  using assms
proof (induction L f xs rule: start_loop.induct)
  case (2 t i rest f xs)
  let ?f = "f\<lparr>f_startedInformers := AList.update t True (f_startedInformers f)\<rparr>"
  have t: "(t, k) \<notin> set rest" for k using 2(4) by force
  have i: "(u, i) \<notin> set rest" for u using 2(5) by force
  have st: "started ?f u = (u = t \<or> started f u)" for u by (simp add: started_def update_conv)
  show ?case
  proof (cases "started f t")
    case True
    with 2 have "if_runs (xs' ! j) = if_runs (xs ! j) + (if \<exists>t. (t, j) \<in> set rest \<and> \<not> started f t then 1 else 0)" by simp
    with True show ?thesis by auto
  next
    case False
    with 2 have *: "if_runs (xs' ! j) = if_runs (run_informer i xs ! j) + (if \<exists>t. (t, j) \<in> set rest \<and> \<not> started ?f t then 1 else 0)"
      by (simp add: run_informer_def)
    have "(\<exists>u. (u, j) \<in> set rest \<and> \<not> started ?f u) = (\<exists>u. (u, j) \<in> set rest \<and> \<not> started f u)" using st t by metis
    with * i False 2(6) show ?thesis by (cases "i = j") (auto simp: run_informer_def)
  qed
qed simp

lemma option_funs_frame:
  "f_informers (foldl (\<lambda>f opt. opt f) f (map option_fun opts)) = f_informers f \<and>
   f_startedInformers (foldl (\<lambda>f opt. opt f) f (map option_fun opts)) = f_startedInformers f"
proof (induction opts arbitrary: f)
  case (Cons opt opts)
  then show ?case by (cases opt) (simp_all add: WithCustomResyncConfig_def WithTweakListOptions_def WithNamespace_def)
qed simp

lemma world_ok_empty: "world_ok empty_world"
  by (simp add: world_ok_def empty_world_def has_informer_def)

lemma world_ok_new:
  assumes "world_ok w"
  shows "world_ok (fst (NewSharedInformerFactoryWithOptions cl d (map option_fun opts) w))"
    and "has_informer w n t i \<Longrightarrow> has_informer (fst (NewSharedInformerFactoryWithOptions cl d (map option_fun opts) w)) n t i"
proof -
  define f where "f = foldl (\<lambda>f opt. opt f)
    \<lparr> f_client = cl, f_namespace = [], f_tweakListOptions = None, f_defaultResync = d,
      f_customResync = [], f_informers = [], f_startedInformers = [] \<rparr> (map option_fun opts)"
  have f: "f_informers f = []" "f_startedInformers f = []" unfolding f_def by (simp_all add: option_funs_frame)
  have w': "fst (NewSharedInformerFactoryWithOptions cl d (map option_fun opts) w) = w\<lparr>iw_factories := iw_factories w @ [f]\<rparr>"
    by (simp add: NewSharedInformerFactoryWithOptions_def f_def Let_def)
  have h: "has_informer (w\<lparr>iw_factories := iw_factories w @ [f]\<rparr>) n t i = has_informer w n t i" for n t i
    by (auto simp: has_informer_def nth_append f less_Suc_eq)
  have "factory_ok (iw_informers w) f" by (simp add: factory_ok_def f started_def)
  then show "world_ok (fst (NewSharedInformerFactoryWithOptions cl d (map option_fun opts) w))"
    using assms unfolding w' world_ok_def h by (simp add: nth_append less_Suc_eq)
  show "has_informer w n t i \<Longrightarrow> has_informer (fst (NewSharedInformerFactoryWithOptions cl d (map option_fun opts) w)) n t i"
    unfolding w' h .
qed

lemma update_new: "map_of al k = None \<Longrightarrow> AList.update k v al = al @ [(k, v)]"
  by (induction al) (auto split: if_splits)

lemma has_informer_map_of:
  assumes "world_ok w" "n < length (iw_factories w)"
  shows "map_of (f_informers (iw_factories w ! n)) t = Some i \<longleftrightarrow> has_informer w n t i"
  using assms by (simp add: has_informer_def world_ok_def factory_ok_def)

lemma factory_ok_append: "factory_ok xs f \<Longrightarrow> factory_ok (xs @ [x]) f"
  by (auto simp: factory_ok_def nth_append less_Suc_eq)

lemma has_informer_bound: "world_ok w \<Longrightarrow> has_informer w n t i \<Longrightarrow> i < length (iw_informers w)"
  by (auto simp: world_ok_def has_informer_def factory_ok_def)

lemma InformerFor_ok:
  assumes "world_ok w" "n < length (iw_factories w)" "InformerFor n t (defaultInformer ri) w = (w', i)"
  shows "world_ok w'" "has_informer w' n t i" "has_informer w m u j \<Longrightarrow> has_informer w' m u j"
proof -
  let ?f = "iw_factories w ! n"
  have "world_ok w' \<and> has_informer w' n t i \<and> (has_informer w m u j \<longrightarrow> has_informer w' m u j)"
  proof (cases "map_of (f_informers ?f) t")
    case (Some k)
    with assms have "w' = w" "i = k" by (simp_all add: InformerFor_def)
    with Some assms has_informer_map_of [OF assms(1,2)] show ?thesis by simp
  next
    case None
    define x :: "'a informer" where
      "x = defaultInformer ri (f_client ?f) (case map_of (f_customResync ?f) t of Some d \<Rightarrow> d | None \<Rightarrow> f_defaultResync ?f)"
    define f where "f = ?f\<lparr>f_informers := f_informers ?f @ [(t, length (iw_informers w))]\<rparr>"
    have w': "w' = w\<lparr>iw_informers := iw_informers w @ [x], iw_factories := (iw_factories w)[n := f]\<rparr>" and i: "i = length (iw_informers w)"
      using assms(3) None by (auto simp: InformerFor_def Let_def x_def f_def update_new)
    have h: "has_informer w' m u j \<longleftrightarrow> has_informer w m u j \<or> (m = n \<and> u = t \<and> j = i)" for m u j
      using assms(2) by (auto simp: has_informer_def w' f_def i nth_list_update)
    have ok: "factory_ok (iw_informers w) (iw_factories w ! k)" if "k < length (iw_factories w)" for k
      using assms(1) that by (simp add: world_ok_def)
    have fresh: "t \<notin> fst ` set (f_informers ?f)" using None by (simp add: map_of_eq_None_iff)
    moreover have "started f u = started ?f u" for u by (simp add: started_def f_def)
    ultimately have "factory_ok (iw_informers w @ [x]) f"
      using ok [OF assms(2)] by (auto simp: factory_ok_def f_def x_def defaultInformer_def NewFilteredResolutionRequestInformer_def nth_append less_Suc_eq)
    then have "factory_ok (iw_informers w') (iw_factories w' ! k)" if "k < length (iw_factories w')" for k
      using that ok factory_ok_append by (cases "k = n") (auto simp: w')
    moreover have "\<not> has_informer w k u i" for k u using has_informer_bound [OF assms(1)] i by blast
    ultimately show ?thesis using assms(1) h unfolding world_ok_def by metis
  qed
  then show "world_ok w'" "has_informer w' n t i" "has_informer w m u j \<Longrightarrow> has_informer w' m u j" by simp_all
qed

lemma Start_ok:
  assumes "world_ok w" "n < length (iw_factories w)"
  shows "world_ok (Start n w)" "has_informer (Start n w) m t i = has_informer w m t i"
    and "has_informer w n t i \<Longrightarrow> if_runs (iw_informers (Start n w) ! i) = 1"
    and "j < length (iw_informers w) \<Longrightarrow> if_runs (iw_informers w ! j) \<le> if_runs (iw_informers (Start n w) ! j)"
proof -
  let ?f = "iw_factories w ! n"
  obtain f xs where loop: "start_loop (f_informers ?f) ?f (iw_informers w) = (f, xs)" by force
  note props = start_loop_props [OF loop]
  have w': "Start n w = w\<lparr>iw_factories := (iw_factories w)[n := f], iw_informers := xs\<rparr>" by (simp add: Start_def loop)
  have fi: "f_informers f = f_informers ?f" by (subst props(1)) simp
  have h: "has_informer (Start n w) m t i = has_informer w m t i" for m t i
    using assms(2) by (auto simp: has_informer_def w' nth_list_update fi)
  have uniq: "m = k \<and> t = u" if "has_informer w m t i" "has_informer w k u i" for m k t u i
    using assms(1) that by (auto simp: world_ok_def)
  have ok: "factory_ok (iw_informers w) (iw_factories w ! k)" if "k < length (iw_factories w)" for k
    using assms(1) that by (simp add: world_ok_def)
  have keys: "distinct (map fst (f_informers ?f))" using ok [OF assms(2)] by (simp add: factory_ok_def)
  have "inj_on snd (set (f_informers ?f))"
    using uniq assms(2) by (intro inj_onI) (auto simp: has_informer_def)
  then have vals: "distinct (map snd (f_informers ?f))" using keys by (simp add: distinct_map)
  have runs: "if_runs (xs ! j) = if_runs (iw_informers w ! j) + (if \<exists>t. has_informer w n t j \<and> \<not> started ?f t then 1 else 0)"
    if "j < length (iw_informers w)" for j
    using start_loop_runs [OF loop keys vals that] assms(2) by (simp add: has_informer_def)
  have run1: "if_runs (xs ! i) = 1" if "has_informer w n t i" for t i
  proof -
    have "(\<exists>u. has_informer w n u i \<and> \<not> started ?f u) = (\<not> started ?f t)" using uniq that by metis
    then show ?thesis using runs [OF has_informer_bound [OF assms(1) that]] ok [OF assms(2)] that
      by (auto simp: factory_ok_def has_informer_def)
  qed
  show "has_informer (Start n w) m t i = has_informer w m t i" by (rule h)
  show "has_informer w n t i \<Longrightarrow> if_runs (iw_informers (Start n w) ! i) = 1" using run1 by (simp add: w')
  show "j < length (iw_informers w) \<Longrightarrow> if_runs (iw_informers w ! j) \<le> if_runs (iw_informers (Start n w) ! j)"
    using runs by (simp add: w')
  have "factory_ok xs f"
  proof -
    have "started f t" if "(t, i) \<in> set (f_informers ?f)" for t i using that by (force simp: props(3))
    moreover have "t \<in> fst ` set (f_informers ?f)" if "started f t" for t
      using that ok [OF assms(2)] by (auto simp: props(3) factory_ok_def)
    ultimately show ?thesis using keys run1 assms(2) ok [OF assms(2)]
      by (simp add: factory_ok_def fi props(2) has_informer_def)
  qed
  moreover have "factory_ok xs (iw_factories w ! k)" if k: "k < length (iw_factories w)" "k \<noteq> n" for k
  proof -
    have "if_runs (xs ! i) = if_runs (iw_informers w ! i)" if "has_informer w k u i" for u i
    proof -
      have "\<not> (\<exists>t. has_informer w n t i \<and> \<not> started ?f t)" using uniq [OF that] k(2) by metis
      then show ?thesis using runs [OF has_informer_bound [OF assms(1) that]] by simp
    qed
    then show ?thesis using ok [OF k(1)] k(1) by (auto simp: factory_ok_def props(2) has_informer_def)
  qed
  ultimately have "factory_ok xs ((iw_factories w)[n := f] ! k)" if "k < length (iw_factories w)" for k
    using that by (cases "k = n") simp_all
  then show "world_ok (Start n w)" using assms(1) by (simp add: world_ok_def h) (simp add: w')
qed

lemma has_informer_runs: "world_ok w \<Longrightarrow> has_informer w n t i \<Longrightarrow> if_runs (iw_informers w ! i) \<le> 1"
  by (auto simp: world_ok_def has_informer_def factory_ok_def)

lemma InformerFor_runs:
  "j < length (iw_informers w) \<Longrightarrow> if_runs (iw_informers (fst (InformerFor n t nf w)) ! j) = if_runs (iw_informers w ! j)"
  by (simp add: InformerFor_def Let_def nth_append split: option.split)

lemma factory_exec_ok:
  assumes "world_ok w"
  shows "world_ok (factory_exec op w)" "has_informer w n t i \<Longrightarrow> has_informer (factory_exec op w) n t i"
    and "j < length (iw_informers w) \<Longrightarrow> if_runs (iw_informers w ! j) \<le> if_runs (iw_informers (factory_exec op w) ! j)"
proof -
  have "world_ok (factory_exec op w) \<and> (has_informer w n t i \<longrightarrow> has_informer (factory_exec op w) n t i) \<and>
    (j < length (iw_informers w) \<longrightarrow> if_runs (iw_informers w ! j) \<le> if_runs (iw_informers (factory_exec op w) ! j))"
  proof (cases op)
    case (NewFactory cl d opts)
    then show ?thesis using world_ok_new [OF assms]
      by (simp add: factory_exec_def) (simp add: NewSharedInformerFactoryWithOptions_def Let_def)
  next
    case (AskInformer k u ri)
    then show ?thesis using assms InformerFor_ok [OF assms, of k u ri] InformerFor_runs [of j w k u "defaultInformer ri"]
      by (cases "InformerFor k u (defaultInformer ri) w") (auto simp: factory_exec_def)
  next
    case (StartFactory k)
    then show ?thesis using assms Start_ok [OF assms, of k] by (simp add: factory_exec_def)
  qed
  then show "world_ok (factory_exec op w)" "has_informer w n t i \<Longrightarrow> has_informer (factory_exec op w) n t i"
    "j < length (iw_informers w) \<Longrightarrow> if_runs (iw_informers w ! j) \<le> if_runs (iw_informers (factory_exec op w) ! j)"
    by simp_all
qed

lemma factory_run_ok:
  "world_ok w \<Longrightarrow> world_ok (factory_run ops w) \<and> (has_informer w n t i \<longrightarrow> has_informer (factory_run ops w) n t i)"
  by (induction ops arbitrary: w) (auto simp: factory_run_def intro: factory_exec_ok)

lemma factory_run_runs:
  "world_ok w \<Longrightarrow> has_informer w n t i \<Longrightarrow> if_runs (iw_informers w ! i) \<le> if_runs (iw_informers (factory_run ops w) ! i)"
proof (induction ops arbitrary: w)
  case (Cons op ops)
  have "if_runs (iw_informers w ! i) \<le> if_runs (iw_informers (factory_exec op w) ! i)"
    using factory_exec_ok(3) [OF Cons(2)] has_informer_bound [OF Cons(2,3)] by blast
  also have "\<dots> \<le> if_runs (iw_informers (factory_run ops (factory_exec op w)) ! i)"
    using Cons factory_exec_ok by blast
  finally show ?case by (simp add: factory_run_def)
qed (simp add: factory_run_def)

lemma factory_run_started:
  assumes "world_ok w" "has_informer w n t i" "StartFactory n \<in> set ops"
  shows "if_runs (iw_informers (factory_run ops w) ! i) = 1"
proof -
  obtain as bs where ops: "ops = as @ StartFactory n # bs" using assms(3) by (meson split_list)
  define v where "v = factory_run as w"
  have v: "world_ok v" "has_informer v n t i" using factory_run_ok [OF assms(1)] assms(2) by (simp_all add: v_def)
  then have n: "n < length (iw_factories v)" by (simp add: has_informer_def)
  note st = Start_ok [OF v(1) n]
  have "factory_run ops w = factory_run bs (Start n v)" using n by (simp add: factory_run_def ops v_def factory_exec_def)
  then have "1 \<le> if_runs (iw_informers (factory_run ops w) ! i)"
    using factory_run_runs [OF st(1), of n t i bs] st(2,3) v(2) by simp
  moreover have "world_ok (factory_run ops w)" "has_informer (factory_run ops w) n t i"
    using factory_run_ok [OF assms(1)] assms(2) by simp_all
  ultimately show ?thesis using has_informer_runs by fastforce
qed

subsection \<open>Lemmas: the filtered factories\<close>

lemma labelSelector_set [simp]: "labelSelector (set_labelSelector s l) = s"
  by (simp add: labelSelector_def set_labelSelector_def set_param_def update_conv delete_conv split: list.split)

text \<open>A factory that lists and watches with the value of the captured variable \<open>v\<close>.\<close>

definition reads_var :: "nat \<Rightarrow> 'w versioned \<Rightarrow> 'w icontext \<Rightarrow> 'w factory \<Rightarrow> bool" where
  "reads_var v cl c f \<longleftrightarrow>
     f_tweakListOptions f = Some (\<lambda>vars l. set_labelSelector (vars ! v) l) \<and> f_client f = cl \<and>
     f_namespace f = cx_namespace c \<and> f_defaultResync f = GetResyncPeriod c \<and> f_informers f = []"

lemma new_factory_reads_var:
  assumes "NewSharedInformerFactoryWithOptions cl (GetResyncPeriod c)
     (scope_option c @ [WithTweakListOptions (Some (\<lambda>vars l. set_labelSelector (vars ! v) l))]) w = (w', n)"
  shows "n = length (iw_factories w)" "iw_vars w' = iw_vars w"
    and "\<exists>f. iw_factories w' = iw_factories w @ [f] \<and> reads_var v cl c f"
  using assms by (auto simp: NewSharedInformerFactoryWithOptions_def Let_def scope_option_def WithNamespace_def WithTweakListOptions_def
      reads_var_def split: if_splits)

lemma filtered_loop:
  assumes "filtered_factory_loop cl v sels c w = (w', c')" "v < length (iw_vars w)"
  shows "iw_vars w' = (iw_vars w)[v := (if sels = [] then iw_vars w ! v else last sels)] \<and>
    (\<exists>fs. iw_factories w' = iw_factories w @ fs \<and> list_all (reads_var v cl c) fs) \<and>
    (\<forall>s \<in> set sels. \<exists>n. map_of (cx_filteredFactory c') s = Some n \<and> length (iw_factories w) \<le> n \<and> n < length (iw_factories w')) \<and>
    (\<forall>s. s \<notin> set sels \<longrightarrow> map_of (cx_filteredFactory c') s = map_of (cx_filteredFactory c) s)"
  using assms
proof (induction cl v sels c w rule: filtered_factory_loop.induct)
  case (2 cl v s sels c w)
  let ?w1 = "w\<lparr>iw_vars := (iw_vars w)[v := s]\<rparr>"
  obtain w2 n where new: "NewSharedInformerFactoryWithOptions cl (GetResyncPeriod c)
     (scope_option c @ [WithTweakListOptions (Some (\<lambda>vars l. set_labelSelector (vars ! v) l))]) ?w1 = (w2, n)" by force
  from new_factory_reads_var [OF new] obtain f where n: "n = length (iw_factories w)" and vars: "iw_vars w2 = (iw_vars w)[v := s]"
    and f: "iw_factories w2 = iw_factories w @ [f]" "reads_var v cl c f" by auto
  let ?c2 = "c\<lparr>cx_filteredFactory := AList.update s n (cx_filteredFactory c)\<rparr>"
  have rv: "reads_var v cl ?c2 = reads_var v cl c" by (auto simp: reads_var_def fun_eq_iff GetResyncPeriod_def)
  have loop: "filtered_factory_loop cl v sels ?c2 w2 = (w', c')" using 2(2) new by (simp add: Let_def)
  have "v < length (iw_vars w2)" using 2(3) vars by simp
  note ih = "2.IH" [OF refl refl new [symmetric] loop this, unfolded rv vars f(1)]
  from ih obtain fs where "iw_factories w' = (iw_factories w @ [f]) @ fs" "list_all (reads_var v cl c) fs" by blast
  then have fs: "\<exists>fs. iw_factories w' = iw_factories w @ fs \<and> list_all (reads_var v cl c) fs"
    using f(2) by (intro exI [of _ "f # fs"]) simp
  then have len: "length (iw_factories w) \<le> length (iw_factories w')" by auto
  have "length (iw_factories w) < length (iw_factories w')" using ih by auto
  moreover have "map_of (cx_filteredFactory c') s = Some n" if "s \<notin> set sels" using ih that by (simp add: update_conv)
  ultimately have "\<exists>n. map_of (cx_filteredFactory c') u = Some n \<and> length (iw_factories w) \<le> n \<and> n < length (iw_factories w')"
    if "u \<in> set (s # sels)" for u
    using ih that n by (cases "u \<in> set sels") (fastforce, simp)
  moreover have "map_of (cx_filteredFactory c') u = map_of (cx_filteredFactory c) u" if "u \<notin> set (s # sels)" for u
    using ih that by (simp add: update_conv)
  moreover have "iw_vars w' = (iw_vars w)[v := last (s # sels)]" using ih 2(3) by simp
  ultimately show ?case using fs by simp
qed simp

subsection \<open>Properties\<close>

text \<open>C22. Informers are shared and run once. Once a factory was asked for the informer of a type, it answers
  with that same informer for ever, whatever its clients and those of other factories do next and
  in whatever order; no other factory and no other type has that informer; it has never been run
  twice, and from the first start of the factory on it has been run.\<close>

theorem informers_shared:
  assumes "w = factory_run ops empty_world" "n < length (iw_factories w)"
    and "InformerFor n t (defaultInformer ri) w = (w1, i)" "w2 = factory_run ops' w1"
  shows "InformerFor n t nf w2 = (w2, i) \<and>
    (\<forall>m u. m < length (iw_factories w2) \<and> map_of (f_informers (iw_factories w2 ! m)) u = Some i \<longrightarrow> m = n \<and> u = t) \<and>
    if_runs (iw_informers w2 ! i) \<le> 1 \<and>
    (StartFactory n \<in> set ops' \<longrightarrow> if_runs (iw_informers w2 ! i) = 1)"
proof -
  have w: "world_ok w" unfolding assms(1) using factory_run_ok [OF world_ok_empty] by blast
  note w1 = InformerFor_ok [OF w assms(2,3)]
  have w2: "world_ok w2" "has_informer w2 n t i" using factory_run_ok [OF w1(1)] w1(2) assms(4) by simp_all
  then have n: "n < length (iw_factories w2)" by (simp add: has_informer_def)
  have "map_of (f_informers (iw_factories w2 ! n)) t = Some i" using has_informer_map_of [OF w2(1) n] w2(2) by simp
  then have "InformerFor n t nf w2 = (w2, i)" by (simp add: InformerFor_def)
  moreover have "m = n \<and> u = t" if "m < length (iw_factories w2) \<and> map_of (f_informers (iw_factories w2 ! m)) u = Some i" for m u
  proof -
    from that have "has_informer w2 m u i" using has_informer_map_of [OF w2(1)] by blast
    then show ?thesis using w2 unfolding world_ok_def by blast
  qed
  moreover have "StartFactory n \<in> set ops' \<Longrightarrow> if_runs (iw_informers w2 ! i) = 1"
    using factory_run_started [OF w1(1,2)] assms(4) by simp
  ultimately show ?thesis using has_informer_runs [OF w2] by simp
qed

definition example_versioned :: "nat versioned" where
  "example_versioned = clientset_of example_codec (echo_server example_request) example_client"

theorem informers_shared_witness:
  "\<exists>w1 w2. InformerFor 0 rr_go_type (defaultInformer \<lparr> ri_factory = 0, ri_namespace = [], ri_tweakListOptions = None \<rparr>)
       (factory_run [NewFactory example_versioned hour []] empty_world) = (w1, 0) \<and>
     w2 = factory_run [StartFactory 0, StartFactory 0] w1 \<and> if_runs (iw_informers w2 ! 0) = 1"
proof -
  let ?ri = "\<lparr> ri_factory = 0, ri_namespace = [], ri_tweakListOptions = None \<rparr> :: resolutionRequestInformer"
  let ?w = "factory_run [NewFactory example_versioned hour []] empty_world"
  have n: "0 < length (iw_factories ?w)"
    by (simp add: factory_run_def factory_exec_def NewSharedInformerFactoryWithOptions_def Let_def)
  have "map_of (f_informers (iw_factories ?w ! 0)) rr_go_type = None" "iw_informers ?w = []"
    by (simp_all add: factory_run_def factory_exec_def NewSharedInformerFactoryWithOptions_def Let_def empty_world_def)
  then obtain w1 where w1: "InformerFor 0 rr_go_type (defaultInformer ?ri) ?w = (w1, 0)"
    by (simp add: InformerFor_def Let_def)
  from informers_shared [OF refl n w1 refl, where ops' = "[StartFactory 0, StartFactory 0]"] w1 show ?thesis by simp
qed

text \<open>All filtered factories list with one selector. The closures that set the label selector of a
  filtered factory's lists and watches capture the loop's variable, which holds the last of the
  selectors once the loop is over: with two selectors or more, the factory that the context has
  for one of them lists the requests that the last of them selects.\<close>

theorem filtered_factories_use_last_selector:
  assumes "cx_client c = Some cl" "cx_labels c = Some sels" "s \<in> set sels"
    and "filtered_withInformerFactory c w = Some (w', c')" "filtered_factory_Get c' s = Some n"
    and "Informer (ResolutionRequests (V1alpha1 (Resolution n w'))) w' = (w'', i)"
  shows "labelSelector (tweaked w'' (iw_informers w'' ! i) options) = last sels"
proof -
  let ?v = "length (iw_vars w)"
  have loop: "filtered_factory_loop cl ?v sels c (w\<lparr>iw_vars := iw_vars w @ [[]]\<rparr>) = (w', c')"
    using assms(1,2,4) by (simp add: filtered_withInformerFactory_def client_Get_def inject_filtered_def)
  have "?v < length (iw_vars (w\<lparr>iw_vars := iw_vars w @ [[]]\<rparr>))" by simp
  note props = filtered_loop [OF loop this, simplified]
  have vars: "iw_vars w' ! ?v = last sels" using props assms(3) by auto
  obtain fs where fs: "iw_factories w' = iw_factories w @ fs" "list_all (reads_var ?v cl c) fs" using props by blast
  have n: "length (iw_factories w) \<le> n" "n < length (iw_factories w')"
    using props assms(3,5) by (auto simp: filtered_factory_Get_def)
  then have f: "reads_var ?v cl c (iw_factories w' ! n)" using fs by (auto simp: nth_append list_all_length)
  have "iw_vars w'' = iw_vars w'" "if_tweak (iw_informers w'' ! i) = Some (\<lambda>vars l. set_labelSelector (vars ! ?v) l)"
    using f assms(6) by (auto simp: Informer_def InformerFor_def Resolution_def ResolutionRequests_def V1alpha1_def reads_var_def Let_def
        defaultInformer_def NewFilteredResolutionRequestInformer_def)
  then show ?thesis by (simp add: tweaked_def vars)
qed

definition example_icontext :: "nat icontext" where
  "example_icontext =
     \<lparr> cx_config = True, cx_client = Some example_versioned, cx_namespace = [], cx_resync = None, cx_resourceVersion = [],
       cx_factory = None, cx_labels = Some [''app=a'', ''app=b''], cx_filteredFactory = [], cx_informer = None, cx_filteredInformer = [] \<rparr>"

theorem filtered_factories_use_last_selector_witness:
  "\<exists>w' c' w'' i. filtered_withInformerFactory example_icontext empty_world = Some (w', c') \<and>
     filtered_factory_Get c' ''app=a'' = Some 0 \<and>
     Informer (ResolutionRequests (V1alpha1 (Resolution 0 w'))) w' = (w'', i) \<and>
     labelSelector (tweaked w'' (iw_informers w'' ! i) no_list_options) = ''app=b''"
proof -
  obtain w' c' where inj: "filtered_withInformerFactory example_icontext empty_world = Some (w', c')"
    and get: "filtered_factory_Get c' ''app=a'' = Some 0"
    by (simp add: filtered_withInformerFactory_def client_Get_def example_icontext_def inject_filtered_def filtered_factory_Get_def
        NewSharedInformerFactoryWithOptions_def Let_def empty_world_def)
  obtain w'' i where i: "Informer (ResolutionRequests (V1alpha1 (Resolution 0 w'))) w' = (w'', i)" by force
  have ex: "cx_client example_icontext = Some example_versioned" "cx_labels example_icontext = Some [''app=a'', ''app=b'']"
    by (simp_all add: example_icontext_def)
  have "''app=a'' \<in> set [''app=a'', ''app=b'']" by simp
  from filtered_factories_use_last_selector [OF ex this inj get i, of no_list_options]
  have "labelSelector (tweaked w'' (iw_informers w'' ! i) no_list_options) = ''app=b''" by simp
  with inj get i show ?thesis by blast
qed

text \<open>What the injection gives a controller. With a client in the context, setting up the factory and the
  informer succeeds; the informer the context then has is the new factory's one for
  ResolutionRequests, whose lister reads the index of the informer that is handed to the caller,
  not yet running; it lists and watches through that client in the namespace the context is scoped
  to (all of them when it is not), unfiltered, with the context's resync period or ten hours.
  Without a client in the context the set-up panics.\<close>

theorem injected_informer:
  "case cx_client c of
     None \<Rightarrow> withInformerFactory c w = None
   | Some cl \<Rightarrow>
       (\<exists>w1 c1 w2 c2 i ri.
          withInformerFactory c w = Some (w1, c1) \<and> withInformer c1 w1 = Some (w2, c2, i) \<and>
          informer_Get c2 = Some (Shared ri) \<and> Lister ri w2 = (w2, i) \<and>
          cx_client c2 = Some cl \<and> i < length (iw_informers w2) \<and>
          if_resync (iw_informers w2 ! i) = (case cx_resync c of None \<Rightarrow> 10 * hour | Some d \<Rightarrow> d) \<and>
          if_runs (iw_informers w2 ! i) = 0 \<and>
          (\<forall>opts s. ListFunc w2 (iw_informers w2 ! i) opts s = v_List cl (cx_namespace c) opts s) \<and>
          (\<forall>opts s. WatchFunc w2 (iw_informers w2 ! i) opts s = v_Watch cl (cx_namespace c) opts s))"
proof (cases "cx_client c")
  case None
  then show ?thesis by (simp add: withInformerFactory_def client_Get_def)
next
  case (Some cl)
  define f :: "'a factory" where
    "f = \<lparr> f_client = cl, f_namespace = cx_namespace c, f_tweakListOptions = None, f_defaultResync = GetResyncPeriod c,
           f_customResync = [], f_informers = [], f_startedInformers = [] \<rparr>"
  define n where "n = length (iw_factories w)"
  define w1 where "w1 = w\<lparr>iw_factories := iw_factories w @ [f]\<rparr>"
  define ri where "ri = \<lparr> ri_factory = n, ri_namespace = cx_namespace c, ri_tweakListOptions = None \<rparr>"
  define x :: "'a informer" where "x = defaultInformer ri cl (GetResyncPeriod c)"
  define i where "i = length (iw_informers w)"
  define w2 where "w2 = w\<lparr>iw_informers := iw_informers w @ [x], iw_factories := iw_factories w @ [f\<lparr>f_informers := [(rr_go_type, i)]\<rparr>]\<rparr>"
  let ?c1 = "c\<lparr>cx_factory := Some n\<rparr>"
  let ?c2 = "?c1\<lparr>cx_informer := Some (Shared ri)\<rparr>"
  have 1: "withInformerFactory c w = Some (w1, ?c1)"
    by (simp add: Some withInformerFactory_def client_Get_def inject_factory_def NewSharedInformerFactoryWithOptions_def Let_def
        scope_option_def WithNamespace_def f_def n_def w1_def)
  have "Informer ri w1 = (w2, i)"
    by (simp add: Informer_def InformerFor_def ri_def n_def w1_def w2_def f_def x_def i_def Let_def)
  moreover have "ResolutionRequests (V1alpha1 (Resolution n w1)) = ri"
    by (simp add: ResolutionRequests_def V1alpha1_def Resolution_def Let_def w1_def n_def ri_def f_def)
  ultimately have 2: "withInformer ?c1 w1 = Some (w2, ?c2, i)" by (simp add: withInformer_def factory_Get_def Let_def)
  have 3: "Lister ri w2 = (w2, i)" by (simp add: Lister_def Informer_def InformerFor_def ri_def n_def w2_def)
  have 4: "iw_informers w2 ! i = x" "i < length (iw_informers w2)" by (simp_all add: w2_def i_def)
  have 5: "x = NewFilteredResolutionRequestInformer cl (cx_namespace c) (GetResyncPeriod c) [''namespace''] None"
    by (simp add: x_def defaultInformer_def ri_def)
  show ?thesis unfolding Some option.simps
    by (rule exI [of _ w1], rule exI [of _ ?c1], rule exI [of _ w2], rule exI [of _ ?c2], rule exI [of _ i], rule exI [of _ ri])
      (simp add: 1 2 3 4 5 Some informer_Get_def NewFilteredResolutionRequestInformer_def GetResyncPeriod_def
        ListFunc_def WatchFunc_def tweaked_def)
qed

end
