(* ===== verification/Injection.thy ===== *)
theory Injection
  imports Informers
begin

section \<open>The registry of injectors\<close>

text \<open>
  The \<^verbatim>\<open>init\<close> functions of \<^verbatim>\<open>pkg/client/injection\<close> and what knative makes of them at the start of a
  process: each package that is linked registers what it injects with one of three registries
  (\<^verbatim>\<open>Default\<close>, \<^verbatim>\<open>Dynamic\<close>, \<^verbatim>\<open>Fake\<close>), and \<^verbatim>\<open>SetupInformers\<close> runs clients, factories and informers in this
  order over the context. Only the packages of this repository register here; no duck type is
  registered. \<open>None\<close> is a panic.
\<close>

record 'w impl =
  im_clients :: "('w icontext \<Rightarrow> rest_config \<Rightarrow> 'w icontext option) list"
  im_dynamicClients :: "('w icontext \<Rightarrow> 'w icontext option) list"
  im_clientFetchers :: "('w icontext \<Rightarrow> 'w versioned option) list"
  im_factories :: "('w icontext \<Rightarrow> 'w world \<Rightarrow> ('w world \<times> 'w icontext) option) list"
  im_informers :: "('w icontext \<Rightarrow> 'w world \<Rightarrow> ('w world \<times> 'w icontext \<times> nat) option) list"
  im_filteredInformers :: "('w icontext \<Rightarrow> 'w world \<Rightarrow> ('w world \<times> 'w icontext \<times> nat list) option) list"
  im_dynamicInformers :: "('w icontext \<Rightarrow> 'w icontext option) list"

record 'w registry =
  rg_Default :: "'w impl"
  rg_Dynamic :: "'w impl"
  rg_Fake :: "'w impl"

definition empty_impl :: "'w impl" where
  "empty_impl = \<lparr> im_clients = [], im_dynamicClients = [], im_clientFetchers = [], im_factories = [], im_informers = [],
     im_filteredInformers = [], im_dynamicInformers = [] \<rparr>"

definition empty_registry :: "'w registry" where
  "empty_registry = \<lparr> rg_Default = empty_impl, rg_Dynamic = empty_impl, rg_Fake = empty_impl \<rparr>"

subsection \<open>Registration\<close>

definition RegisterClient :: "('w icontext \<Rightarrow> rest_config \<Rightarrow> 'w icontext option) \<Rightarrow> 'w impl \<Rightarrow> 'w impl" where
  "RegisterClient ci i = i\<lparr>im_clients := im_clients i @ [ci]\<rparr>"

definition RegisterClientFetcher :: "('w icontext \<Rightarrow> 'w versioned option) \<Rightarrow> 'w impl \<Rightarrow> 'w impl" where
  "RegisterClientFetcher f i = i\<lparr>im_clientFetchers := im_clientFetchers i @ [f]\<rparr>"

definition RegisterDynamicClient :: "('w icontext \<Rightarrow> 'w icontext option) \<Rightarrow> 'w impl \<Rightarrow> 'w impl" where
  "RegisterDynamicClient ci i = i\<lparr>im_dynamicClients := im_dynamicClients i @ [ci]\<rparr>"

definition RegisterInformerFactory ::
  "('w icontext \<Rightarrow> 'w world \<Rightarrow> ('w world \<times> 'w icontext) option) \<Rightarrow> 'w impl \<Rightarrow> 'w impl" where
  "RegisterInformerFactory ifi i = i\<lparr>im_factories := im_factories i @ [ifi]\<rparr>"

definition RegisterInformer ::
  "('w icontext \<Rightarrow> 'w world \<Rightarrow> ('w world \<times> 'w icontext \<times> nat) option) \<Rightarrow> 'w impl \<Rightarrow> 'w impl" where
  "RegisterInformer ii i = i\<lparr>im_informers := im_informers i @ [ii]\<rparr>"

definition RegisterFilteredInformers ::
  "('w icontext \<Rightarrow> 'w world \<Rightarrow> ('w world \<times> 'w icontext \<times> nat list) option) \<Rightarrow> 'w impl \<Rightarrow> 'w impl" where
  "RegisterFilteredInformers fii i = i\<lparr>im_filteredInformers := im_filteredInformers i @ [fii]\<rparr>"

definition RegisterDynamicInformer :: "('w icontext \<Rightarrow> 'w icontext option) \<Rightarrow> 'w impl \<Rightarrow> 'w impl" where
  "RegisterDynamicInformer ii i = i\<lparr>im_dynamicInformers := im_dynamicInformers i @ [ii]\<rparr>"

definition FetchAllClients :: "'w icontext \<Rightarrow> 'w impl \<Rightarrow> 'w versioned option list" where
  "FetchAllClients c i = map (\<lambda>f. f c) (im_clientFetchers i)"

subsection \<open>The init functions\<close>

text \<open>What the packages take from elsewhere: the codec, the server, the constructor of the discovery
  client, the error of building a transport and the REST client of the dynamic client.\<close>

record ('w, 'd) link_env =
  le_codec :: codec
  le_server :: "'w server"
  le_userAgent :: string
  le_discovery :: "rest_config \<Rightarrow> 'd res"
  le_httpErr :: "err option"
  le_dynamic :: rest_client

definition client_init :: "('w, 'd) link_env \<Rightarrow> 'w registry \<Rightarrow> 'w registry" where
  "client_init e r = r\<lparr>
     rg_Default :=
       RegisterClientFetcher (\<lambda>c. case client_Get c of Inl _ \<Rightarrow> None | Inr cl \<Rightarrow> Some cl)
         (RegisterClient (withClientFromConfig (le_codec e) (le_server e) (le_userAgent e) (le_discovery e) (le_httpErr e)) (rg_Default r)),
     rg_Dynamic := RegisterDynamicClient (\<lambda>c. Some (withClientFromDynamic (le_codec e) (le_server e) (le_dynamic e) c)) (rg_Dynamic r)\<rparr>"

definition factory_init :: "'w registry \<Rightarrow> 'w registry" where
  "factory_init r = r\<lparr>rg_Default := RegisterInformerFactory withInformerFactory (rg_Default r)\<rparr>"

definition filtered_factory_init :: "'w registry \<Rightarrow> 'w registry" where
  "filtered_factory_init r = r\<lparr>rg_Default := RegisterInformerFactory filtered_withInformerFactory (rg_Default r)\<rparr>"

definition informer_init :: "'w registry \<Rightarrow> 'w registry" where
  "informer_init r = r\<lparr>
     rg_Default := RegisterInformer withInformer (rg_Default r),
     rg_Dynamic := RegisterDynamicInformer withDynamicInformer (rg_Dynamic r)\<rparr>"

definition filtered_informer_init :: "'w registry \<Rightarrow> 'w registry" where
  "filtered_informer_init r = r\<lparr>
     rg_Default := RegisterFilteredInformers filtered_withInformer (rg_Default r),
     rg_Dynamic := RegisterDynamicInformer filtered_withDynamicInformer (rg_Dynamic r)\<rparr>"

text \<open>The packages for tests. Their informers are got from the context the same way.\<close>

definition fake_withInformer :: "'w icontext \<Rightarrow> 'w world \<Rightarrow> ('w world \<times> 'w icontext \<times> nat) option" where
  "fake_withInformer c w =
     (case factory_Get c of
        None \<Rightarrow> None
      | Some n \<Rightarrow>
          let infr = ResolutionRequests (V1alpha1 (Resolution n w)) in
          case Informer infr w of (w', i) \<Rightarrow> Some (w', c\<lparr>cx_informer := Some (Shared infr)\<rparr>, i))"

definition fake_filtered_withInformer :: "'w icontext \<Rightarrow> 'w world \<Rightarrow> ('w world \<times> 'w icontext \<times> nat list) option" where
  "fake_filtered_withInformer c w =
     (case cx_labels c of None \<Rightarrow> None | Some labelSelectors \<Rightarrow> filtered_informer_loop labelSelectors c w [])"

definition fake_client_init :: "(fake_state, 'd) link_env \<Rightarrow> fake_state registry \<Rightarrow> fake_state registry" where
  "fake_client_init e r = r\<lparr>rg_Fake :=
     RegisterClientFetcher fake_client_Get (RegisterClient (\<lambda>c cfg. fake_withClient (cd_ip (le_codec e)) c) (rg_Fake r))\<rparr>"

definition fake_factory_init :: "'w registry \<Rightarrow> 'w registry" where
  "fake_factory_init r = r\<lparr>rg_Fake := RegisterInformerFactory fake_withInformerFactory (rg_Fake r)\<rparr>"

definition fake_filtered_factory_init :: "'w registry \<Rightarrow> 'w registry" where
  "fake_filtered_factory_init r = r\<lparr>rg_Fake := RegisterInformerFactory fake_filtered_withInformerFactory (rg_Fake r)\<rparr>"

definition fake_informer_init :: "'w registry \<Rightarrow> 'w registry" where
  "fake_informer_init r = r\<lparr>rg_Fake := RegisterInformer fake_withInformer (rg_Fake r)\<rparr>"

definition fake_filtered_informer_init :: "'w registry \<Rightarrow> 'w registry" where
  "fake_filtered_informer_init r = r\<lparr>rg_Fake := RegisterFilteredInformers fake_filtered_withInformer (rg_Fake r)\<rparr>"

text \<open>Imports are initialised first. The controllers link the informer of ResolutionRequests, which imports
  the factory and the client.\<close>

definition linked_informer :: "('w, 'd) link_env \<Rightarrow> 'w registry" where
  "linked_informer e = informer_init (factory_init (client_init e empty_registry))"

definition linked_filtered :: "('w, 'd) link_env \<Rightarrow> 'w registry" where
  "linked_filtered e = filtered_informer_init (filtered_factory_init (client_init e empty_registry))"

subsection \<open>Setting up\<close>

fun chain :: "('s \<Rightarrow> 's option) list \<Rightarrow> 's \<Rightarrow> 's option" where
  "chain [] s = Some s"
| "chain (f # fs) s = (case f s of None \<Rightarrow> None | Some s' \<Rightarrow> chain fs s')"

definition SetupDynamic :: "'w impl \<Rightarrow> 'w icontext \<Rightarrow> 'w icontext option" where
  "SetupDynamic i c =
     (case chain (im_dynamicClients i) c of None \<Rightarrow> None | Some c1 \<Rightarrow> chain (im_dynamicInformers i) c1)"

definition SetupInformers ::
  "'w impl \<Rightarrow> 'w icontext \<Rightarrow> rest_config \<Rightarrow> 'w world \<Rightarrow> ('w world \<times> 'w icontext \<times> nat list) option" where
  "SetupInformers i c cfg w =
     (case chain (map (\<lambda>ci c. ci c cfg) (im_clients i)) c of
        None \<Rightarrow> None
      | Some c1 \<Rightarrow>
        (case chain (map (\<lambda>ifi (w, c). ifi c w) (im_factories i)) (w, c1) of
           None \<Rightarrow> None
         | Some (w2, c2) \<Rightarrow>
           (case chain (map (\<lambda>ii (w, c, infs). map_option (\<lambda>(w', c', infr). (w', c', infs @ [infr])) (ii c w)) (im_informers i)) (w2, c2, []) of
              None \<Rightarrow> None
            | Some s \<Rightarrow>
                chain (map (\<lambda>fii (w, c, infs). map_option (\<lambda>(w', c', filteredinfs). (w', c', infs @ filteredinfs)) (fii c w))
                  (im_filteredInformers i)) s)))"

text \<open>\<open>synced\<close> says whether the wait for an informer's cache ends before the stop. The first informer
  that does not sync is the error's.\<close>

definition StartInformers :: "(nat \<Rightarrow> bool) \<Rightarrow> nat list \<Rightarrow> 'w world \<Rightarrow> 'w world \<times> err option" where
  "StartInformers synced infs w =
     (w\<lparr>iw_informers := fold run_informer infs (iw_informers w)\<rparr>,
      (case find (\<lambda>k. \<not> synced (infs ! k)) [0..<length infs] of
         None \<Rightarrow> None
       | Some k \<Rightarrow> Some (ErrorString (''failed to wait for cache at index '' @ itoa (int k) @ '' to sync''))))"

definition EnableInjectionOrDie ::
  "'w impl \<Rightarrow> 'w icontext \<Rightarrow> rest_config \<Rightarrow> 'w world \<Rightarrow> ('w world \<times> 'w icontext \<times> nat list) option" where
  "EnableInjectionOrDie i c cfg w =
     (let cfg = (if cf_QPS cfg = 0 then cfg\<lparr>cf_QPS := 5\<rparr> else cfg);
          cfg = (if cf_Burst cfg = 0 then cfg\<lparr>cf_Burst := 10\<rparr> else cfg)
      in SetupInformers i (c\<lparr>cx_config := True\<rparr>) cfg w)"

subsection \<open>Lemmas\<close>

lemmas link_defs = linked_informer_def linked_filtered_def informer_init_def filtered_informer_init_def factory_init_def
  filtered_factory_init_def client_init_def empty_registry_def empty_impl_def RegisterClient_def RegisterClientFetcher_def
  RegisterDynamicClient_def RegisterInformerFactory_def RegisterInformer_def RegisterFilteredInformers_def RegisterDynamicInformer_def

definition injection_config :: "rest_config \<Rightarrow> rest_config" where
  "injection_config cfg =
     cfg\<lparr>cf_QPS := (if cf_QPS cfg = 0 then 5 else cf_QPS cfg), cf_Burst := (if cf_Burst cfg = 0 then 10 else cf_Burst cfg)\<rparr>"

lemma EnableInjection_eq:
  "EnableInjectionOrDie i c cfg w = SetupInformers i (c\<lparr>cx_config := True\<rparr>) (injection_config cfg) w"
  by (simp add: EnableInjectionOrDie_def injection_config_def Let_def)

lemma filtered_loop_labels: "filtered_factory_loop cl v sels c w = (w', c') \<Longrightarrow> cx_labels c' = cx_labels c"
  by (induction cl v sels c w rule: filtered_factory_loop.induct) (auto simp: Let_def split: prod.splits)

text \<open>The informers of the factories from number \<open>N\<close> on list with the tweak \<open>T\<close>.\<close>

definition tweaked_from :: "tweak \<Rightarrow> nat \<Rightarrow> 'w world \<Rightarrow> bool" where
  "tweaked_from T N w \<longleftrightarrow>
     (\<forall>n. N \<le> n \<and> n < length (iw_factories w) \<longrightarrow>
        f_tweakListOptions (iw_factories w ! n) = Some T \<and>
        (\<forall>t i. map_of (f_informers (iw_factories w ! n)) t = Some i \<longrightarrow>
           i < length (iw_informers w) \<and> if_tweak (iw_informers w ! i) = Some T))"

lemma Informer_tweaked:
  assumes "tweaked_from T N w" "N \<le> n" "n < length (iw_factories w)"
    and "Informer (ResolutionRequests (V1alpha1 (Resolution n w))) w = (w', i)"
  shows "tweaked_from T N w'" "i < length (iw_informers w')" "if_tweak (iw_informers w' ! i) = Some T"
    and "\<exists>xs. iw_informers w' = iw_informers w @ xs" "iw_vars w' = iw_vars w" "length (iw_factories w') = length (iw_factories w)"
proof -
  let ?f = "iw_factories w ! n"
  have f: "f_tweakListOptions ?f = Some T" using assms(1-3) by (simp add: tweaked_from_def)
  have ri: "ri_factory (ResolutionRequests (V1alpha1 (Resolution n w))) = n"
    by (simp add: ResolutionRequests_def V1alpha1_def Resolution_def Let_def)
  let ?P = "tweaked_from T N w' \<and> i < length (iw_informers w') \<and> if_tweak (iw_informers w' ! i) = Some T \<and>
    (\<exists>xs. iw_informers w' = iw_informers w @ xs) \<and> iw_vars w' = iw_vars w \<and> length (iw_factories w') = length (iw_factories w)"
  have ?P
  proof (cases "map_of (f_informers ?f) rr_go_type")
    case (Some k)
    with assms(4) have "w' = w" "i = k"
      by (simp_all add: Informer_def InformerFor_def ri)
    with Some assms(1-3) show ?thesis by (auto simp: tweaked_from_def)
  next
    case None
    define x :: "'a informer" where "x = defaultInformer (ResolutionRequests (V1alpha1 (Resolution n w))) (f_client ?f)
      (case map_of (f_customResync ?f) rr_go_type of Some d \<Rightarrow> d | None \<Rightarrow> f_defaultResync ?f)"
    have x: "if_tweak x = Some T"
      by (simp add: x_def defaultInformer_def NewFilteredResolutionRequestInformer_def ResolutionRequests_def V1alpha1_def
          Resolution_def Let_def f)
    have w': "w' = w\<lparr>iw_informers := iw_informers w @ [x],
        iw_factories := (iw_factories w)[n := ?f\<lparr>f_informers := f_informers ?f @ [(rr_go_type, i)]\<rparr>]\<rparr>"
      and i: "i = length (iw_informers w)"
      using assms(4) None by (auto simp: Informer_def InformerFor_def ri Let_def x_def update_new)
    have "f_tweakListOptions (iw_factories w' ! k) = Some T \<and>
        (\<forall>t j. map_of (f_informers (iw_factories w' ! k)) t = Some j \<longrightarrow>
           j < length (iw_informers w') \<and> if_tweak (iw_informers w' ! j) = Some T)"
      if k: "N \<le> k" "k < length (iw_factories w)" for k
    proof -
      have old: "f_tweakListOptions (iw_factories w ! k) = Some T"
        "\<And>t j. map_of (f_informers (iw_factories w ! k)) t = Some j \<Longrightarrow>
           j < length (iw_informers w) \<and> if_tweak (iw_informers w ! j) = Some T"
        using assms(1) k by (simp_all add: tweaked_from_def)
      have new: "j < length (iw_informers w') \<and> if_tweak (iw_informers w' ! j) = Some T"
        if "j = i \<or> (j < length (iw_informers w) \<and> if_tweak (iw_informers w ! j) = Some T)" for j
        using that x by (auto simp: w' i nth_append)
      show ?thesis
      proof (cases "k = n")
        case True
        then have "iw_factories w' ! k = ?f\<lparr>f_informers := f_informers ?f @ [(rr_go_type, i)]\<rparr>" using k by (simp add: w')
        with old new True show ?thesis by (auto simp: map_add_Some_iff split: if_splits)
      next
        case False
        then have "iw_factories w' ! k = iw_factories w ! k" by (simp add: w')
        with old new show ?thesis by auto
      qed
    qed
    moreover have "length (iw_factories w') = length (iw_factories w)" by (simp add: w')
    ultimately have "tweaked_from T N w'" unfolding tweaked_from_def by metis
    then show ?thesis by (simp add: w' i x)
  qed
  then show "tweaked_from T N w'" "i < length (iw_informers w')" "if_tweak (iw_informers w' ! i) = Some T"
    "\<exists>xs. iw_informers w' = iw_informers w @ xs" "iw_vars w' = iw_vars w" "length (iw_factories w') = length (iw_factories w)"
    by blast+
qed

lemma filtered_informer_loop_total:
  assumes "tweaked_from T N w"
    and "\<forall>s \<in> set sels. \<exists>n. map_of (cx_filteredFactory c) s = Some n \<and> N \<le> n \<and> n < length (iw_factories w)"
    and "\<forall>i \<in> set infs. i < length (iw_informers w) \<and> if_tweak (iw_informers w ! i) = Some T"
  shows "\<exists>w' c' infs'. filtered_informer_loop sels c w infs = Some (w', c', infs') \<and> length infs' = length infs + length sels \<and>
    (\<forall>i \<in> set infs'. i < length (iw_informers w') \<and> if_tweak (iw_informers w' ! i) = Some T) \<and> iw_vars w' = iw_vars w"
  using assms
proof (induction sels c w infs rule: filtered_informer_loop.induct)
  case (2 s sels c w infs)
  from 2(3) obtain n where n: "map_of (cx_filteredFactory c) s = Some n" "N \<le> n" "n < length (iw_factories w)" by auto
  let ?ri = "ResolutionRequests (V1alpha1 (Resolution n w))"
  obtain w1 i where i: "Informer ?ri w = (w1, i)" by force
  note w1 = Informer_tweaked [OF 2(2) n(2,3) i]
  let ?c1 = "c\<lparr>cx_filteredInformer := AList.update s (Shared ?ri) (cx_filteredInformer c)\<rparr>"
  have "\<forall>j \<in> set (infs @ [i]). j < length (iw_informers w1) \<and> if_tweak (iw_informers w1 ! j) = Some T"
    using 2(4) w1(2-4) by (auto simp: nth_append)
  moreover have "\<forall>s \<in> set sels. \<exists>n. map_of (cx_filteredFactory ?c1) s = Some n \<and> N \<le> n \<and> n < length (iw_factories w1)"
    using 2(3) w1(6) by simp
  ultimately have "\<exists>w' c' infs'. filtered_informer_loop sels ?c1 w1 (infs @ [i]) = Some (w', c', infs') \<and>
    length infs' = length (infs @ [i]) + length sels \<and>
    (\<forall>i \<in> set infs'. i < length (iw_informers w') \<and> if_tweak (iw_informers w' ! i) = Some T) \<and> iw_vars w' = iw_vars w1"
    using "2.IH" [OF _ refl i [symmetric] w1(1)] n(1) by (simp add: filtered_factory_Get_def)
  then show ?case using n(1) i w1(5) by (auto simp: filtered_factory_Get_def Let_def)
qed simp

subsection \<open>Properties\<close>


text \<open>C24. Filtered informers need selectors, and all select by the last one. A process that links the filtered
  packages panics unless its context was given selectors. With selectors it starts whenever its
  clientset can be built and gets one informer for each; but the closures that set the label
  selector capture the loop's variable, so that every one of these informers lists and watches the
  requests that the last selector selects.\<close>

theorem filtered_injection:
  "case cx_labels c of
     None \<Rightarrow> EnableInjectionOrDie (rg_Default (linked_filtered e)) c cfg w = None
   | Some sels \<Rightarrow>
       (case NewForConfigOrDie (le_userAgent e) (le_discovery e) (le_httpErr e) (injection_config cfg) of
          None \<Rightarrow> EnableInjectionOrDie (rg_Default (linked_filtered e)) c cfg w = None
        | Some cs \<Rightarrow>
            (\<exists>w' c' infs.
               EnableInjectionOrDie (rg_Default (linked_filtered e)) c cfg w = Some (w', c', infs) \<and> length infs = length sels \<and>
               list_all (\<lambda>i. \<forall>opts. labelSelector (tweaked w' (iw_informers w' ! i) opts) = last sels) infs))"
proof (cases "NewForConfigOrDie (le_userAgent e) (le_discovery e) (le_httpErr e) (injection_config cfg)")
  case None
  then show ?thesis
    by (simp add: EnableInjection_eq SetupInformers_def link_defs withClientFromConfig_def split: option.split)
next
  case (Some cs)
  define cl where "cl = clientset_of (le_codec e) (le_server e) (fst (cs_resolutionV1alpha1 cs))"
  define c1 where "c1 = c\<lparr>cx_config := True, cx_client := Some cl\<rparr>"
  have steps: "EnableInjectionOrDie (rg_Default (linked_filtered e)) c cfg w =
    (case filtered_withInformerFactory c1 w of None \<Rightarrow> None | Some (w2, c2) \<Rightarrow> filtered_withInformer c2 w2)"
    by (simp add: EnableInjection_eq SetupInformers_def link_defs withClientFromConfig_def Some cl_def [symmetric] c1_def [symmetric]
        option.map_ident split: option.split)
  show ?thesis
  proof (cases "cx_labels c")
    case None
    then show ?thesis by (simp add: steps filtered_withInformerFactory_def inject_filtered_def client_Get_def c1_def)
  next
    case lab: (Some sels)
    let ?v = "length (iw_vars w)"
    let ?T = "\<lambda>vars l. set_labelSelector (vars ! ?v) l"
    obtain w2 c2 where loop: "filtered_factory_loop cl ?v sels c1 (w\<lparr>iw_vars := iw_vars w @ [[]]\<rparr>) = (w2, c2)" by force
    have fact: "filtered_withInformerFactory c1 w = Some (w2, c2)"
      using loop lab by (simp add: filtered_withInformerFactory_def inject_filtered_def client_Get_def c1_def)
    have lab2: "cx_labels c2 = Some sels" using filtered_loop_labels [OF loop] lab by (simp add: c1_def)
    have "?v < length (iw_vars (w\<lparr>iw_vars := iw_vars w @ [[]]\<rparr>))" by simp
    note props = filtered_loop [OF loop this, simplified]
    obtain fs where fs: "iw_factories w2 = iw_factories w @ fs" "list_all (reads_var ?v cl c1) fs" using props by blast
    then have tw: "tweaked_from ?T (length (iw_factories w)) w2"
      by (auto simp: tweaked_from_def nth_append list_all_length reads_var_def)
    have fac: "\<forall>s \<in> set sels. \<exists>n. map_of (cx_filteredFactory c2) s = Some n \<and> length (iw_factories w) \<le> n \<and> n < length (iw_factories w2)"
      using props by blast
    obtain w3 c3 infs where out: "filtered_informer_loop sels c2 w2 [] = Some (w3, c3, infs)" "length infs = length sels"
      "\<forall>i \<in> set infs. if_tweak (iw_informers w3 ! i) = Some ?T" "iw_vars w3 = iw_vars w2"
      using filtered_informer_loop_total [OF tw fac, of "[]"] by auto
    have "sels \<noteq> [] \<Longrightarrow> iw_vars w2 ! ?v = last sels" using props by auto
    with out have "list_all (\<lambda>i. \<forall>opts. labelSelector (tweaked w3 (iw_informers w3 ! i) opts) = last sels) infs"
      by (cases "sels = []") (auto simp: list_all_iff tweaked_def)
    then show ?thesis using out(1,2) by (simp add: steps fact filtered_withInformer_def lab2 lab Some)
  qed
qed

end
