(* ===== verification/Dynamic_Lister.thy ===== *)
theory Dynamic_Lister
  imports Informers
begin

section \<open>Listers over dynamic clients\<close>

text \<open>
  The wrappers that the injection of dynamic informers puts into a context
  (\<^verbatim>\<open>pkg/client/injection/informers/.../resolutionrequest.go\<close> and its \<^verbatim>\<open>filtered\<close> variant): listers that print
  the selector they are given into the options of a request and let the server select. What a
  client promises about label selectors is the locale \<open>label_client\<close>; the fake clientset keeps it.
\<close>

subsection \<open>The wrappers of dynamic clients\<close>

text \<open>Listers that ask the server each time. \<open>w.ResolutionRequests(namespace)\<close> sets the namespace.\<close>

fun wrapper_ResolutionRequests :: "'w rr_informer \<Rightarrow> string \<Rightarrow> 'w rr_informer" where
  "wrapper_ResolutionRequests (Wrapper cl _ rv) namespace = Wrapper cl namespace rv"
| "wrapper_ResolutionRequests (FilteredWrapper cl _ selector) namespace = FilteredWrapper cl namespace selector"
| "wrapper_ResolutionRequests (Shared i) namespace = Shared i"

fun SetResourceVersion :: "string \<Rightarrow> 'w rr_informer \<Rightarrow> 'w rr_informer" where
  "SetResourceVersion rv (Wrapper cl ns _) = Wrapper cl ns rv"
| "SetResourceVersion rv i = i"

definition wrapper_List :: "'w versioned \<Rightarrow> string \<Rightarrow> string \<Rightarrow> selector \<Rightarrow> 'w \<Rightarrow> ('w \<times> rr list res) option" where
  "wrapper_List cl ns rv selector w =
     (let opts = no_list_options\<lparr>lo_params := set_param ''resourceVersion'' rv (set_param ''labelSelector'' (Selector_String selector) [])\<rparr> in
      map_option (\<lambda>(w', lo). (w', map_sum id ls_items lo)) (v_List cl ns opts w))"

definition wrapper_Get :: "'w versioned \<Rightarrow> string \<Rightarrow> string \<Rightarrow> string \<Rightarrow> 'w \<Rightarrow> 'w \<times> rr res" where
  "wrapper_Get cl ns rv name w = v_Get cl ns name (set_param ''resourceVersion'' rv []) w"

definition filtered_wrapper_List ::
  "(nat \<Rightarrow> bool) \<Rightarrow> 'w versioned \<Rightarrow> string \<Rightarrow> string \<Rightarrow> selector \<Rightarrow> 'w \<Rightarrow> ('w \<times> rr list res) option" where
  "filtered_wrapper_List ip cl ns wselector selector w =
     (case ParseToRequirements ip wselector of
        None \<Rightarrow> None
      | Some (Inl e) \<Rightarrow> Some (w, Inl e)
      | Some (Inr reqs) \<Rightarrow>
          let selector = Selector_Add selector reqs;
              opts = set_labelSelector (Selector_String selector) no_list_options in
          map_option (\<lambda>(w', lo). (w', map_sum id ls_items lo)) (v_List cl ns opts w))"

definition filtered_wrapper_Get :: "'w versioned \<Rightarrow> string \<Rightarrow> string \<Rightarrow> 'w \<Rightarrow> 'w \<times> rr res" where
  "filtered_wrapper_Get cl ns name w = v_Get cl ns name [] w"

subsection \<open>What a client promises about label selectors\<close>

definition matching :: "selector \<Rightarrow> rr list \<Rightarrow> rr list" where
  "matching sel rs = filter (\<lambda>r. Selector_Matches sel (m_labels (meta r))) rs"

text \<open>The options of the wrappers carry the printed selector and nothing about fields.\<close>

lemma wrapper_options [simp]:
  "labelSelector (no_list_options\<lparr>lo_params := set_param ''resourceVersion'' rv (set_param ''labelSelector'' s [])\<rparr>) = s"
  "fieldSelector (no_list_options\<lparr>lo_params := set_param ''resourceVersion'' rv (set_param ''labelSelector'' s [])\<rparr>) = []"
  "fieldSelector (set_labelSelector s no_list_options) = []"
  by (simp_all add: labelSelector_def fieldSelector_def set_labelSelector_def no_list_options_def set_param_def update_conv delete_conv
      split: list.split)

locale label_client =
  fixes ip :: "nat \<Rightarrow> bool"
    and cl :: "'w versioned"
    and objects :: "'w \<Rightarrow> string \<Rightarrow> rr list"
  assumes lists: "Parse ip (labelSelector opts) = Some (Inr sel) \<Longrightarrow> fieldSelector opts = [] \<Longrightarrow>
    \<exists>l. v_List cl ns opts w = Some (w, Inr l) \<and> ls_items l = matching sel (objects w ns)"
begin

lemma list_printed:
  assumes "list_all valid_requirement rs" "labelSelector opts = Selector_String (InternalSelector rs)" "fieldSelector opts = []"
  shows "map_option (\<lambda>(w', lo). (w', map_sum id ls_items lo)) (v_List cl ns opts w) = Some (w, Inr (matching (InternalSelector rs) (objects w ns)))"
proof -
  let ?sel = "InternalSelector (sort_key rq_key (map canonical rs))"
  have "Selector_Matches ?sel ls = Selector_Matches (InternalSelector rs) ls" for ls
    using assms(1) by (auto simp: list_all_iff canonical_matches)
  then have m: "matching ?sel xs = matching (InternalSelector rs) xs" for xs by (simp add: matching_def del: Selector_Matches.simps)
  obtain l where "v_List cl ns opts w = Some (w, Inr l)" "ls_items l = matching ?sel (objects w ns)"
    using lists [of opts ?sel] Parse_printed [OF assms(1)] assms(2,3) by metis
  with m show ?thesis by simp
qed

lemma wrapper_lists:
  "list_all valid_requirement rs \<Longrightarrow>
     wrapper_List cl ns rv (InternalSelector rs) w = Some (w, Inr (matching (InternalSelector rs) (objects w ns)))"
  unfolding wrapper_List_def Let_def by (rule list_printed) simp_all

lemma filtered_lists:
  assumes "Parse ip wselector = Some (Inr fsel)" "list_all valid_requirement rs"
  shows "filtered_wrapper_List ip cl ns wselector (InternalSelector rs) w =
    Some (w, Inr (matching fsel (matching (InternalSelector rs) (objects w ns))))"
proof -
  obtain reqs where p: "ParseToRequirements ip wselector = Some (Inr reqs)" and fsel: "fsel = InternalSelector reqs"
    using assms(1) by (rule parsed_requirements)
  have reqs: "list_all parsed_requirement reqs" using Parse_valid [OF assms(1)] fsel by (metis selector.inject)
  have ok: "list_all valid_requirement (sort_key rq_key (rs @ reqs))"
    using assms(2) reqs by (auto simp: list_all_iff parsed_requirement_def)
  have "matching (InternalSelector (sort_key rq_key (rs @ reqs))) xs = matching fsel (matching (InternalSelector rs) xs)" for xs
    by (auto simp: matching_def fsel list_all_iff intro!: filter_cong)
  moreover have "map_option (\<lambda>(w', lo). (w', map_sum id ls_items lo))
      (v_List cl ns (set_labelSelector (Selector_String (InternalSelector (sort_key rq_key (rs @ reqs)))) no_list_options) w) =
    Some (w, Inr (matching (InternalSelector (sort_key rq_key (rs @ reqs))) (objects w ns)))"
    by (rule list_printed [OF ok]) simp_all
  ultimately show ?thesis by (simp add: filtered_wrapper_List_def p del: Selector_String.simps)
qed

text \<open>The selector that matches nothing is printed as the empty text, which selects everything.\<close>

lemma nothing_lists:
  "wrapper_List cl ns rv NothingSelector w = Some (w, Inr (objects w ns))"
  "Parse ip wselector = Some (Inr fsel) \<Longrightarrow>
     filtered_wrapper_List ip cl ns wselector NothingSelector w = Some (w, Inr (objects w ns))"
proof -
  have all: "matching (InternalSelector []) xs = xs" for xs by (simp add: matching_def)
  have opts: "map_option (\<lambda>(w', lo). (w', map_sum id ls_items lo)) (v_List cl ns opts w) = Some (w, Inr (objects w ns))"
    if "labelSelector opts = []" "fieldSelector opts = []" for opts
    using list_printed [of "[]" opts ns w] that by (simp add: all)
  then show "wrapper_List cl ns rv NothingSelector w = Some (w, Inr (objects w ns))" by (simp add: wrapper_List_def)
  assume "Parse ip wselector = Some (Inr fsel)"
  then obtain reqs where "ParseToRequirements ip wselector = Some (Inr reqs)" by (rule parsed_requirements)
  with opts show "filtered_wrapper_List ip cl ns wselector NothingSelector w = Some (w, Inr (objects w ns))"
    by (simp add: filtered_wrapper_List_def)
qed

end

interpretation fake_labels: label_client ip "fake_clientset_of ip" "\<lambda>st ns. tracker_list (fs_objects st) ns"
  by unfold_locales
    (auto simp: fake_clientset_of_def FakeList_def ExtractFromListOptions_def fields_ParseSelector_ok_def splitTerms_def matching_def)

subsection \<open>Properties\<close>


definition app_is :: "string \<Rightarrow> requirement" where
  "app_is v = \<lparr> rq_key = ''app'', rq_operator = Equals, rq_strValues = [v] \<rparr>"

lemma app_valid: "valid_requirement (app_is ''a'')"
  by (simp add: app_is_def valid_requirement_def req_ok_def arity_ok_def IsQualifiedName_def IsValidLabelValue_def
      qualifiedNameRegexp_def qname_ext_def is_alnum_def is_lower_def is_digit_def Let_def)

lemma example_filter: "Parse ip ''app=a'' = Some (Inr (InternalSelector [app_is ''a'']))"
  using Parse_printed [of "[app_is ''a'']" ip] app_valid by (simp add: Requirement_String_def canonical_def app_is_def)

definition labelled :: "string \<Rightarrow> string \<Rightarrow> rr" where
  "labelled name v = example_request\<lparr>meta := (meta example_request)\<lparr>m_name := name, m_labels := Some [(''app'', v)]\<rparr>\<rparr>"


text \<open>The selector that matches nothing is not respected: it is printed as the empty text, so that a lister
  over a dynamic client answers with every object of the namespace, and a filtered one forgets even
  its own filter.\<close>

theorem nothing_lists_everything:
  "wrapper_List (fake_clientset_of ip) ns rv NothingSelector st = Some (st, Inr (tracker_list (fs_objects st) ns)) \<and>
   filtered_wrapper_List ip (fake_clientset_of ip) ns ''app=a'' NothingSelector st = Some (st, Inr (tracker_list (fs_objects st) ns)) \<and>
   lister_List_ns idx ns NothingSelector = []"
  using fake_labels.nothing_lists(1) [of ip ns rv st] fake_labels.nothing_lists(2) [OF example_filter, of ip ns st]
  by (simp add: lister_List_ns_def lister_List_def selects_Matches)

end
