(* ===== verification/Work_Queue.thy ===== *)
theory Work_Queue
  imports Go_Time
begin

section \<open>The work queue\<close>

text \<open>
  client-go's \<^verbatim>\<open>util/workqueue\<close> (\<^verbatim>\<open>queue.go\<close>, \<^verbatim>\<open>delaying_queue.go\<close>, \<^verbatim>\<open>rate_limiting_queue.go\<close>,
  \<^verbatim>\<open>default_rate_limiters.go\<close>) and knative's two-lane queue (\<^verbatim>\<open>controller/two_lane_queue.go\<close>) on top of it,
  from which every controller of the program takes its keys. The methods of one queue run under
  its mutex and are functions on its state; the goroutines of the two-lane queue and the workers
  of the controller are the step relation \<open>tl_step\<close>.
\<close>

subsection \<open>One queue\<close>

record 'a work_queue =
  wq_queue :: "'a list"
  wq_dirty :: "'a set"
  wq_processing :: "'a set"
  wq_shuttingDown :: bool

definition newQueue :: "'a work_queue" where
  "newQueue = \<lparr> wq_queue = [], wq_dirty = {}, wq_processing = {}, wq_shuttingDown = False \<rparr>"

definition wq_Add :: "'a \<Rightarrow> 'a work_queue \<Rightarrow> 'a work_queue" where
  "wq_Add item q =
     (if wq_shuttingDown q then q
      else if item \<in> wq_dirty q then q
      else
        (let q1 = q\<lparr>wq_dirty := insert item (wq_dirty q)\<rparr> in
         if item \<in> wq_processing q1 then q1
         else q1\<lparr>wq_queue := wq_queue q1 @ [item]\<rparr>))"

definition wq_Len :: "'a work_queue \<Rightarrow> nat" where
  "wq_Len q = length (wq_queue q)"

text \<open>\<^verbatim>\<open>Get\<close> past its wait: \<open>None\<close> while it has to wait, otherwise the item, or no item when the queue is
  shutting down and empty.\<close>

definition wq_Get :: "'a work_queue \<Rightarrow> ('a option \<times> 'a work_queue) option" where
  "wq_Get q =
     (case wq_queue q of
        [] \<Rightarrow> if wq_shuttingDown q then Some (None, q) else None
      | item # rest \<Rightarrow>
          Some (Some item, q\<lparr>wq_queue := rest, wq_processing := insert item (wq_processing q),
                             wq_dirty := wq_dirty q - {item}\<rparr>))"

definition wq_Done :: "'a \<Rightarrow> 'a work_queue \<Rightarrow> 'a work_queue" where
  "wq_Done item q =
     (let q1 = q\<lparr>wq_processing := wq_processing q - {item}\<rparr> in
      if item \<in> wq_dirty q1 then q1\<lparr>wq_queue := wq_queue q1 @ [item]\<rparr> else q1)"

definition wq_ShutDown :: "'a work_queue \<Rightarrow> 'a work_queue" where
  "wq_ShutDown q = q\<lparr>wq_shuttingDown := True\<rparr>"

text \<open>The invariant that the comments of the source state.\<close>

definition wq_inv :: "'a work_queue \<Rightarrow> bool" where
  "wq_inv q \<longleftrightarrow> distinct (wq_queue q) \<and> set (wq_queue q) = wq_dirty q - wq_processing q"

lemma newQueue_inv [simp]: "wq_inv newQueue"
  by (simp add: wq_inv_def newQueue_def)

lemma wq_Add_inv: "wq_inv q \<Longrightarrow> wq_inv (wq_Add item q)"
  by (auto simp: wq_inv_def wq_Add_def Let_def)

lemma wq_Get_inv: "wq_inv q \<Longrightarrow> wq_Get q = Some (x, q') \<Longrightarrow> wq_inv q'"
  by (auto simp: wq_inv_def wq_Get_def split: list.splits if_splits)

lemma wq_Done_inv: "wq_inv q \<Longrightarrow> item \<in> wq_processing q \<Longrightarrow> wq_inv (wq_Done item q)"
  by (auto simp: wq_inv_def wq_Done_def Let_def)

lemma wq_ShutDown_inv: "wq_inv q \<Longrightarrow> wq_inv (wq_ShutDown q)"
  by (simp add: wq_inv_def wq_ShutDown_def)

lemma wq_Get_item:
  assumes "wq_inv q" "wq_Get q = Some (Some x, q')"
  shows "x \<in> wq_dirty q" "x \<notin> wq_processing q" "wq_processing q' = insert x (wq_processing q)"
    "wq_dirty q' = wq_dirty q - {x}" "wq_shuttingDown q' = wq_shuttingDown q"
proof -
  obtain rest where r: "wq_queue q = x # rest"
    and q': "q' = q\<lparr>wq_queue := rest, wq_processing := insert x (wq_processing q), wq_dirty := wq_dirty q - {x}\<rparr>"
    using assms(2) by (auto simp: wq_Get_def split: list.splits if_splits)
  have "x \<in> wq_dirty q - wq_processing q" using assms(1) r by (metis list.set_intros(1) wq_inv_def)
  then show "x \<in> wq_dirty q" "x \<notin> wq_processing q" by simp_all
  show "wq_processing q' = insert x (wq_processing q)" "wq_dirty q' = wq_dirty q - {x}"
    "wq_shuttingDown q' = wq_shuttingDown q" by (simp_all add: q')
qed

lemma wq_Add_sel:
  "\<not> wq_shuttingDown q \<Longrightarrow> wq_dirty (wq_Add x q) = insert x (wq_dirty q)"
  "wq_processing (wq_Add x q) = wq_processing q" "wq_shuttingDown (wq_Add x q) = wq_shuttingDown q"
  by (auto simp: wq_Add_def Let_def)

lemma wq_Done_sel:
  "wq_dirty (wq_Done x q) = wq_dirty q" "wq_processing (wq_Done x q) = wq_processing q - {x}"
  "wq_shuttingDown (wq_Done x q) = wq_shuttingDown q"
  by (auto simp: wq_Done_def Let_def)

subsection \<open>Rate limiting\<close>

text \<open>\<^verbatim>\<open>ItemExponentialFailureRateLimiter\<close>. The delays the program uses are five milliseconds times a power
  of two, which a float holds exactly; the cap compares with the float nearest to \<^verbatim>\<open>math.MaxInt64\<close>,
  which is two to the sixty-third.\<close>

record 'a limiter =
  rl_failures :: "'a \<Rightarrow> nat"
  rl_baseDelay :: duration
  rl_maxDelay :: duration

definition rl_new :: "duration \<Rightarrow> duration \<Rightarrow> 'a limiter" where
  "rl_new baseDelay maxDelay = \<lparr> rl_failures = (\<lambda>_. 0), rl_baseDelay = baseDelay, rl_maxDelay = maxDelay \<rparr>"

definition rl_When :: "'a \<Rightarrow> 'a limiter \<Rightarrow> duration \<times> 'a limiter" where
  "rl_When item r =
     (let exponent = rl_failures r item;
          r' = r\<lparr>rl_failures := (rl_failures r)(item := Suc exponent)\<rparr>;
          backoff = rl_baseDelay r * 2 ^ exponent in
      (if backoff > 2 ^ 63 then rl_maxDelay r
       else if backoff > rl_maxDelay r then rl_maxDelay r else backoff, r'))"

definition rl_NumRequeues :: "'a \<Rightarrow> 'a limiter \<Rightarrow> nat" where
  "rl_NumRequeues item r = rl_failures r item"

definition rl_Forget :: "'a \<Rightarrow> 'a limiter \<Rightarrow> 'a limiter" where
  "rl_Forget item r = r\<lparr>rl_failures := (rl_failures r)(item := 0)\<rparr>"

text \<open>The delay of the \<open>n\<close>th retry in a row.\<close>

fun rl_delays :: "nat \<Rightarrow> 'a \<Rightarrow> 'a limiter \<Rightarrow> duration list" where
  "rl_delays 0 item r = []"
| "rl_delays (Suc n) item r = (case rl_When item r of (d, r') \<Rightarrow> d # rl_delays n item r')"

lemma rl_When_value:
  assumes "0 < rl_baseDelay r" "rl_maxDelay r \<le> 2 ^ 63"
  shows "fst (rl_When item r) = min (rl_baseDelay r * 2 ^ rl_failures r item) (rl_maxDelay r)"
  using assms by (auto simp: rl_When_def Let_def min_def)

lemma rl_When_failures:
  "rl_failures (snd (rl_When item r)) item = Suc (rl_failures r item)"
  "rl_baseDelay (snd (rl_When item r)) = rl_baseDelay r" "rl_maxDelay (snd (rl_When item r)) = rl_maxDelay r"
  by (simp_all add: rl_When_def Let_def)

lemma rl_delays_eq:
  assumes "0 < rl_baseDelay r" "rl_maxDelay r \<le> 2 ^ 63"
  shows "rl_delays n item r =
     map (\<lambda>i. min (rl_baseDelay r * 2 ^ (rl_failures r item + i)) (rl_maxDelay r)) [0..<n]"
  using assms
proof (induction n arbitrary: r)
  case (Suc n)
  obtain d r' where w: "rl_When item r = (d, r')" by fastforce
  then have r': "rl_failures r' item = Suc (rl_failures r item)" "rl_baseDelay r' = rl_baseDelay r"
    "rl_maxDelay r' = rl_maxDelay r"
    using rl_When_failures [of item r] by simp_all
  have "d = min (rl_baseDelay r * 2 ^ rl_failures r item) (rl_maxDelay r)"
    using rl_When_value [OF Suc.prems, of item] w by simp
  moreover have "rl_delays n item r' =
      map (\<lambda>i. min (rl_baseDelay r * 2 ^ (rl_failures r item + Suc i)) (rl_maxDelay r)) [0..<n]"
    using Suc.IH [of r'] Suc.prems r' by simp
  ultimately show ?case
    by (simp add: w upt_conv_Cons map_Suc_upt [symmetric] comp_def del: upt_Suc)
qed simp

subsection \<open>Two lanes\<close>

text \<open>The state of the two-lane queue with its workers: the three queues, what each producer
  goroutine has in its hands (an item it has got but not yet marked done, or one it is sending to
  the consumer goroutine) or that it has closed its channel, the items that wait for their delay, and the items the workers are
  processing.\<close>

datatype 'a hand = Idle | Got 'a | Sending 'a | Closed

record 'a two_lane =
  tl_fast :: "'a work_queue"
  tl_slow :: "'a work_queue"
  tl_consumer :: "'a work_queue"
  tl_fast_hand :: "'a hand"
  tl_slow_hand :: "'a hand"
  tl_waiting :: "('a \<times> duration) list"
  tl_held :: "'a list"

definition newTwoLaneWorkQueue :: "'a two_lane" where
  "newTwoLaneWorkQueue =
     \<lparr> tl_fast = newQueue, tl_slow = newQueue, tl_consumer = newQueue, tl_fast_hand = Idle, tl_slow_hand = Idle,
       tl_waiting = [], tl_held = [] \<rparr>"

text \<open>\<^verbatim>\<open>AddAfter\<close> of the fast lane: immediately without a delay, otherwise to the waiting list.\<close>

definition tl_AddAfter :: "'a \<Rightarrow> duration \<Rightarrow> 'a two_lane \<Rightarrow> 'a two_lane" where
  "tl_AddAfter item d s =
     (if wq_shuttingDown (tl_fast s) then s
      else if d \<le> 0 then s\<lparr>tl_fast := wq_Add item (tl_fast s)\<rparr>
      else s\<lparr>tl_waiting := tl_waiting s @ [(item, d)]\<rparr>)"

inductive tl_step :: "'a two_lane \<Rightarrow> 'a two_lane \<Rightarrow> bool" where
  add_fast: "tl_step s (s\<lparr>tl_fast := wq_Add x (tl_fast s)\<rparr>)"
| add_slow: "tl_step s (s\<lparr>tl_slow := wq_Add x (tl_slow s)\<rparr>)"
| add_after: "tl_step s (tl_AddAfter x d s)"
| delay_over: "tl_waiting s = pre @ (x, d) # post \<Longrightarrow>
     tl_step s (s\<lparr>tl_waiting := pre @ post, tl_fast := wq_Add x (tl_fast s)\<rparr>)"
| fast_get: "tl_fast_hand s = Idle \<Longrightarrow> wq_Get (tl_fast s) = Some (Some x, q) \<Longrightarrow>
     tl_step s (s\<lparr>tl_fast := q, tl_fast_hand := Got x\<rparr>)"
| fast_done: "tl_fast_hand s = Got x \<Longrightarrow>
     tl_step s (s\<lparr>tl_fast := wq_Done x (tl_fast s), tl_fast_hand := Sending x\<rparr>)"
| fast_send: "tl_fast_hand s = Sending x \<Longrightarrow>
     tl_step s (s\<lparr>tl_consumer := wq_Add x (tl_consumer s), tl_fast_hand := Idle\<rparr>)"
| slow_get: "tl_slow_hand s = Idle \<Longrightarrow> wq_Get (tl_slow s) = Some (Some x, q) \<Longrightarrow>
     tl_step s (s\<lparr>tl_slow := q, tl_slow_hand := Got x\<rparr>)"
| slow_done: "tl_slow_hand s = Got x \<Longrightarrow>
     tl_step s (s\<lparr>tl_slow := wq_Done x (tl_slow s), tl_slow_hand := Sending x\<rparr>)"
| slow_send: "tl_slow_hand s = Sending x \<Longrightarrow>
     tl_step s (s\<lparr>tl_consumer := wq_Add x (tl_consumer s), tl_slow_hand := Idle\<rparr>)"
| fast_close: "tl_fast_hand s = Idle \<Longrightarrow> wq_Get (tl_fast s) = Some (None, q) \<Longrightarrow>
     tl_step s (s\<lparr>tl_fast_hand := Closed\<rparr>)"
| slow_close: "tl_slow_hand s = Idle \<Longrightarrow> wq_Get (tl_slow s) = Some (None, q) \<Longrightarrow>
     tl_step s (s\<lparr>tl_slow_hand := Closed\<rparr>)"
| consumer_stop: "tl_fast_hand s = Closed \<Longrightarrow> tl_slow_hand s = Closed \<Longrightarrow>
     tl_step s (s\<lparr>tl_consumer := wq_ShutDown (tl_consumer s)\<rparr>)"
| worker_get: "wq_Get (tl_consumer s) = Some (Some x, q) \<Longrightarrow>
     tl_step s (s\<lparr>tl_consumer := q, tl_held := x # tl_held s\<rparr>)"
| worker_done: "x \<in> set (tl_held s) \<Longrightarrow>
     tl_step s (s\<lparr>tl_consumer := wq_Done x (tl_consumer s), tl_held := remove1 x (tl_held s)\<rparr>)"
| shut_down: "tl_step s (s\<lparr>tl_fast := wq_ShutDown (tl_fast s), tl_slow := wq_ShutDown (tl_slow s)\<rparr>)"

inductive tl_reach :: "'a two_lane \<Rightarrow> bool" where
  tl_init: "tl_reach newTwoLaneWorkQueue"
| tl_next: "tl_reach s \<Longrightarrow> tl_step s s' \<Longrightarrow> tl_reach s'"

fun hand_items :: "'a hand \<Rightarrow> 'a set" where
  "hand_items Idle = {}"
| "hand_items (Got x) = {x}"
| "hand_items (Sending x) = {x}"
| "hand_items Closed = {}"

fun got_items :: "'a hand \<Rightarrow> 'a set" where
  "got_items (Got x) = {x}"
| "got_items _ = {}"

text \<open>A producer ends only when its lane is shut down and drained.\<close>

definition closed_ok :: "'a hand \<Rightarrow> 'a work_queue \<Rightarrow> bool" where
  "closed_ok h q \<longleftrightarrow> (h = Closed \<longrightarrow> wq_shuttingDown q \<and> wq_dirty q = {})"

definition tl_inv :: "'a two_lane \<Rightarrow> bool" where
  "tl_inv s \<longleftrightarrow>
     wq_inv (tl_fast s) \<and> wq_inv (tl_slow s) \<and> wq_inv (tl_consumer s) \<and>
     wq_processing (tl_fast s) = got_items (tl_fast_hand s) \<and>
     wq_processing (tl_slow s) = got_items (tl_slow_hand s) \<and>
     distinct (tl_held s) \<and> set (tl_held s) = wq_processing (tl_consumer s) \<and>
     closed_ok (tl_fast_hand s) (tl_fast s) \<and> closed_ok (tl_slow_hand s) (tl_slow s) \<and>
     (wq_shuttingDown (tl_consumer s) \<longrightarrow> tl_fast_hand s = Closed \<and> tl_slow_hand s = Closed)"

text \<open>The items that some part of the queue still has to bring to a worker.\<close>

definition tl_pending :: "'a two_lane \<Rightarrow> 'a set" where
  "tl_pending s =
     wq_dirty (tl_fast s) \<union> wq_dirty (tl_slow s) \<union> wq_dirty (tl_consumer s) \<union>
     hand_items (tl_fast_hand s) \<union> hand_items (tl_slow_hand s)"

text \<open>Whether a producer goroutine can take a step.\<close>

fun lane_moves :: "'a hand \<Rightarrow> 'a work_queue \<Rightarrow> bool" where
  "lane_moves Idle q = (wq_queue q \<noteq> [])"
| "lane_moves (Got x) q = True"
| "lane_moves (Sending x) q = True"
| "lane_moves Closed q = False"

lemmas wq_invs = wq_Add_inv wq_Get_inv wq_Done_inv wq_ShutDown_inv

lemma tl_inv_init: "tl_inv newTwoLaneWorkQueue"
  by (simp add: tl_inv_def newTwoLaneWorkQueue_def closed_ok_def) (simp add: newQueue_def)

lemma closed_ok_open [simp]: "closed_ok Idle q" "closed_ok (Got x) q" "closed_ok (Sending x) q"
  by (simp_all add: closed_ok_def)

lemma closed_ok_Add: "closed_ok h q \<Longrightarrow> closed_ok h (wq_Add x q)"
  by (auto simp: closed_ok_def wq_Add_def)

lemma closed_ok_ShutDown: "closed_ok h q \<Longrightarrow> closed_ok h (wq_ShutDown q)"
  by (auto simp: closed_ok_def wq_ShutDown_def)

lemma closed_ok_Get: "wq_inv q \<Longrightarrow> wq_processing q = {} \<Longrightarrow> wq_Get q = Some (None, q') \<Longrightarrow> closed_ok Closed q"
  by (auto simp: closed_ok_def wq_Get_def wq_inv_def split: list.splits if_splits)

lemma tl_AddAfter_inv: "tl_inv s \<Longrightarrow> tl_inv (tl_AddAfter x d s)"
  by (simp add: tl_inv_def tl_AddAfter_def wq_Add_inv wq_Add_sel closed_ok_Add)

lemma tl_inv_step:
  assumes "tl_step s s'" "tl_inv s"
  shows "tl_inv s'"
  using assms(1)
proof cases
  case (add_after x d)
  with assms(2) show ?thesis by (simp add: tl_AddAfter_inv)
next
  case (fast_get x q)
  with assms(2) wq_Get_item [OF _ fast_get(3)] wq_Get_inv [OF _ fast_get(3)] show ?thesis by (simp add: tl_inv_def)
next
  case (slow_get x q)
  with assms(2) wq_Get_item [OF _ slow_get(3)] wq_Get_inv [OF _ slow_get(3)] show ?thesis by (simp add: tl_inv_def)
next
  case (fast_close q)
  with assms(2) closed_ok_Get [OF _ _ fast_close(3)] show ?thesis by (simp add: tl_inv_def)
next
  case (slow_close q)
  with assms(2) closed_ok_Get [OF _ _ slow_close(3)] show ?thesis by (simp add: tl_inv_def)
next
  case (worker_get x q)
  with assms(2) wq_Get_item [OF _ worker_get(2)] wq_Get_inv [OF _ worker_get(2)] show ?thesis by (simp add: tl_inv_def)
next
  case (worker_done x)
  with assms(2) show ?thesis by (simp add: tl_inv_def wq_Done_inv wq_Done_sel distinct_remove1 set_remove1_eq)
qed (use assms(2) in \<open>simp_all add: tl_inv_def wq_invs wq_Add_sel wq_Done_sel closed_ok_Add closed_ok_ShutDown, simp_all add: wq_ShutDown_def\<close>)

lemma tl_reach_inv: "tl_reach s \<Longrightarrow> tl_inv s"
  by (induction rule: tl_reach.induct) (auto intro: tl_inv_init tl_inv_step)

text \<open>A key travels through the fast lane to the workers.\<close>

lemma tl_reach_one: "tl_reach (newTwoLaneWorkQueue\<lparr>tl_consumer := wq_Add x newQueue\<rparr>)"
proof -
  let ?busy = "\<lparr> wq_queue = [], wq_dirty = {}, wq_processing = {x}, wq_shuttingDown = False \<rparr>"
  let ?s1 = "newTwoLaneWorkQueue\<lparr>tl_fast := wq_Add x (tl_fast newTwoLaneWorkQueue)\<rparr>"
  have g: "wq_Get (tl_fast ?s1) = Some (Some x, ?busy)"
    by (simp add: newTwoLaneWorkQueue_def newQueue_def wq_Add_def wq_Get_def Let_def)
  let ?s2 = "?s1\<lparr>tl_fast := ?busy, tl_fast_hand := Got x\<rparr>"
  let ?s3 = "?s2\<lparr>tl_fast := wq_Done x (tl_fast ?s2), tl_fast_hand := Sending x\<rparr>"
  let ?s4 = "?s3\<lparr>tl_consumer := wq_Add x (tl_consumer ?s3), tl_fast_hand := Idle\<rparr>"
  have "tl_reach ?s1" by (rule tl_next [OF tl_init add_fast])
  then have "tl_reach ?s2" by (rule tl_next [OF _ fast_get [OF _ g]]) (simp add: newTwoLaneWorkQueue_def)
  then have "tl_reach ?s3" by (rule tl_next [OF _ fast_done]) simp
  then have "tl_reach ?s4" by (rule tl_next [OF _ fast_send]) simp
  moreover have "?s4 = newTwoLaneWorkQueue\<lparr>tl_consumer := wq_Add x newQueue\<rparr>"
    by (simp add: newTwoLaneWorkQueue_def newQueue_def wq_Add_def wq_Done_def Let_def)
  ultimately show ?thesis by simp
qed

lemma tl_AddAfter_pending: "tl_pending s \<subseteq> tl_pending (tl_AddAfter x d s)"
  by (auto simp: tl_pending_def tl_AddAfter_def wq_Add_sel)

lemma wq_Add_dirty: "wq_dirty q \<subseteq> wq_dirty (wq_Add x q)"
  by (auto simp: wq_Add_def Let_def)

lemma tl_pending_step:
  assumes "tl_step s s'" "tl_inv s" "x \<in> tl_pending s" "tl_held s' \<noteq> x # tl_held s"
  shows "x \<in> tl_pending s'"
  using assms(1)
proof cases
  case (add_after y d)
  from assms(3) tl_AddAfter_pending [of s y d] show ?thesis unfolding add_after by (rule rev_subsetD)
next
  case (fast_get y q)
  with assms(2,3) wq_Get_item [OF _ fast_get(3)] show ?thesis by (auto simp: tl_pending_def tl_inv_def)
next
  case (slow_get y q)
  with assms(2,3) wq_Get_item [OF _ slow_get(3)] show ?thesis by (auto simp: tl_pending_def tl_inv_def)
next
  case (worker_get y q)
  with assms(2-4) wq_Get_item [OF _ worker_get(2)] show ?thesis by (auto simp: tl_pending_def tl_inv_def)
next
  case (fast_send y)
  with assms(2,3) show ?thesis by (auto simp: tl_pending_def tl_inv_def wq_Add_sel)
next
  case (slow_send y)
  with assms(2,3) show ?thesis by (auto simp: tl_pending_def tl_inv_def wq_Add_sel)
next
  case (add_fast y)
  with assms(3) wq_Add_dirty [of "tl_fast s" y] show ?thesis by (auto simp: tl_pending_def)
next
  case (add_slow y)
  with assms(3) wq_Add_dirty [of "tl_slow s" y] show ?thesis by (auto simp: tl_pending_def)
next
  case (delay_over pre y d post)
  with assms(3) wq_Add_dirty [of "tl_fast s" y] show ?thesis by (auto simp: tl_pending_def)
qed (use assms(3) in \<open>auto simp: tl_pending_def wq_Done_sel wq_ShutDown_def\<close>)

subsection \<open>Properties\<close>

text \<open>
  No key is processed by two workers at once: in every state the queue and its workers can
  reach, the keys held by the workers are distinct, and a worker that takes a key never takes one
  that is held.
\<close>

theorem two_lane_exclusive:
  assumes "tl_reach s" "wq_Get (tl_consumer s) = Some (Some x, q)"
  shows "distinct (x # tl_held s)"
  using tl_reach_inv [OF assms(1)] wq_Get_item(2) [OF _ assms(2)] by (simp add: tl_inv_def)

theorem two_lane_exclusive_witness:
  "\<exists>s q. tl_reach s \<and> wq_Get (tl_consumer s) = Some (Some (1 :: nat), q) \<and> distinct (1 # tl_held s)"
proof -
  let ?s = "newTwoLaneWorkQueue\<lparr>tl_consumer := wq_Add (1::nat) newQueue\<rparr>"
  obtain q where "wq_Get (tl_consumer ?s) = Some (Some 1, q)"
    by (simp add: newQueue_def wq_Add_def wq_Get_def Let_def)
  with two_lane_exclusive [OF tl_reach_one this] tl_reach_one [of 1] show ?thesis by blast
qed

text \<open>
  No key is lost: a key that is on its way to a worker stays on its way through every step of
  the queue's goroutines, until a worker takes it; and while a key is on its way, some goroutine
  can move, or the worker that processes the key has yet to finish.
\<close>

theorem two_lane_delivers:
  assumes "tl_reach s" "x \<in> tl_pending s"
  shows "{s'. tl_step s s'} \<subseteq> {s'. x \<in> tl_pending s' \<or> tl_held s' = x # tl_held s} \<and>
    (lane_moves (tl_fast_hand s) (tl_fast s) \<or> lane_moves (tl_slow_hand s) (tl_slow s) \<or>
     wq_queue (tl_consumer s) \<noteq> [] \<or> x \<in> set (tl_held s))"
proof
  note inv = tl_reach_inv [OF assms(1)]
  show "{s'. tl_step s s'} \<subseteq> {s'. x \<in> tl_pending s' \<or> tl_held s' = x # tl_held s}"
    using tl_pending_step [OF _ inv assms(2)] by blast
  have lane: "lane_moves h q"
    if "wq_inv q" "wq_processing q = got_items h" "closed_ok h q" "x \<in> wq_dirty q \<union> hand_items h" for h and q :: "'a work_queue"
    using that by (cases h) (auto simp: wq_inv_def closed_ok_def)
  have "wq_queue q \<noteq> [] \<or> x \<in> wq_processing q" if "wq_inv q" "x \<in> wq_dirty q" for q
    using that by (cases "wq_queue q") (auto simp: wq_inv_def)
  with lane [of "tl_fast s" "tl_fast_hand s"] lane [of "tl_slow s" "tl_slow_hand s"] assms(2) inv
  show "lane_moves (tl_fast_hand s) (tl_fast s) \<or> lane_moves (tl_slow_hand s) (tl_slow s) \<or>
     wq_queue (tl_consumer s) \<noteq> [] \<or> x \<in> set (tl_held s)"
    unfolding tl_pending_def tl_inv_def by blast
qed

theorem two_lane_delivers_witness:
  "{s'. tl_step (newTwoLaneWorkQueue\<lparr>tl_fast := wq_Add (1::nat) (tl_fast newTwoLaneWorkQueue)\<rparr>) s'} \<subseteq>
     {s'. 1 \<in> tl_pending s' \<or> tl_held s' = [1]}"
proof -
  let ?s = "newTwoLaneWorkQueue\<lparr>tl_fast := wq_Add (1::nat) (tl_fast newTwoLaneWorkQueue)\<rparr>"
  have p: "1 \<in> tl_pending ?s" and h: "tl_held ?s = []"
    by (simp_all add: tl_pending_def newTwoLaneWorkQueue_def newQueue_def wq_Add_def Let_def)
  have "tl_reach ?s" by (rule tl_next [OF tl_init add_fast])
  from two_lane_delivers [OF this p] show ?thesis unfolding h by blast
qed

text \<open>
  Back-off of failing keys: with a positive base delay and a maximum that fits a duration, the
  delays of consecutive retries are the base delay times one, two, four and so on, capped at the
  maximum, without overflow; forgetting a key starts over.
\<close>

theorem limiter_delays:
  assumes "0 < baseDelay" "maxDelay \<le> max_int64"
  shows "rl_delays n item (rl_Forget item (r\<lparr>rl_baseDelay := baseDelay, rl_maxDelay := maxDelay\<rparr>)) =
     map (\<lambda>i. min (baseDelay * 2 ^ i) maxDelay) [0..<n]"
  using assms by (subst rl_delays_eq) (simp_all add: rl_Forget_def max_int64_def)

theorem limiter_delays_witness:
  "rl_delays 3 () (rl_Forget () (rl_new 0 0\<lparr>rl_baseDelay := 5 * millisecond, rl_maxDelay := 12 * millisecond\<rparr>)) =
     [5 * millisecond, 10 * millisecond, 12 * millisecond]"
  by (subst limiter_delays) (simp_all add: millisecond_def max_int64_def upt_rec)

end
