(* ===== verification/Controller.thy ===== *)
theory Controller
  imports Work_Queue Common
begin

section \<open>The controller loop and leadership\<close>

text \<open>
  knative's \<^verbatim>\<open>controller.Impl\<close> (\<^verbatim>\<open>controller.go\<close>): one round of \<^verbatim>\<open>processNextWorkItem\<close> with \<^verbatim>\<open>handleErr\<close>, on the
  two-lane queue and its rate limiter, around any reconciler; and \<^verbatim>\<open>LeaderAwareFuncs\<close>
  (\<^verbatim>\<open>reconciler/leader.go\<close>), which decides what keys a replica may write and what is enqueued when
  it becomes leader. A key is the pair of a namespace and a name. The delay of the token bucket
  (\<^verbatim>\<open>golang.org/x/time/rate\<close>) is the argument \<open>bucket\<close>.
\<close>

type_synonym key = "string \<times> string"

definition safeKey :: "key \<Rightarrow> string" where
  "safeKey k = (case k of (namespace, name) \<Rightarrow> if namespace = [] then name else namespace @ ''/'' @ name)"

record ctl =
  ctl_queue :: "key two_lane"
  ctl_limiter :: "key limiter"

subsection \<open>Queue operations of the controller\<close>

definition EnqueueKey :: "key \<Rightarrow> ctl \<Rightarrow> ctl" where
  "EnqueueKey k c = c\<lparr>ctl_queue := (ctl_queue c)\<lparr>tl_fast := wq_Add k (tl_fast (ctl_queue c))\<rparr>\<rparr>"

definition EnqueueSlowKey :: "key \<Rightarrow> ctl \<Rightarrow> ctl" where
  "EnqueueSlowKey k c = c\<lparr>ctl_queue := (ctl_queue c)\<lparr>tl_slow := wq_Add k (tl_slow (ctl_queue c))\<rparr>\<rparr>"

definition EnqueueKeyAfter :: "key \<Rightarrow> duration \<Rightarrow> ctl \<Rightarrow> ctl" where
  "EnqueueKeyAfter k d c = c\<lparr>ctl_queue := tl_AddAfter k d (ctl_queue c)\<rparr>"

definition MaybeEnqueueBucketKey :: "(key \<Rightarrow> bool) \<Rightarrow> key \<Rightarrow> ctl \<Rightarrow> ctl" where
  "MaybeEnqueueBucketKey has k c = (if has k then EnqueueSlowKey k c else c)"

definition ShuttingDown :: "ctl \<Rightarrow> bool" where
  "ShuttingDown c = wq_shuttingDown (tl_fast (ctl_queue c))"

definition AddRateLimited :: "duration \<Rightarrow> key \<Rightarrow> ctl \<Rightarrow> ctl" where
  "AddRateLimited bucket k c =
     (case rl_When k (ctl_limiter c) of (d, l) \<Rightarrow>
        EnqueueKeyAfter k (max (max 0 d) bucket) (c\<lparr>ctl_limiter := l\<rparr>))"

definition Forget :: "key \<Rightarrow> ctl \<Rightarrow> ctl" where
  "Forget k c = c\<lparr>ctl_limiter := rl_Forget k (ctl_limiter c)\<rparr>"

definition handleErr :: "duration \<Rightarrow> err \<Rightarrow> key \<Rightarrow> ctl \<Rightarrow> ctl" where
  "handleErr bucket e k c =
     (if IsSkipKey e then Forget k c
      else case IsRequeueKey e of
        Some delay \<Rightarrow> EnqueueKeyAfter k delay c
      | None \<Rightarrow>
          if \<not> IsPermanentError e \<and> \<not> ShuttingDown c then AddRateLimited bucket k c
          else Forget k c)"

text \<open>One round: \<open>None\<close> while the queue is empty, \<open>False\<close> when the worker has to end. The
  reconciler changes a world of its own.\<close>

definition processNextWorkItem ::
  "duration \<Rightarrow> ('w \<Rightarrow> string \<Rightarrow> 'w \<times> err option) \<Rightarrow> 'w \<Rightarrow> ctl \<Rightarrow> (bool \<times> 'w \<times> ctl) option" where
  "processNextWorkItem bucket reconcile w c =
     (case wq_Get (tl_consumer (ctl_queue c)) of
        None \<Rightarrow> None
      | Some (None, _) \<Rightarrow> Some (False, w, c)
      | Some (Some k, q) \<Rightarrow>
          (case reconcile w (safeKey k) of (w', oe) \<Rightarrow>
             (let c1 = c\<lparr>ctl_queue := (ctl_queue c)\<lparr>tl_consumer := q\<rparr>\<rparr>;
                  c2 = (case oe of None \<Rightarrow> Forget k c1 | Some e \<Rightarrow> handleErr bucket e k c1);
                  c3 = c2\<lparr>ctl_queue := (ctl_queue c2)\<lparr>tl_consumer := wq_Done k (tl_consumer (ctl_queue c2))\<rparr>\<rparr>
              in Some (True, w', c3))))"

subsection \<open>Leadership\<close>

record leader_funcs =
  lf_buckets :: "(string \<times> (key \<Rightarrow> bool)) list"
  lf_PromoteFunc :: "key list option"

definition IsLeaderFor :: "leader_funcs \<Rightarrow> key \<Rightarrow> bool" where
  "IsLeaderFor l k = list_ex (\<lambda>(n, has). has k) (lf_buckets l)"

text \<open>\<^verbatim>\<open>Promote\<close> with an enqueue function (\<open>True\<close>) or nil; the field \<open>lf_PromoteFunc\<close> is the list of keys
  the promote function passes to the enqueue function.\<close>

definition Promote :: "string \<Rightarrow> (key \<Rightarrow> bool) \<Rightarrow> bool \<Rightarrow> leader_funcs \<Rightarrow> ctl \<Rightarrow> leader_funcs \<times> ctl" where
  "Promote name has enq l c =
     (l\<lparr>lf_buckets := AList.update name has (lf_buckets l)\<rparr>,
      case lf_PromoteFunc l of
        None \<Rightarrow> c
      | Some keys \<Rightarrow> if enq then fold (MaybeEnqueueBucketKey has) keys c else c)"

definition Demote :: "string \<Rightarrow> leader_funcs \<Rightarrow> leader_funcs" where
  "Demote name l = l\<lparr>lf_buckets := AList.delete name (lf_buckets l)\<rparr>"

subsection \<open>Lemmas\<close>

lemma IsLeaderFor_Promote:
  assumes "distinct (map fst (lf_buckets l))"
  shows "IsLeaderFor (fst (Promote name has enq l c)) k \<longleftrightarrow> has k \<or> IsLeaderFor (Demote name l) k"
proof -
  have "set (AList.update name has bs) = insert (name, has) {b \<in> set bs. fst b \<noteq> name}"
    if "distinct (map fst bs)" for bs
    using that by (induction bs) (auto simp: image_iff)
  with assms show ?thesis
    by (auto simp: IsLeaderFor_def Promote_def Demote_def list_ex_iff AList.delete_eq)
qed

lemma fold_enqueue_pending:
  assumes "\<not> wq_shuttingDown (tl_slow (ctl_queue c))"
  shows "wq_dirty (tl_slow (ctl_queue (fold (MaybeEnqueueBucketKey has) keys c))) =
     wq_dirty (tl_slow (ctl_queue c)) \<union> {k \<in> set keys. has k}"
  using assms
proof (induction keys arbitrary: c)
  case (Cons k keys)
  then show ?case by (auto simp: MaybeEnqueueBucketKey_def EnqueueSlowKey_def wq_Add_sel)
qed simp

lemma requeue_error [simp]:
  "\<not> IsSkipKey (RequeueKeyError d)" "IsRequeueKey (RequeueKeyError d) = Some d"
  by (simp_all add: IsSkipKey_def IsRequeueKey_def err_chain.simps)

lemma handleErr_permanent:
  assumes "IsPermanentError e" "\<not> IsSkipKey e" "IsRequeueKey e = None"
  shows "handleErr bucket e k c = Forget k c"
  using assms by (simp add: handleErr_def)

text \<open>A key that the reconciler gave up on leaves no trace: it is neither queued nor delayed, and its
  failures are forgotten.\<close>

lemma process_forgets:
  assumes "wq_inv (tl_consumer (ctl_queue c))" "wq_Get (tl_consumer (ctl_queue c)) = Some (Some k, q)"
    and "reconcile w (safeKey k) = (w', oe)"
    and "case oe of None \<Rightarrow> True | Some e \<Rightarrow> IsSkipKey e \<or> IsPermanentError e \<and> IsRequeueKey e = None"
  shows "\<exists>c'. processNextWorkItem bucket reconcile w c = Some (True, w', c') \<and>
    k \<notin> wq_dirty (tl_consumer (ctl_queue c')) \<and> k \<notin> wq_processing (tl_consumer (ctl_queue c')) \<and>
    tl_fast (ctl_queue c') = tl_fast (ctl_queue c) \<and> tl_slow (ctl_queue c') = tl_slow (ctl_queue c) \<and>
    tl_waiting (ctl_queue c') = tl_waiting (ctl_queue c) \<and> rl_NumRequeues k (ctl_limiter c') = 0"
proof -
  have d: "wq_dirty q = wq_dirty (tl_consumer (ctl_queue c)) - {k}" using wq_Get_item(4) [OF assms(1,2)] .
  have "handleErr bucket e k c1 = Forget k c1" if "oe = Some e" for e c1
    using assms(4) that by (auto simp: handleErr_def)
  with assms(2,3) d show ?thesis
    by (auto simp: processNextWorkItem_def Let_def Forget_def wq_Done_sel rl_NumRequeues_def rl_Forget_def
        split: option.split)
qed

text \<open>A key the reconciler wants back after a delay waits for it, or is queued at once.\<close>

lemma process_requeues:
  assumes "wq_Get (tl_consumer (ctl_queue c)) = Some (Some k, q)"
    and "reconcile w (safeKey k) = (w', Some e)" "\<not> IsSkipKey e" "IsRequeueKey e = Some d" "\<not> ShuttingDown c"
  shows "\<exists>c'. processNextWorkItem bucket reconcile w c = Some (True, w', c') \<and>
    k \<notin> wq_processing (tl_consumer (ctl_queue c')) \<and>
    (if d \<le> 0 then k \<in> wq_dirty (tl_fast (ctl_queue c'))
     else tl_waiting (ctl_queue c') = tl_waiting (ctl_queue c) @ [(k, d)])"
  using assms
  by (simp add: processNextWorkItem_def Let_def handleErr_def EnqueueKeyAfter_def tl_AddAfter_def wq_Done_sel
      ShuttingDown_def wq_Add_sel)

text \<open>A round of a worker is made of steps of the two-lane queue: it takes the key, may add it again and
  is done with it. So the queue's invariant holds around every round.\<close>

lemma handleErr_reach: "tl_reach (ctl_queue c) \<Longrightarrow> tl_reach (ctl_queue (handleErr bucket e k c))"
  by (auto simp: handleErr_def Forget_def EnqueueKeyAfter_def AddRateLimited_def split: option.split prod.split
      intro: tl_next [OF _ add_after])

lemma handleErr_frame:
  "tl_consumer (ctl_queue (handleErr bucket e k c)) = tl_consumer (ctl_queue c)"
  "tl_held (ctl_queue (handleErr bucket e k c)) = tl_held (ctl_queue c)"
  by (simp_all add: handleErr_def Forget_def EnqueueKeyAfter_def AddRateLimited_def tl_AddAfter_def split: option.split prod.split)

lemma handleErr_held:
  "ctl_queue (handleErr bucket e k (c\<lparr>ctl_queue := q\<lparr>tl_held := h\<rparr>\<rparr>)) =
     (ctl_queue (handleErr bucket e k (c\<lparr>ctl_queue := q\<rparr>)))\<lparr>tl_held := h\<rparr>"
  by (simp add: handleErr_def Forget_def EnqueueKeyAfter_def AddRateLimited_def tl_AddAfter_def ShuttingDown_def split: option.split prod.split)

lemma process_reach:
  assumes "tl_reach (ctl_queue c)" "processNextWorkItem bucket reconcile w c = Some (b, w', c')"
  shows "tl_reach (ctl_queue c')"
proof (cases "wq_Get (tl_consumer (ctl_queue c))")
  case None
  with assms(2) show ?thesis by (simp add: processNextWorkItem_def)
next
  case (Some p)
  obtain item q where p: "p = (item, q)" by fastforce
  show ?thesis
  proof (cases item)
    case None
    with assms Some p show ?thesis by (simp add: processNextWorkItem_def)
  next
    case k: (Some k)
    obtain w1 oe where r: "reconcile w (safeKey k) = (w1, oe)" by fastforce
    let ?c1 = "c\<lparr>ctl_queue := (ctl_queue c)\<lparr>tl_consumer := q\<rparr>\<rparr>"
    let ?h = "k # tl_held (ctl_queue c)"
    let ?c1h = "c\<lparr>ctl_queue := (ctl_queue c)\<lparr>tl_consumer := q, tl_held := ?h\<rparr>\<rparr>"
    define f where "f = (\<lambda>c1. case oe of None \<Rightarrow> Forget k c1 | Some e \<Rightarrow> handleErr bucket e k c1)"
    have "tl_reach (ctl_queue ?c1h)"
      using tl_next [OF assms(1) worker_get] Some p k by simp
    then have r2: "tl_reach (ctl_queue (f ?c1h))"
      by (simp add: f_def handleErr_reach Forget_def split: option.split)
    have f: "ctl_queue (f ?c1h) = (ctl_queue (f ?c1))\<lparr>tl_held := ?h\<rparr>"
      using handleErr_held [where c = c and q = "(ctl_queue c)\<lparr>tl_consumer := q\<rparr>" and h = ?h]
      by (simp add: f_def Forget_def split: option.split)
    have held: "tl_held (ctl_queue (f ?c1)) = tl_held (ctl_queue c)"
      by (simp add: f_def handleErr_frame Forget_def split: option.split)
    have "ctl_queue c' = (ctl_queue (f ?c1))\<lparr>tl_consumer := wq_Done k (tl_consumer (ctl_queue (f ?c1)))\<rparr>"
      using assms(2) Some p k r by (auto simp: processNextWorkItem_def Let_def f_def split: option.splits)
    moreover have k2: "k \<in> set (tl_held (ctl_queue (f ?c1h)))" by (simp add: f)
    have "tl_reach ((ctl_queue (f ?c1))\<lparr>tl_consumer := wq_Done k (tl_consumer (ctl_queue (f ?c1))),
        tl_held := tl_held (ctl_queue c)\<rparr>)"
      using tl_next [OF r2 worker_done [OF k2]] by (simp add: f)
    ultimately show ?thesis by (simp add: held [symmetric])
  qed
qed

text \<open>A controller with one key for its worker.\<close>

definition demo_ctl :: ctl where
  "demo_ctl = \<lparr> ctl_queue = newTwoLaneWorkQueue\<lparr>tl_consumer := wq_Add (''ns'', ''n'') newQueue\<rparr>,
     ctl_limiter = rl_new (5 * millisecond) (1000 * second) \<rparr>"

subsection \<open>Properties\<close>

text \<open>
  What happens to a key after its reconciliation. When the reconciler succeeded, skipped the key
  or returned a permanent error that asks for no delay, the key is not queued again and its
  failure count is cleared; when it asked for a delay the key waits for exactly that delay (or is
  queued at once when the delay is not positive); any other error puts it back with the rate
  limiter's delay and counts a failure.
\<close>

theorem processNextWorkItem_spec:
  assumes "wq_inv (tl_consumer (ctl_queue c))" "wq_Get (tl_consumer (ctl_queue c)) = Some (Some k, q)"
    and "reconcile w (safeKey k) = (w', oe)" "\<not> ShuttingDown c" "0 < bucket"
  shows "\<exists>c'. processNextWorkItem bucket reconcile w c = Some (True, w', c') \<and>
    k \<notin> wq_processing (tl_consumer (ctl_queue c')) \<and>
    (case oe of
       None \<Rightarrow> tl_waiting (ctl_queue c') = tl_waiting (ctl_queue c) \<and> tl_fast (ctl_queue c') = tl_fast (ctl_queue c) \<and>
          rl_NumRequeues k (ctl_limiter c') = 0
     | Some e \<Rightarrow>
        if IsSkipKey e \<or> IsPermanentError e \<and> IsRequeueKey e = None then
          tl_waiting (ctl_queue c') = tl_waiting (ctl_queue c) \<and> tl_fast (ctl_queue c') = tl_fast (ctl_queue c) \<and>
          rl_NumRequeues k (ctl_limiter c') = 0
        else (case IsRequeueKey e of
            Some d \<Rightarrow>
              if d \<le> 0 then k \<in> wq_dirty (tl_fast (ctl_queue c'))
              else tl_waiting (ctl_queue c') = tl_waiting (ctl_queue c) @ [(k, d)]
          | None \<Rightarrow> \<exists>d > 0. tl_waiting (ctl_queue c') = tl_waiting (ctl_queue c) @ [(k, d)] \<and>
              rl_NumRequeues k (ctl_limiter c') = Suc (rl_NumRequeues k (ctl_limiter c))))"
proof (cases "case oe of None \<Rightarrow> True | Some e \<Rightarrow> IsSkipKey e \<or> IsPermanentError e \<and> IsRequeueKey e = None")
  case True
  with process_forgets [where reconcile = reconcile, OF assms(1-3), of bucket] show ?thesis
    by (auto split: option.splits)
next
  case False
  then obtain e where e: "oe = Some e" "\<not> IsSkipKey e" "\<not> (IsPermanentError e \<and> IsRequeueKey e = None)"
    by (auto split: option.splits)
  note run = processNextWorkItem_def Let_def e(1) handleErr_def e(2) EnqueueKeyAfter_def tl_AddAfter_def wq_Done_sel
  show ?thesis
  proof (cases "IsRequeueKey e")
    case (Some d)
    with process_requeues [where reconcile = reconcile, OF assms(2) assms(3)[unfolded e(1)] e(2) Some assms(4), of bucket] e
    show ?thesis by auto
  next
    case None
    with e have p: "\<not> IsPermanentError e" by simp
    obtain d l where l: "rl_When k (ctl_limiter c) = (d, l)" by fastforce
    then have "rl_failures l k = Suc (rl_failures (ctl_limiter c) k)"
      using rl_When_failures(1) [of k "ctl_limiter c"] by simp
    with None p l assms(2-5) e show ?thesis
      by (simp add: run ShuttingDown_def AddRateLimited_def rl_NumRequeues_def not_le)
  qed
qed

theorem processNextWorkItem_spec_witness:
  "\<exists>c'. processNextWorkItem 1 (\<lambda>w k. (w, Some (RequeueKeyError (30 * second)))) True demo_ctl = Some (True, True, c') \<and>
     tl_waiting (ctl_queue c') = [((''ns'', ''n''), 30 * second)]"
proof -
  let ?k = "(''ns'', ''n'')" and ?q = "wq_Add (''ns'', ''n'') newQueue"
  obtain q where g: "wq_Get (tl_consumer (ctl_queue demo_ctl)) = Some (Some ?k, q)"
    by (simp add: demo_ctl_def wq_Get_def wq_Add_def newQueue_def Let_def)
  have i: "wq_inv (tl_consumer (ctl_queue demo_ctl))" by (simp add: demo_ctl_def wq_Add_inv)
  have sd: "\<not> ShuttingDown demo_ctl" by (simp add: ShuttingDown_def demo_ctl_def newTwoLaneWorkQueue_def newQueue_def)
  from processNextWorkItem_spec [where reconcile = "\<lambda>w k. (w, Some (RequeueKeyError (30 * second)))" and w = True, OF i g refl sd, of 1]
  show ?thesis
    by (auto simp: second_def demo_ctl_def newTwoLaneWorkQueue_def)
qed

text \<open>
  Becoming leader of a bucket: the replica is then leader for the keys of that bucket and of the
  other buckets it holds, and exactly the keys of the bucket among those its promote function
  lists are put on the slow lane.
\<close>

theorem Promote_spec:
  assumes "distinct (map fst (lf_buckets l))" "lf_PromoteFunc l = Some keys"
    and "\<not> wq_shuttingDown (tl_slow (ctl_queue c))"
    and "Promote name has True l c = (l', c')"
  shows "(IsLeaderFor l' k \<longleftrightarrow> has k \<or> IsLeaderFor (Demote name l) k) \<and>
    wq_dirty (tl_slow (ctl_queue c')) = wq_dirty (tl_slow (ctl_queue c)) \<union> {k \<in> set keys. has k}"
proof -
  have "l' = fst (Promote name has True l c)" "c' = fold (MaybeEnqueueBucketKey has) keys c"
    using assms(2,4) by (auto simp: Promote_def)
  with IsLeaderFor_Promote [OF assms(1), of name has True c k] fold_enqueue_pending [OF assms(3), of has keys]
  show ?thesis by simp
qed

theorem Promote_spec_witness:
  "\<exists>l' c'. Promote [] (\<lambda>_. True) True \<lparr> lf_buckets = [], lf_PromoteFunc = Some [(''ns'', ''n'')] \<rparr> demo_ctl = (l', c') \<and>
     IsLeaderFor l' (''ns'', ''n'') \<and> wq_dirty (tl_slow (ctl_queue c')) = {(''ns'', ''n'')}"
proof -
  let ?l = "\<lparr> lf_buckets = [], lf_PromoteFunc = Some [(''ns'', ''n'')] \<rparr>"
  obtain l' c' where p: "Promote [] (\<lambda>_. True) True ?l demo_ctl = (l', c')" by fastforce
  have "wq_dirty (tl_slow (ctl_queue demo_ctl)) = {}" "\<not> wq_shuttingDown (tl_slow (ctl_queue demo_ctl))"
    by (simp_all add: demo_ctl_def newTwoLaneWorkQueue_def newQueue_def)
  with Promote_spec [of ?l "[(''ns'', ''n'')]" demo_ctl "[]" "\<lambda>_. True" l' c' "(''ns'', ''n'')"] p
  show ?thesis by auto
qed

end
