(* ===== verification/Run_Context.thy ===== *)
theory Run_Context
  imports Controller "HOL-Library.Multiset"
begin

section \<open>The run of a controller\<close>

text \<open>
  \<^verbatim>\<open>Impl.RunContext\<close> (\<^verbatim>\<open>knative.dev/pkg/controller/controller.go\<close>): the elector and the workers as goroutines
  over the two-lane queue, the end of the context, and the shutdown that waits for the queue to
  empty and for every goroutine. A worker takes a key, reconciles it and is done with it, in two
  steps between which everything else may happen; the result of a reconciliation and the delay of
  the token bucket are any. That a reconciliation ends is not part of the steps: \<open>worker_finish\<close> is always possible. Metrics and
  logging are left out; \<open>rn_log\<close> records the keys that were given to the reconciler.
\<close>

datatype worker = Ready | Busy key | Exited

record run =
  rn_ctl :: ctl
  rn_workers :: "worker list"
  rn_elector :: bool
  rn_done :: bool
  rn_shut :: bool
  rn_returned :: bool
  rn_log :: "key list"

abbreviation rn_queue :: "run \<Rightarrow> key two_lane" where
  "rn_queue s \<equiv> ctl_queue (rn_ctl s)"

definition set_queue :: "key two_lane \<Rightarrow> run \<Rightarrow> run" where
  "set_queue q s = s\<lparr>rn_ctl := (rn_ctl s)\<lparr>ctl_queue := q\<rparr>\<rparr>"

definition tl_Len :: "'a two_lane \<Rightarrow> nat" where
  "tl_Len q = wq_Len (tl_fast q) + wq_Len (tl_slow q) + wq_Len (tl_consumer q)"

definition tl_ShutDown :: "'a two_lane \<Rightarrow> 'a two_lane" where
  "tl_ShutDown q = q\<lparr>tl_fast := wq_ShutDown (tl_fast q), tl_slow := wq_ShutDown (tl_slow q)\<rparr>"

text \<open>The part of \<^verbatim>\<open>processNextWorkItem\<close> after the reconciliation of a key.\<close>

definition finish_key :: "duration \<Rightarrow> err option \<Rightarrow> key \<Rightarrow> ctl \<Rightarrow> ctl" where
  "finish_key bucket oe k c =
     (let c1 = (case oe of None \<Rightarrow> Forget k c | Some e \<Rightarrow> handleErr bucket e k c) in
      c1\<lparr>ctl_queue := (ctl_queue c1)\<lparr>tl_consumer := wq_Done k (tl_consumer (ctl_queue c1)),
           tl_held := remove1 k (tl_held (ctl_queue c1))\<rparr>\<rparr>)"

definition RunContext_start :: "nat \<Rightarrow> ctl \<Rightarrow> run" where
  "RunContext_start threadiness c =
     \<lparr> rn_ctl = c, rn_workers = replicate threadiness Ready, rn_elector = True, rn_done = False, rn_shut = False,
       rn_returned = False, rn_log = [] \<rparr>"

text \<open>\<open>goroutine\<close> is a step of the queue's own goroutines, of the timers or of anyone who adds a key.\<close>

inductive run_step :: "run \<Rightarrow> run \<Rightarrow> bool" where
  goroutine: "tl_step (rn_queue s) q \<Longrightarrow> tl_held q = tl_held (rn_queue s) \<Longrightarrow>
     wq_shuttingDown (tl_fast q) = wq_shuttingDown (tl_fast (rn_queue s)) \<Longrightarrow> run_step s (set_queue q s)"
| worker_take: "i < length (rn_workers s) \<Longrightarrow> rn_workers s ! i = Ready \<Longrightarrow>
     wq_Get (tl_consumer (rn_queue s)) = Some (Some k, q) \<Longrightarrow>
     run_step s ((set_queue ((rn_queue s)\<lparr>tl_consumer := q, tl_held := k # tl_held (rn_queue s)\<rparr>) s)
       \<lparr>rn_workers := (rn_workers s)[i := Busy k], rn_log := rn_log s @ [k]\<rparr>)"
| worker_finish: "i < length (rn_workers s) \<Longrightarrow> rn_workers s ! i = Busy k \<Longrightarrow>
     run_step s (s\<lparr>rn_ctl := finish_key bucket oe k (rn_ctl s), rn_workers := (rn_workers s)[i := Ready]\<rparr>)"
| worker_exit: "i < length (rn_workers s) \<Longrightarrow> rn_workers s ! i = Ready \<Longrightarrow>
     wq_Get (tl_consumer (rn_queue s)) = Some (None, q) \<Longrightarrow> run_step s (s\<lparr>rn_workers := (rn_workers s)[i := Exited]\<rparr>)"
| ctx_done: "run_step s (s\<lparr>rn_done := True\<rparr>)"
| elector_exit: "rn_done s \<Longrightarrow> run_step s (s\<lparr>rn_elector := False\<rparr>)"
| shut: "rn_done s \<Longrightarrow> run_step s ((set_queue (tl_ShutDown (rn_queue s)) s)\<lparr>rn_shut := True\<rparr>)"
| finished: "rn_shut s \<Longrightarrow> tl_Len (rn_queue s) = 0 \<Longrightarrow> \<not> rn_elector s \<Longrightarrow> list_all (\<lambda>w. w = Exited) (rn_workers s) \<Longrightarrow>
     run_step s (s\<lparr>rn_returned := True\<rparr>)"

text \<open>Before \<^verbatim>\<open>RunContext\<close> the queue may already have keys, which the informers' handlers added, but no worker.\<close>

inductive run_reach :: "nat \<Rightarrow> run \<Rightarrow> bool" for threadiness where
  run_init: "tl_reach (ctl_queue c) \<Longrightarrow> tl_held (ctl_queue c) = [] \<Longrightarrow> run_reach threadiness (RunContext_start threadiness c)"
| run_next: "run_reach threadiness s \<Longrightarrow> run_step s s' \<Longrightarrow> run_reach threadiness s'"

subsection \<open>Invariant\<close>

fun busy :: "worker \<Rightarrow> key list" where
  "busy (Busy k) = [k]"
| "busy Ready = []"
| "busy Exited = []"

definition busy_keys :: "worker list \<Rightarrow> key list" where
  "busy_keys ws = concat (map busy ws)"

abbreviation all_exited :: "worker list \<Rightarrow> bool" where
  "all_exited ws \<equiv> list_all (\<lambda>w. w = Exited) ws"

definition run_inv :: "nat \<Rightarrow> run \<Rightarrow> bool" where
  "run_inv n s \<longleftrightarrow>
     tl_reach (rn_queue s) \<and> length (rn_workers s) = n \<and> mset (tl_held (rn_queue s)) = mset (busy_keys (rn_workers s)) \<and>
     (rn_shut s \<longrightarrow> rn_done s \<and> wq_shuttingDown (tl_fast (rn_queue s)) \<and> wq_shuttingDown (tl_slow (rn_queue s))) \<and>
     (Exited \<in> set (rn_workers s) \<longrightarrow> wq_shuttingDown (tl_consumer (rn_queue s)) \<and>
        (all_exited (rn_workers s) \<longrightarrow> wq_dirty (tl_consumer (rn_queue s)) = {})) \<and>
     (rn_returned s \<longrightarrow> all_exited (rn_workers s))"

lemma busy_update:
  assumes "i < length ws"
  shows "mset (busy_keys (ws[i := w])) + mset (busy (ws ! i)) = mset (busy_keys ws) + mset (busy w)"
proof -
  have "ws = take i ws @ ws ! i # drop (Suc i) ws" by (rule id_take_nth_drop [OF assms])
  then have "busy_keys ws = busy_keys (take i ws) @ busy (ws ! i) @ busy_keys (drop (Suc i) ws)"
    by (metis busy_keys_def concat.simps(2) concat_append list.simps(9) map_append)
  moreover have "busy_keys (ws[i := w]) = busy_keys (take i ws) @ busy w @ busy_keys (drop (Suc i) ws)"
    by (simp add: busy_keys_def upd_conv_take_nth_drop [OF assms])
  ultimately show ?thesis by simp
qed

lemma busy_none: "busy_keys ws = [] \<longleftrightarrow> (\<forall>k. Busy k \<notin> set ws)"
proof -
  have "busy w = [] \<longleftrightarrow> (\<forall>k. w \<noteq> Busy k)" for w by (cases w) auto
  then show ?thesis by (auto simp: busy_keys_def)
qed

lemma busy_exited: "all_exited ws \<Longrightarrow> busy_keys ws = []"
  by (auto simp: busy_none list_all_iff)

lemma set_queue_sel [simp]:
  "rn_queue (set_queue q s) = q" "rn_workers (set_queue q s) = rn_workers s" "rn_elector (set_queue q s) = rn_elector s"
  "rn_done (set_queue q s) = rn_done s" "rn_shut (set_queue q s) = rn_shut s" "rn_returned (set_queue q s) = rn_returned s"
  "rn_log (set_queue q s) = rn_log s"
  by (simp_all add: set_queue_def)

lemma finish_key_queue:
  assumes "tl_reach (ctl_queue c)" "k \<in> set (tl_held (ctl_queue c))"
  shows "tl_reach (ctl_queue (finish_key bucket oe k c))"
    "tl_consumer (ctl_queue (finish_key bucket oe k c)) = wq_Done k (tl_consumer (ctl_queue c))"
    "tl_held (ctl_queue (finish_key bucket oe k c)) = remove1 k (tl_held (ctl_queue c))"
proof -
  define c1 where "c1 = (case oe of None \<Rightarrow> Forget k c | Some e \<Rightarrow> handleErr bucket e k c)"
  have c1: "tl_reach (ctl_queue c1)" "tl_consumer (ctl_queue c1) = tl_consumer (ctl_queue c)" "tl_held (ctl_queue c1) = tl_held (ctl_queue c)"
    using assms(1) by (simp_all add: c1_def handleErr_reach handleErr_frame Forget_def split: option.split)
  show "tl_reach (ctl_queue (finish_key bucket oe k c))"
    using tl_next [OF c1(1) worker_done] assms(2) by (simp add: finish_key_def c1_def [symmetric] c1(3))
  show "tl_consumer (ctl_queue (finish_key bucket oe k c)) = wq_Done k (tl_consumer (ctl_queue c))"
    "tl_held (ctl_queue (finish_key bucket oe k c)) = remove1 k (tl_held (ctl_queue c))"
    by (simp_all add: finish_key_def c1_def [symmetric] c1)
qed

lemma AddAfter_shut: "wq_shuttingDown (tl_fast q) \<Longrightarrow> tl_AddAfter k d q = q"
  by (simp add: tl_AddAfter_def)

lemma finish_key_flags:
  "wq_shuttingDown (tl_fast (ctl_queue (finish_key bucket oe k c))) = wq_shuttingDown (tl_fast (ctl_queue c))"
  "wq_shuttingDown (tl_slow (ctl_queue (finish_key bucket oe k c))) = wq_shuttingDown (tl_slow (ctl_queue c))"
  by (auto simp: finish_key_def Let_def Forget_def handleErr_def EnqueueKeyAfter_def AddRateLimited_def tl_AddAfter_def wq_Add_sel
      split: option.split prod.split)

lemma tl_step_flags:
  assumes "tl_step q q'"
  shows "wq_shuttingDown (tl_fast q) \<Longrightarrow> wq_shuttingDown (tl_fast q')" "wq_shuttingDown (tl_slow q) \<Longrightarrow> wq_shuttingDown (tl_slow q')"
    "wq_shuttingDown (tl_consumer q) \<Longrightarrow> wq_shuttingDown (tl_consumer q')"
  using assms by (cases; simp add: wq_Add_sel wq_Done_sel tl_AddAfter_def wq_ShutDown_def wq_Get_def split: list.splits if_splits; auto)+

lemma remove1_same: "x \<in> set xs \<Longrightarrow> remove1 x xs \<noteq> xs"
  by (metis length_remove1 length_pos_if_in_set diff_less less_irrefl zero_less_one)

lemma consumer_dirty_step:
  assumes "tl_step q q'" "tl_inv q" "wq_shuttingDown (tl_consumer q)" "tl_held q' = tl_held q"
  shows "wq_dirty (tl_consumer q') = wq_dirty (tl_consumer q)"
  using assms(1)
proof cases
  case (worker_done x)
  with assms(4) show ?thesis by (simp add: remove1_same)
qed (use assms(2-4) in \<open>simp_all add: tl_inv_def wq_Done_sel wq_ShutDown_def tl_AddAfter_def\<close>)

lemma drained_exit:
  assumes "wq_inv q" "wq_Get q = Some (None, q')" "wq_processing q = {}"
  shows "wq_dirty q = {}"
  using closed_ok_Get [OF assms(1,3,2)] by (simp add: closed_ok_def)

lemma exit_shut: "wq_Get q = Some (None, q') \<Longrightarrow> wq_shuttingDown q"
  by (auto simp: wq_Get_def split: list.splits if_splits)

lemma run_inv_step:
  assumes "run_step s s'" "run_inv n s"
  shows "run_inv n s'"
  using assms(1)
proof cases
  case (goroutine q)
  have "tl_reach q" using tl_next goroutine(2) assms(2) by (auto simp: run_inv_def)
  moreover have "tl_inv (rn_queue s)" using assms(2) by (auto simp: run_inv_def intro: tl_reach_inv)
  ultimately show ?thesis
    using assms(2) tl_step_flags [OF goroutine(2)] consumer_dirty_step [OF goroutine(2) _ _ goroutine(3)] goroutine(1,3)
    by (auto simp: run_inv_def)
next
  case (worker_take i k q)
  have inv: "tl_inv (rn_queue s)" using assms(2) by (auto simp: run_inv_def intro: tl_reach_inv)
  have "tl_reach ((rn_queue s)\<lparr>tl_consumer := q, tl_held := k # tl_held (rn_queue s)\<rparr>)"
    using tl_next [OF _ worker_get [OF worker_take(4)]] assms(2) by (auto simp: run_inv_def)
  moreover have "mset (busy_keys ((rn_workers s)[i := Busy k])) = add_mset k (mset (busy_keys (rn_workers s)))"
    using busy_update [OF worker_take(2), of "Busy k"] worker_take(3) by simp
  moreover have "Ready \<in> set (rn_workers s)" "Busy k \<in> set ((rn_workers s)[i := Busy k])"
    using worker_take(2,3) by (auto intro: nth_mem set_update_memI simp: in_set_conv_nth)
  then have "\<not> all_exited (rn_workers s)" "\<not> all_exited ((rn_workers s)[i := Busy k])" by (auto simp: list_all_iff)
  ultimately show ?thesis
    using assms(2) wq_Get_item(5) [OF _ worker_take(4)] inv worker_take(1,2) set_update_subset_insert [of "rn_workers s" i "Busy k"]
    by (auto simp: run_inv_def tl_inv_def)
next
  case (worker_finish i k bucket oe)
  have reach: "tl_reach (rn_queue s)" using assms(2) by (simp add: run_inv_def)
  have upd: "add_mset k (mset (busy_keys ((rn_workers s)[i := Ready]))) = mset (busy_keys (rn_workers s))"
    using busy_update [OF worker_finish(2), of Ready] worker_finish(3) by simp
  then have held: "k \<in># mset (tl_held (rn_queue s))" using assms(2) by (simp add: run_inv_def upd [symmetric] del: set_mset_mset)
  note fin = finish_key_queue [OF reach held [simplified], of bucket oe]
  have "Ready \<in> set ((rn_workers s)[i := Ready])" "Busy k \<in> set (rn_workers s)"
    using worker_finish(2,3) by (auto intro: nth_mem set_update_memI simp: in_set_conv_nth)
  then have "\<not> all_exited (rn_workers s)" "\<not> all_exited ((rn_workers s)[i := Ready])" by (auto simp: list_all_iff)
  moreover have "mset (remove1 k (tl_held (rn_queue s))) = mset (busy_keys ((rn_workers s)[i := Ready]))"
    using assms(2) upd by (simp add: run_inv_def) (metis add_mset_remove_trivial)
  ultimately show ?thesis
    using assms(2) fin worker_finish(1,2) set_update_subset_insert [of "rn_workers s" i Ready]
    by (auto simp: run_inv_def finish_key_flags wq_Done_sel)
next
  case (worker_exit i q)
  have inv: "tl_inv (rn_queue s)" using assms(2) by (auto simp: run_inv_def intro: tl_reach_inv)
  have upd: "mset (busy_keys ((rn_workers s)[i := Exited])) = mset (busy_keys (rn_workers s))"
    using busy_update [OF worker_exit(2), of Exited] worker_exit(3) by simp
  have "wq_dirty (tl_consumer (rn_queue s)) = {}" if "all_exited ((rn_workers s)[i := Exited])"
  proof (rule drained_exit [OF _ worker_exit(4)])
    show "wq_inv (tl_consumer (rn_queue s))" using inv by (simp add: tl_inv_def)
    have "mset (tl_held (rn_queue s)) = {#}" using busy_exited [OF that] upd assms(2) by (simp add: run_inv_def)
    then show "wq_processing (tl_consumer (rn_queue s)) = {}" using inv by (simp add: tl_inv_def)
  qed
  moreover have "Ready \<in> set (rn_workers s)" using worker_exit(2,3) by (auto simp: in_set_conv_nth)
  then have "\<not> all_exited (rn_workers s)" by (auto simp: list_all_iff)
  ultimately show ?thesis using assms(2) upd exit_shut [OF worker_exit(4)] worker_exit(1) by (auto simp: run_inv_def)
next
  case shut
  have "tl_reach (tl_ShutDown (rn_queue s))"
    using assms(2) tl_next [OF _ shut_down] by (auto simp: run_inv_def tl_ShutDown_def)
  with shut assms(2) show ?thesis by (auto simp: run_inv_def tl_ShutDown_def wq_ShutDown_def)
qed (use assms(2) in \<open>auto simp: run_inv_def\<close>)

lemma run_reach_inv: "run_reach n s \<Longrightarrow> run_inv n s"
proof (induction rule: run_reach.induct)
  case (run_init c)
  then show ?case by (auto simp: run_inv_def RunContext_start_def busy_none)
qed (rule run_inv_step)

subsection \<open>No key is lost\<close>

lemma finish_key_pending: "tl_pending (ctl_queue c) \<subseteq> tl_pending (ctl_queue (finish_key bucket oe k c))"
proof -
  define c1 where "c1 = (case oe of None \<Rightarrow> Forget k c | Some e \<Rightarrow> handleErr bucket e k c)"
  have "tl_pending (ctl_queue c) \<subseteq> tl_pending (ctl_queue c1)"
    using tl_AddAfter_pending [of "ctl_queue c" k]
    by (auto simp: c1_def Forget_def handleErr_def EnqueueKeyAfter_def AddRateLimited_def split: option.split prod.split)
  also have "\<dots> \<subseteq> tl_pending (ctl_queue (finish_key bucket oe k c))"
    by (auto simp: finish_key_def c1_def [symmetric] tl_pending_def wq_Done_sel)
  finally show ?thesis .
qed

lemma pending_step:
  assumes "run_step s s'" "run_inv n s" "k \<in> tl_pending (rn_queue s)"
  shows "k \<in> tl_pending (rn_queue s') \<or> rn_log s' = rn_log s @ [k]"
proof -
  have inv: "tl_inv (rn_queue s)" using assms(2) by (auto simp: run_inv_def intro: tl_reach_inv)
  from assms(1) show ?thesis
  proof cases
    case (goroutine q)
    then show ?thesis using tl_pending_step [OF goroutine(2) inv assms(3)] by simp
  next
    case (worker_take i y q)
    then show ?thesis using tl_pending_step [OF worker_get [OF worker_take(4)] inv assms(3)] by auto
  next
    case (worker_finish i y bucket oe)
    then show ?thesis using subsetD [OF finish_key_pending assms(3), of bucket oe y] by simp
  qed (use assms(3) in \<open>auto simp: tl_pending_def tl_ShutDown_def wq_ShutDown_def\<close>)
qed

lemma log_step: "run_step s s' \<Longrightarrow> \<exists>l. rn_log s' = rn_log s @ l"
  by (induction rule: run_step.induct) auto

lemma run_inv_steps: "run_step\<^sup>*\<^sup>* s s' \<Longrightarrow> run_inv n s \<Longrightarrow> run_inv n s'"
  by (induction rule: rtranclp_induct) (auto intro: run_inv_step)

lemma pending_steps:
  assumes "run_step\<^sup>*\<^sup>* s s'" "run_inv n s" "k \<in> tl_pending (rn_queue s)"
  shows "\<exists>l. rn_log s' = rn_log s @ l \<and> (k \<in> tl_pending (rn_queue s') \<or> k \<in> set l)"
  using assms(1)
proof (induction rule: rtranclp_induct)
  case base
  with assms(3) show ?case by simp
next
  case (step y z)
  from step.IH obtain l where l: "rn_log y = rn_log s @ l" "k \<in> tl_pending (rn_queue y) \<or> k \<in> set l" by blast
  from log_step [OF step.hyps(2)] obtain l' where l': "rn_log z = rn_log y @ l'" by blast
  have "k \<in> tl_pending (rn_queue z) \<or> k \<in> set (l @ l')"
    using l(2) pending_step [OF step.hyps(2) run_inv_steps [OF step.hyps(1) assms(2)], of k] l' by auto
  with l(1) l' show ?case by (intro exI [of _ "l @ l'"]) simp
qed

lemma returned_drained:
  assumes "run_inv n s" "0 < n" "rn_returned s"
  shows "tl_pending (rn_queue s) = {}" "tl_held (rn_queue s) = []"
proof -
  have inv: "tl_inv (rn_queue s)" using assms(1) by (auto simp: run_inv_def intro: tl_reach_inv)
  have all: "all_exited (rn_workers s)" "rn_workers s \<noteq> []" using assms by (auto simp: run_inv_def)
  then have "Exited \<in> set (rn_workers s)" by (cases "rn_workers s") auto
  with assms(1) all(1) have c: "wq_shuttingDown (tl_consumer (rn_queue s))" "wq_dirty (tl_consumer (rn_queue s)) = {}"
    by (auto simp: run_inv_def)
  with inv show "tl_pending (rn_queue s) = {}" by (simp add: tl_pending_def tl_inv_def closed_ok_def)
  show "tl_held (rn_queue s) = []" using assms(1) busy_exited [OF all(1)] by (simp add: run_inv_def)
qed

subsection \<open>The shutdown ends\<close>

text \<open>The work that is left after the shutdown: what every key, goroutine and worker still has to do.\<close>

fun hand_work :: "'a hand \<Rightarrow> nat" where
  "hand_work Closed = 0"
| "hand_work Idle = 1"
| "hand_work (Sending x) = 4"
| "hand_work (Got x) = 5"

definition queue_work :: "'a two_lane \<Rightarrow> nat" where
  "queue_work q =
     5 * (card (wq_dirty (tl_fast q)) + card (wq_dirty (tl_slow q))) + hand_work (tl_fast_hand q) + hand_work (tl_slow_hand q) +
     2 * card (wq_dirty (tl_consumer q)) + length (tl_held q) + length (tl_waiting q) +
     (if wq_shuttingDown (tl_consumer q) then 0 else 1)"

definition run_work :: "run \<Rightarrow> nat" where
  "run_work s =
     queue_work (rn_queue s) + length (filter (\<lambda>w. w \<noteq> Exited) (rn_workers s)) + (if rn_elector s then 1 else 0) +
     (if rn_returned s then 0 else 1)"

lemma wq_finite:
  assumes "wq_inv q" "finite (wq_processing q)"
  shows "finite (wq_dirty q)"
proof (rule finite_subset)
  show "wq_dirty q \<subseteq> set (wq_queue q) \<union> wq_processing q" using assms(1) by (auto simp: wq_inv_def)
  show "finite (set (wq_queue q) \<union> wq_processing q)" using assms(2) by simp
qed

lemma got_finite: "finite (got_items h)"
  by (cases h) simp_all

lemma tl_finite:
  assumes "tl_inv q"
  shows "finite (wq_dirty (tl_fast q))" "finite (wq_dirty (tl_slow q))" "finite (wq_dirty (tl_consumer q))"
proof -
  have "finite (wq_processing (tl_consumer q))" using assms by (metis List.finite_set tl_inv_def)
  then show "finite (wq_dirty (tl_fast q))" "finite (wq_dirty (tl_slow q))" "finite (wq_dirty (tl_consumer q))"
    using assms by (auto simp: tl_inv_def got_finite intro!: wq_finite)
qed

lemma wq_Add_shut: "wq_shuttingDown q \<Longrightarrow> wq_Add x q = q"
  by (simp add: wq_Add_def)

lemma card_Add: "finite (wq_dirty q) \<Longrightarrow> card (wq_dirty (wq_Add x q)) \<le> Suc (card (wq_dirty q))"
  by (auto simp: wq_Add_def Let_def card_insert_if)

lemma card_Get:
  assumes "wq_inv q" "finite (wq_dirty q)" "wq_Get q = Some (Some x, q')"
  shows "Suc (card (wq_dirty q')) = card (wq_dirty q)"
  using wq_Get_item(1,4) [OF assms(1,3)] card_Suc_Diff1 [OF assms(2), of x] by simp

text \<open>On queues that are shut down every step of a goroutine does some of the work.\<close>

lemma queue_work_step:
  assumes "tl_step q q'" "tl_inv q" "wq_shuttingDown (tl_fast q)" "wq_shuttingDown (tl_slow q)" "tl_held q' = tl_held q" "q' \<noteq> q"
  shows "queue_work q' < queue_work q"
  using assms(1)
proof cases
  case (fast_get x p)
  with card_Get [OF _ tl_finite(1) [OF assms(2)] fast_get(3)] assms(2) show ?thesis by (auto simp: queue_work_def tl_inv_def)
next
  case (slow_get x p)
  with card_Get [OF _ tl_finite(2) [OF assms(2)] slow_get(3)] assms(2) show ?thesis by (auto simp: queue_work_def tl_inv_def)
next
  case (fast_send x)
  with card_Add [OF tl_finite(3) [OF assms(2)], of x] show ?thesis by (simp add: queue_work_def wq_Add_sel)
next
  case (slow_send x)
  with card_Add [OF tl_finite(3) [OF assms(2)], of x] show ?thesis by (simp add: queue_work_def wq_Add_sel)
next
  case (worker_done x)
  with assms(5) show ?thesis by (simp add: remove1_same)
next
  case consumer_stop
  with assms(6) show ?thesis by (cases "wq_shuttingDown (tl_consumer q)") (auto simp: queue_work_def wq_ShutDown_def)
next
  case shut_down
  with assms(3,4,6) show ?thesis by (simp add: wq_ShutDown_def)
qed (use assms(3-6) in \<open>simp_all add: queue_work_def wq_Add_shut wq_Done_sel AddAfter_shut\<close>)

lemma finish_key_shut:
  assumes "wq_shuttingDown (tl_fast (ctl_queue c))"
  shows "ctl_queue (finish_key bucket oe k c) =
    (ctl_queue c)\<lparr>tl_consumer := wq_Done k (tl_consumer (ctl_queue c)), tl_held := remove1 k (tl_held (ctl_queue c))\<rparr>"
  using assms
  by (simp add: finish_key_def Let_def Forget_def handleErr_def ShuttingDown_def EnqueueKeyAfter_def AddAfter_shut AddRateLimited_def
      split: option.split prod.split)

lemma filter_update:
  assumes "i < length xs"
  shows "length (filter P (xs[i := x])) + (if P (xs ! i) then 1 else 0) = length (filter P xs) + (if P x then 1 else 0)"
proof -
  have "filter P xs = filter P (take i xs) @ filter P [xs ! i] @ filter P (drop (Suc i) xs)"
    by (subst id_take_nth_drop [OF assms]) (simp del: append_take_drop_id)
  then show ?thesis by (simp add: upd_conv_take_nth_drop [OF assms])
qed

definition run_change :: "run \<Rightarrow> run \<Rightarrow> bool" where
  "run_change s s' \<longleftrightarrow> run_step s s' \<and> s' \<noteq> s"

lemma set_queue_same: "set_queue (rn_queue s) s = s"
  by (simp add: set_queue_def)

lemma run_work_step:
  assumes "run_change s s'" "run_inv n s" "rn_shut s"
  shows "run_work s' < run_work s"
proof -
  have inv: "tl_inv (rn_queue s)" using assms(2) by (auto simp: run_inv_def intro: tl_reach_inv)
  have flags: "wq_shuttingDown (tl_fast (rn_queue s))" "wq_shuttingDown (tl_slow (rn_queue s))" "rn_done s"
    using assms(2,3) by (auto simp: run_inv_def)
  have step: "run_step s s'" "s' \<noteq> s" using assms(1) by (simp_all add: run_change_def)
  from step(1) show ?thesis
  proof cases
    case (goroutine q)
    with step(2) have "q \<noteq> rn_queue s" by (auto simp: set_queue_same)
    with queue_work_step [OF goroutine(2) inv flags(1,2) goroutine(3)] show ?thesis by (simp add: goroutine(1) run_work_def)
  next
    case (worker_take i k q)
    from inv have "wq_inv (tl_consumer (rn_queue s))" by (simp add: tl_inv_def)
    from card_Get [OF this tl_finite(3) [OF inv] worker_take(4)] wq_Get_item(5) [OF this worker_take(4)]
    have "queue_work ((rn_queue s)\<lparr>tl_consumer := q, tl_held := k # tl_held (rn_queue s)\<rparr>) < queue_work (rn_queue s)"
      by (simp add: queue_work_def)
    with filter_update [OF worker_take(2), of "\<lambda>w. w \<noteq> Exited" "Busy k"] show ?thesis
      by (simp add: worker_take(1,3) run_work_def)
  next
    case (worker_finish i k bucket oe)
    have "k \<in># mset (busy_keys (rn_workers s))"
      using busy_update [OF worker_finish(2), of Ready] worker_finish(3) by (metis busy.simps(1,2) add_0_right mset.simps union_iff multi_member_last)
    then have "k \<in> set (tl_held (rn_queue s))" using assms(2) by (metis run_inv_def set_mset_mset)
    then have "length (remove1 k (tl_held (rn_queue s))) < length (tl_held (rn_queue s))"
      by (metis length_remove1 length_pos_if_in_set diff_less zero_less_one)
    then have "queue_work (ctl_queue (finish_key bucket oe k (rn_ctl s))) < queue_work (rn_queue s)"
      by (simp add: finish_key_shut [OF flags(1)] queue_work_def wq_Done_sel)
    with filter_update [OF worker_finish(2), of "\<lambda>w. w \<noteq> Exited" Ready] show ?thesis
      by (simp add: worker_finish(1,3) run_work_def)
  next
    case (worker_exit i q)
    with filter_update [OF worker_exit(2), of "\<lambda>w. w \<noteq> Exited" Exited] show ?thesis by (simp add: run_work_def)
  next
    case shut
    with flags assms(3) have "s' = s" by (simp add: set_queue_def tl_ShutDown_def wq_ShutDown_def)
    with step(2) show ?thesis by simp
  next
    case ctx_done
    with step(2) flags(3) show ?thesis by simp
  next
    case elector_exit
    with step(2) show ?thesis by (cases "rn_elector s") (simp_all add: run_work_def)
  next
    case finished
    with step(2) show ?thesis by (cases "rn_returned s") (simp_all add: run_work_def)
  qed
qed

lemma shut_step: "run_step s s' \<Longrightarrow> rn_shut s \<Longrightarrow> rn_shut s'"
  by (induction rule: run_step.induct) auto

text \<open>A lane that is shut down and not closed can move.\<close>

lemma lane_progress:
  assumes "tl_inv q"
  shows "wq_shuttingDown (tl_fast q) \<Longrightarrow> tl_fast_hand q \<noteq> Closed \<Longrightarrow>
      \<exists>q'. tl_step q q' \<and> tl_held q' = tl_held q \<and> wq_shuttingDown (tl_fast q') = wq_shuttingDown (tl_fast q) \<and> tl_fast_hand q' \<noteq> tl_fast_hand q"
    "wq_shuttingDown (tl_slow q) \<Longrightarrow> tl_slow_hand q \<noteq> Closed \<Longrightarrow>
      \<exists>q'. tl_step q q' \<and> tl_held q' = tl_held q \<and> wq_shuttingDown (tl_fast q') = wq_shuttingDown (tl_fast q) \<and> tl_slow_hand q' \<noteq> tl_slow_hand q"
proof -
  have get: "(\<exists>x p. wq_Get w = Some (Some x, p) \<and> wq_shuttingDown p) \<or> wq_Get w = Some (None, w)" if "wq_shuttingDown w" for w :: "'a work_queue"
    using that by (auto simp: wq_Get_def split: list.split)
  show "\<exists>q'. tl_step q q' \<and> tl_held q' = tl_held q \<and> wq_shuttingDown (tl_fast q') = wq_shuttingDown (tl_fast q) \<and> tl_fast_hand q' \<noteq> tl_fast_hand q"
    if "wq_shuttingDown (tl_fast q)" "tl_fast_hand q \<noteq> Closed"
  proof (cases "tl_fast_hand q")
    case Idle
    from get [OF that(1)] show ?thesis
    proof (elim disjE exE conjE)
      fix x p
      assume "wq_Get (tl_fast q) = Some (Some x, p)" "wq_shuttingDown p"
      with fast_get [OF Idle this(1)] that(1) show ?thesis by (intro exI conjI) (assumption, simp_all add: Idle)
    next
      assume "wq_Get (tl_fast q) = Some (None, tl_fast q)"
      from fast_close [OF Idle this] show ?thesis by (intro exI conjI) (assumption, simp_all add: Idle)
    qed
  next
    case (Got x)
    from fast_done [OF this] show ?thesis by (intro exI conjI) (assumption, simp_all add: Got wq_Done_sel)
  next
    case (Sending x)
    from fast_send [OF this] show ?thesis by (intro exI conjI) (assumption, simp_all add: Sending)
  qed (use that in simp)
  show "\<exists>q'. tl_step q q' \<and> tl_held q' = tl_held q \<and> wq_shuttingDown (tl_fast q') = wq_shuttingDown (tl_fast q) \<and> tl_slow_hand q' \<noteq> tl_slow_hand q"
    if "wq_shuttingDown (tl_slow q)" "tl_slow_hand q \<noteq> Closed"
  proof (cases "tl_slow_hand q")
    case Idle
    from get [OF that(1)] show ?thesis
    proof (elim disjE exE conjE)
      fix x p
      assume "wq_Get (tl_slow q) = Some (Some x, p)"
      from slow_get [OF Idle this] show ?thesis by (intro exI conjI) (assumption, simp_all add: Idle)
    next
      assume "wq_Get (tl_slow q) = Some (None, tl_slow q)"
      from slow_close [OF Idle this] show ?thesis by (intro exI conjI) (assumption, simp_all add: Idle)
    qed
  next
    case (Got x)
    from slow_done [OF this] show ?thesis by (intro exI conjI) (assumption, simp_all add: Got)
  next
    case (Sending x)
    from slow_send [OF this] show ?thesis by (intro exI conjI) (assumption, simp_all add: Sending)
  qed (use that in simp)
qed

lemma goroutine_change:
  assumes "tl_step (rn_queue s) q" "tl_held q = tl_held (rn_queue s)"
    "wq_shuttingDown (tl_fast q) = wq_shuttingDown (tl_fast (rn_queue s))" "q \<noteq> rn_queue s"
  shows "\<exists>s'. run_change s s'"
proof -
  have "set_queue q s \<noteq> s" using assms(4) by (metis set_queue_sel(1))
  with goroutine [OF assms(1-3)] show ?thesis by (auto simp: run_change_def)
qed

lemma worker_change:
  assumes "i < length (rn_workers s)" "run_step s s'" "rn_workers s' = (rn_workers s)[i := w]" "w \<noteq> rn_workers s ! i"
  shows "\<exists>s'. run_change s s'"
proof -
  have "rn_workers s' \<noteq> rn_workers s" using assms(1,3,4) by (metis nth_list_update_eq)
  with assms(2) show ?thesis by (auto simp: run_change_def)
qed

lemma queue_empty: "wq_inv q \<Longrightarrow> wq_dirty q = {} \<Longrightarrow> wq_queue q = []"
  by (simp add: wq_inv_def)

text \<open>Once both lanes are closed and no worker is busy, workers take what is left or exit, and then the
  elector and \<^verbatim>\<open>RunContext\<close> end.\<close>

lemma worker_progress:
  assumes "run_inv n s" "\<not> all_exited (rn_workers s)" "busy_keys (rn_workers s) = []" "wq_shuttingDown (tl_consumer (rn_queue s))"
  shows "\<exists>s'. run_change s s'"
proof -
  from assms(2) obtain i where i: "i < length (rn_workers s)" "rn_workers s ! i \<noteq> Exited" by (auto simp: list_all_length)
  with assms(3) have ready: "rn_workers s ! i = Ready" by (cases "rn_workers s ! i") (auto simp: busy_none in_set_conv_nth)
  show ?thesis
  proof (cases "wq_queue (tl_consumer (rn_queue s))")
    case Nil
    then have "wq_Get (tl_consumer (rn_queue s)) = Some (None, tl_consumer (rn_queue s))" using assms(4) by (simp add: wq_Get_def)
    from worker_change [OF i(1) worker_exit [OF i(1) ready this]] ready show ?thesis by simp
  next
    case (Cons k ks)
    then obtain p where "wq_Get (tl_consumer (rn_queue s)) = Some (Some k, p)" by (simp add: wq_Get_def)
    from worker_change [OF i(1) worker_take [OF i(1) ready this]] ready show ?thesis by simp
  qed
qed

lemma end_progress:
  assumes "run_inv n s" "0 < n" "rn_shut s" "\<not> rn_returned s" "all_exited (rn_workers s)"
    and "tl_fast_hand (rn_queue s) = Closed" "tl_slow_hand (rn_queue s) = Closed"
  shows "\<exists>s'. run_change s s'"
proof -
  have inv: "tl_inv (rn_queue s)" using assms(1) by (auto simp: run_inv_def intro: tl_reach_inv)
  have "rn_workers s \<noteq> []" using assms(1,2) by (auto simp: run_inv_def)
  with assms(5) have "Exited \<in> set (rn_workers s)" by (cases "rn_workers s") auto
  with assms(1,5) have "wq_dirty (tl_consumer (rn_queue s)) = {}" by (auto simp: run_inv_def)
  with inv assms(6,7) have len: "tl_Len (rn_queue s) = 0"
    by (simp add: tl_Len_def wq_Len_def tl_inv_def closed_ok_def queue_empty)
  show ?thesis
  proof (cases "rn_elector s")
    case True
    then have "s\<lparr>rn_elector := False\<rparr> \<noteq> s" by (metis run.select_convs(3) run.surjective run.update_convs(3))
    moreover have "rn_done s" using assms(1,3) by (simp add: run_inv_def)
    ultimately show ?thesis using elector_exit by (auto simp: run_change_def)
  next
    case False
    have "s\<lparr>rn_returned := True\<rparr> \<noteq> s" using assms(4) by (metis run.select_convs(6) run.surjective run.update_convs(6))
    with finished [OF assms(3) len False assms(5)] show ?thesis by (auto simp: run_change_def)
  qed
qed

lemma run_progress:
  assumes "run_inv n s" "0 < n" "rn_shut s" "\<not> rn_returned s"
  shows "\<exists>s'. run_change s s'"
proof (cases "busy_keys (rn_workers s) = []")
  case False
  then obtain i k where "i < length (rn_workers s)" "rn_workers s ! i = Busy k" by (auto simp: busy_none in_set_conv_nth)
  from worker_change [OF this(1) worker_finish [OF this]] this show ?thesis by simp
next
  case idle: True
  let ?q = "rn_queue s"
  have inv: "tl_inv ?q" using assms(1) by (auto simp: run_inv_def intro: tl_reach_inv)
  have flags: "wq_shuttingDown (tl_fast ?q)" "wq_shuttingDown (tl_slow ?q)" using assms(1,3) by (auto simp: run_inv_def)
  consider "tl_fast_hand ?q \<noteq> Closed" | "tl_slow_hand ?q \<noteq> Closed" |
    (closed) "tl_fast_hand ?q = Closed" "tl_slow_hand ?q = Closed" by blast
  then show ?thesis
  proof cases
    case 1
    with lane_progress(1) [OF inv flags(1)] goroutine_change show ?thesis by blast
  next
    case 2
    with lane_progress(2) [OF inv flags(2)] goroutine_change show ?thesis by blast
  next
    case closed
    show ?thesis
    proof (cases "wq_shuttingDown (tl_consumer ?q)")
      case False
      then have "wq_shuttingDown (tl_consumer (?q\<lparr>tl_consumer := wq_ShutDown (tl_consumer ?q)\<rparr>)) \<noteq> wq_shuttingDown (tl_consumer ?q)"
        by (simp add: wq_ShutDown_def)
      then have "?q\<lparr>tl_consumer := wq_ShutDown (tl_consumer ?q)\<rparr> \<noteq> ?q" by metis
      with goroutine_change [OF consumer_stop [OF closed]] show ?thesis by simp
    next
      case True
      with worker_progress [OF assms(1) _ idle] end_progress [OF assms _ closed] show ?thesis by blast
    qed
  qed
qed

lemma run_returns:
  assumes "run_inv n s" "0 < n" "rn_shut s"
  shows "\<exists>s'. run_step\<^sup>*\<^sup>* s s' \<and> rn_returned s'"
  using assms(1,3)
proof (induction "run_work s" arbitrary: s rule: less_induct)
  case less
  show ?case
  proof (cases "rn_returned s")
    case False
    from run_progress [OF less.prems(1) assms(2) less.prems(2) False] obtain t where t: "run_change s t" by blast
    then have "run_step s t" by (simp add: run_change_def)
    from less.hyps [OF run_work_step [OF t less.prems] run_inv_step [OF this less.prems(1)] shut_step [OF this less.prems(2)]]
    obtain s' where "run_step\<^sup>*\<^sup>* t s'" "rn_returned s'" by blast
    with \<open>run_step s t\<close> show ?thesis by (meson converse_rtranclp_into_rtranclp)
  qed blast
qed

lemma run_change_work:
  assumes "(run_change ^^ m) s s'" "run_inv n s" "rn_shut s"
  shows "m + run_work s' \<le> run_work s \<and> run_inv n s' \<and> rn_shut s'"
  using assms(1)
proof (induction m arbitrary: s')
  case 0
  with assms(2,3) show ?case by simp
next
  case (Suc m)
  then obtain t where t: "(run_change ^^ m) s t" "run_change t s'" by auto
  note ih = Suc.IH [OF t(1)]
  have "run_step t s'" using t(2) by (simp add: run_change_def)
  with ih run_inv_step shut_step run_work_step [OF t(2)] show ?case by fastforce
qed

subsection \<open>One round of a worker\<close>

lemma handleErr_held_ctl:
  "handleErr bucket e k (c\<lparr>ctl_queue := q\<lparr>tl_held := h\<rparr>\<rparr>) =
     (handleErr bucket e k (c\<lparr>ctl_queue := q\<rparr>))\<lparr>ctl_queue := (ctl_queue (handleErr bucket e k (c\<lparr>ctl_queue := q\<rparr>)))\<lparr>tl_held := h\<rparr>\<rparr>"
  by (simp add: handleErr_def Forget_def EnqueueKeyAfter_def AddRateLimited_def tl_AddAfter_def ShuttingDown_def split: option.split prod.split)

text \<open>A round of \<^verbatim>\<open>processNextWorkItem\<close> without interruption is the two steps of a worker.\<close>

lemma process_two_steps:
  assumes "i < length (rn_workers s)" "rn_workers s ! i = Ready"
    and "processNextWorkItem bucket reconcile w (rn_ctl s) = Some (True, w', c')"
  shows "\<exists>s1 s2 k. run_step s s1 \<and> run_step s1 s2 \<and> rn_ctl s2 = c' \<and> rn_workers s2 = rn_workers s \<and> rn_log s2 = rn_log s @ [k]"
proof -
  obtain k q where get: "wq_Get (tl_consumer (rn_queue s)) = Some (Some k, q)"
    using assms(3) by (auto simp: processNextWorkItem_def split: option.splits prod.splits)
  obtain w1 oe where r: "reconcile w (safeKey k) = (w1, oe)" by fastforce
  let ?h = "k # tl_held (rn_queue s)"
  let ?c1 = "(rn_ctl s)\<lparr>ctl_queue := (rn_queue s)\<lparr>tl_consumer := q\<rparr>\<rparr>"
  let ?c1h = "(rn_ctl s)\<lparr>ctl_queue := (rn_queue s)\<lparr>tl_consumer := q, tl_held := ?h\<rparr>\<rparr>"
  have c': "c' = finish_key bucket oe k ?c1h"
  proof -
    define f where "f = (\<lambda>c. case oe of None \<Rightarrow> Forget k c | Some e \<Rightarrow> handleErr bucket e k c)"
    have fk: "finish_key bucket oe k c = (f c)\<lparr>ctl_queue := (ctl_queue (f c))
        \<lparr>tl_consumer := wq_Done k (tl_consumer (ctl_queue (f c))), tl_held := remove1 k (tl_held (ctl_queue (f c)))\<rparr>\<rparr>" for c
      by (simp add: finish_key_def f_def Let_def)
    have f: "f ?c1h = (f ?c1)\<lparr>ctl_queue := (ctl_queue (f ?c1))\<lparr>tl_held := ?h\<rparr>\<rparr>"
      using handleErr_held_ctl [where c = "rn_ctl s" and q = "(rn_queue s)\<lparr>tl_consumer := q\<rparr>" and h = ?h]
      by (simp add: f_def Forget_def split: option.split)
    have held: "tl_held (ctl_queue (f ?c1)) = tl_held (rn_queue s)"
      by (simp add: f_def handleErr_frame Forget_def split: option.split)
    have "c' = (f ?c1)\<lparr>ctl_queue := (ctl_queue (f ?c1))\<lparr>tl_consumer := wq_Done k (tl_consumer (ctl_queue (f ?c1)))\<rparr>\<rparr>"
      using assms(3) by (simp add: processNextWorkItem_def get r Let_def f_def)
    moreover have "finish_key bucket oe k ?c1h = (f ?c1)\<lparr>ctl_queue := (ctl_queue (f ?c1))
        \<lparr>tl_consumer := wq_Done k (tl_consumer (ctl_queue (f ?c1))), tl_held := tl_held (ctl_queue (f ?c1))\<rparr>\<rparr>"
      unfolding fk f by (simp add: held)
    ultimately show ?thesis by simp
  qed
  let ?s1 = "(set_queue ((rn_queue s)\<lparr>tl_consumer := q, tl_held := ?h\<rparr>) s)\<lparr>rn_workers := (rn_workers s)[i := Busy k], rn_log := rn_log s @ [k]\<rparr>"
  have "run_step s ?s1" by (rule worker_take [OF assms(1,2) get])
  moreover have "run_step ?s1 (?s1\<lparr>rn_ctl := finish_key bucket oe k (rn_ctl ?s1), rn_workers := (rn_workers ?s1)[i := Ready]\<rparr>)"
    by (rule worker_finish) (use assms(1) in simp_all)
  ultimately show ?thesis
    using c' list_update_id [of "rn_workers s" i] assms(2) by (intro exI conjI) (assumption, assumption, simp_all add: set_queue_def)
qed

subsection \<open>Properties\<close>

text \<open>A controller with a key on its way and two workers, just after its shutdown began.\<close>

definition demo_run :: run where
  "demo_run = (RunContext_start 2 demo_ctl)\<lparr>rn_done := True, rn_shut := True,
     rn_ctl := demo_ctl\<lparr>ctl_queue := tl_ShutDown (ctl_queue demo_ctl)\<rparr>\<rparr>"

lemma demo_run_reach: "run_reach 2 demo_run" "rn_shut demo_run" "(''ns'', ''n'') \<in> tl_pending (rn_queue demo_run)"
proof -
  have "tl_held (ctl_queue demo_ctl) = []" by (simp add: demo_ctl_def newTwoLaneWorkQueue_def)
  moreover have "tl_reach (ctl_queue demo_ctl)" by (simp add: demo_ctl_def tl_reach_one)
  ultimately have "run_reach 2 (RunContext_start 2 demo_ctl)" by (intro run_init)
  from run_next [OF run_next [OF this ctx_done] shut] show "run_reach 2 demo_run"
    by (simp add: demo_run_def RunContext_start_def set_queue_def)
  show "rn_shut demo_run" by (simp add: demo_run_def)
  show "(''ns'', ''n'') \<in> tl_pending (rn_queue demo_run)"
    by (simp add: demo_run_def demo_ctl_def tl_ShutDown_def tl_pending_def wq_Add_def newQueue_def Let_def)
qed

text \<open>C9. The shutdown of a controller ends. Once \<^verbatim>\<open>RunContext\<close> of a controller with at least one worker has
  begun to shut its queue down, however its goroutines are scheduled and whatever the
  reconciliations return, at most \<open>run_work\<close> more steps change anything, as long as \<^verbatim>\<open>RunContext\<close> has not
  returned some step is possible, and so it can always return.\<close>

theorem RunContext_returns:
  assumes "run_reach n s" "0 < n" "rn_shut s"
  shows "(\<exists>s'. run_step\<^sup>*\<^sup>* s s' \<and> rn_returned s') \<and>
    (\<forall>m s'. (run_change ^^ m) s s' \<longrightarrow> m \<le> run_work s \<and> (rn_returned s' \<or> (\<exists>s''. run_change s' s'')))"
proof (intro conjI allI impI)
  note inv = run_reach_inv [OF assms(1)]
  show "\<exists>s'. run_step\<^sup>*\<^sup>* s s' \<and> rn_returned s'" by (rule run_returns [OF inv assms(2,3)])
  fix m s'
  assume m: "(run_change ^^ m) s s'"
  note end' = run_change_work [OF m inv assms(3)]
  then show "m \<le> run_work s" by simp
  from end' run_progress [OF _ assms(2)] show "rn_returned s' \<or> (\<exists>s''. run_change s' s'')" by blast
qed

theorem RunContext_returns_witness: "\<exists>s'. run_step\<^sup>*\<^sup>* demo_run s' \<and> rn_returned s'"
  using RunContext_returns [OF demo_run_reach(1) _ demo_run_reach(2)] by simp

text \<open>C8. A controller drains its queue before it returns. A key that is on its way to a worker at any time of
  the run of a controller with at least one worker is given to the reconciler before \<^verbatim>\<open>RunContext\<close>
  returns; and when it has returned no key is left in the queue and none is being reconciled.\<close>

theorem RunContext_drains:
  assumes "run_reach n s" "0 < n" "k \<in> tl_pending (rn_queue s)" "run_step\<^sup>*\<^sup>* s s'" "rn_returned s'"
  shows "(\<exists>l. rn_log s' = rn_log s @ l \<and> k \<in> set l) \<and> tl_pending (rn_queue s') = {} \<and> tl_held (rn_queue s') = []"
proof -
  note inv = run_reach_inv [OF assms(1)]
  note drained = returned_drained [OF run_inv_steps [OF assms(4) inv] assms(2,5)]
  with pending_steps [OF assms(4) inv assms(3)] show ?thesis by simp
qed

theorem RunContext_drains_witness:
  "\<exists>s'. run_step\<^sup>*\<^sup>* demo_run s' \<and> (''ns'', ''n'') \<in> set (rn_log s') \<and> tl_pending (rn_queue s') = {}"
proof -
  obtain s' where s': "run_step\<^sup>*\<^sup>* demo_run s'" "rn_returned s'"
    using run_returns [OF run_reach_inv [OF demo_run_reach(1)] _ demo_run_reach(2)] by auto
  from RunContext_drains [OF demo_run_reach(1) _ demo_run_reach(3) s'] s'(1) show ?thesis by auto
qed

end
