(* ===== verification/Wait_Heap.thy ===== *)
theory Wait_Heap
  imports Work_Queue
begin

section \<open>The heap of delayed items\<close>

text \<open>
  The priority queue of \<^verbatim>\<open>delaying_queue.go\<close> with the operations of \<^verbatim>\<open>container/heap\<close> it calls. The entries are
  Go pointers that the heap shares with a map of the waiting loop, hence positions in a store; a
  heap is the list of its pointers, and each entry holds its own index in that list, which
  \<^verbatim>\<open>heap.Fix\<close> relies on. What the loop needs of the heap is the locale \<open>deadline_queue\<close>.
\<close>

subsection \<open>Entries and the heap interface\<close>

record 'a waitFor =
  wf_data :: 'a
  wf_readyAt :: time
  wf_index :: int

record 'a pheap =
  ph_store :: "'a waitFor list"
  ph_queue :: "nat list"

definition entry :: "'a pheap \<Rightarrow> nat \<Rightarrow> 'a waitFor" where
  "entry h i = ph_store h ! (ph_queue h ! i)"

definition pq_Len :: "'a pheap \<Rightarrow> nat" where
  "pq_Len h = length (ph_queue h)"

definition pq_Less :: "nat \<Rightarrow> nat \<Rightarrow> 'a pheap \<Rightarrow> bool" where
  "pq_Less i j h \<longleftrightarrow> wf_readyAt (entry h i) < wf_readyAt (entry h j)"

definition set_index :: "nat \<Rightarrow> int \<Rightarrow> 'a pheap \<Rightarrow> 'a pheap" where
  "set_index p i h = h\<lparr>ph_store := (ph_store h)[p := (ph_store h ! p)\<lparr>wf_index := i\<rparr>]\<rparr>"

definition pq_Swap :: "nat \<Rightarrow> nat \<Rightarrow> 'a pheap \<Rightarrow> 'a pheap" where
  "pq_Swap i j h =
     (let pq = (ph_queue h)[i := ph_queue h ! j, j := ph_queue h ! i];
          h1 = set_index (pq ! i) (int i) (h\<lparr>ph_queue := pq\<rparr>)
      in set_index (pq ! j) (int j) h1)"

definition pq_Push :: "nat \<Rightarrow> 'a pheap \<Rightarrow> 'a pheap" where
  "pq_Push item h = (set_index item (int (pq_Len h)) h)\<lparr>ph_queue := ph_queue h @ [item]\<rparr>"

definition pq_Pop :: "'a pheap \<Rightarrow> nat \<times> 'a pheap" where
  "pq_Pop h =
     (let item = ph_queue h ! (pq_Len h - 1)
      in (item, (set_index item (-1) h)\<lparr>ph_queue := take (pq_Len h - 1) (ph_queue h)\<rparr>))"

definition pq_Peek :: "'a pheap \<Rightarrow> nat" where
  "pq_Peek h = ph_queue h ! 0"

subsection \<open>The operations of the heap package\<close>

text \<open>The indices of a heap in memory do not overflow.\<close>

function heap_up :: "nat \<Rightarrow> 'a pheap \<Rightarrow> 'a pheap" where
  "heap_up j h =
     (let i = (j - 1) div 2 in
      if i = j \<or> \<not> pq_Less j i h then h else heap_up i (pq_Swap i j h))"
  by pat_completeness auto
termination
  by (relation "measure fst") auto

function heap_down :: "nat \<Rightarrow> nat \<Rightarrow> 'a pheap \<Rightarrow> 'a pheap \<times> nat" where
  "heap_down i n h =
     (let j1 = 2 * i + 1 in
      if n \<le> j1 then (h, i)
      else
        let j = (if j1 + 1 < n \<and> pq_Less (j1 + 1) j1 h then j1 + 1 else j1) in
        if \<not> pq_Less j i h then (h, i) else heap_down j n (pq_Swap i j h))"
  by pat_completeness auto
termination
  by (relation "measure (\<lambda>(i, n, h). n - i)") (auto split: if_splits)

declare heap_up.simps [simp del] heap_down.simps [simp del]

definition heap_Init :: "'a pheap \<Rightarrow> 'a pheap" where
  "heap_Init h = (let n = pq_Len h in foldl (\<lambda>h i. fst (heap_down i n h)) h (rev [0..<n div 2]))"

definition heap_Push :: "nat \<Rightarrow> 'a pheap \<Rightarrow> 'a pheap" where
  "heap_Push x h = (let h1 = pq_Push x h in heap_up (pq_Len h1 - 1) h1)"

definition heap_Pop :: "'a pheap \<Rightarrow> nat \<times> 'a pheap" where
  "heap_Pop h =
     (let n = pq_Len h - 1; h1 = pq_Swap 0 n h; h2 = fst (heap_down 0 n h1) in pq_Pop h2)"

definition heap_Fix :: "nat \<Rightarrow> 'a pheap \<Rightarrow> 'a pheap" where
  "heap_Fix i h =
     (case heap_down i (pq_Len h) h of (h', k) \<Rightarrow> if \<not> i < k then heap_up i h' else h')"

subsection \<open>Heap order\<close>

text \<open>On the times by position alone: what holds while an element moves up from \<open>j\<close>, or down from \<open>i\<close>.\<close>

abbreviation par :: "nat \<Rightarrow> nat" where
  "par c \<equiv> (c - 1) div 2"

definition heap_order :: "nat \<Rightarrow> (nat \<Rightarrow> time) \<Rightarrow> bool" where
  "heap_order n k \<longleftrightarrow> (\<forall>c<n. 0 < c \<longrightarrow> k (par c) \<le> k c)"

definition moving :: "nat \<Rightarrow> nat \<Rightarrow> (nat \<Rightarrow> time) \<Rightarrow> bool" where
  "moving n j k \<longleftrightarrow> (\<forall>c<n. 0 < c \<and> par c = j \<and> 0 < j \<longrightarrow> k (par j) \<le> k c)"

definition up_order :: "nat \<Rightarrow> nat \<Rightarrow> (nat \<Rightarrow> time) \<Rightarrow> bool" where
  "up_order n j k \<longleftrightarrow> (\<forall>c<n. 0 < c \<and> c \<noteq> j \<longrightarrow> k (par c) \<le> k c) \<and> moving n j k"

definition down_order :: "nat \<Rightarrow> nat \<Rightarrow> (nat \<Rightarrow> time) \<Rightarrow> bool" where
  "down_order n i k \<longleftrightarrow> (\<forall>c<n. 0 < c \<and> par c \<noteq> i \<longrightarrow> k (par c) \<le> k c) \<and> moving n i k"

lemma par_less: "0 < c \<Longrightarrow> par c < c"
  by simp

lemma child_iff: "0 < c \<and> par c = i \<longleftrightarrow> c = 2 * i + 1 \<or> c = 2 * i + 2"
  by arith

lemma heap_order_root: "heap_order n k \<Longrightarrow> c < n \<Longrightarrow> k 0 \<le> k c"
proof (induction c rule: less_induct)
  case (less c)
  show ?case
  proof (cases "c = 0")
    case False
    then have "k 0 \<le> k (par c)" using less par_less [of c] by simp
    also have "\<dots> \<le> k c" using less.prems False by (simp add: heap_order_def)
    finally show ?thesis .
  qed simp
qed

lemma up_stop:
  assumes "up_order n j k" "j = 0 \<or> k (par j) \<le> k j"
  shows "heap_order n k"
  using assms by (auto simp: heap_order_def up_order_def)

lemma up_swap:
  assumes "up_order n j k" "0 < j" "j < n" "k j < k (par j)"
  shows "up_order n (par j) (k(par j := k j, j := k (par j)))"
proof -
  define i where "i = par j"
  let ?k = "k(i := k j, j := k i)"
  have ij: "i < j" using assms(2) by (simp add: i_def)
  have ord: "k (par c) \<le> k c" if "c < n" "0 < c" "c \<noteq> j" for c using assms(1) that by (simp add: up_order_def)
  have child: "k i \<le> k c" if "c < n" "0 < c" "par c = j" for c
    using assms(1,2) that by (simp add: up_order_def moving_def i_def)
  have lt: "k j < k i" using assms(4) by (simp add: i_def)
  have "?k (par c) \<le> ?k c" if c: "c < n" "0 < c" "c \<noteq> i" for c
  proof (cases "c = j")
    case True
    with lt ij i_def show ?thesis by simp
  next
    case False
    then have "k (par c) \<le> k c" by (rule ord [OF c(1,2)])
    with False c child [OF c(1,2)] lt ij show ?thesis by (cases "par c = j"; cases "par c = i") auto
  qed
  moreover have "?k (par i) \<le> ?k c" if c: "c < n" "0 < c" "par c = i" "0 < i" for c
  proof -
    have pi: "par i < i" using c(4) by simp
    have "k (par i) \<le> k i" using ord [of i] ij assms(3) c(4) by simp
    moreover have "k i \<le> k c" if "c \<noteq> j" using ord [OF c(1,2) that] c(3) by simp
    ultimately show ?thesis using pi ij lt par_less [OF c(2)] c(3) by (cases "c = j") auto
  qed
  ultimately show ?thesis unfolding i_def [symmetric] by (auto simp: up_order_def moving_def)
qed

lemma down_stop:
  assumes "down_order n i k" "\<And>c. c < n \<Longrightarrow> 0 < c \<Longrightarrow> par c = i \<Longrightarrow> k i \<le> k c"
  shows "heap_order n k"
  using assms by (auto simp: heap_order_def down_order_def)

lemma down_swap:
  assumes "down_order n i k" "j < n" "0 < j" "par j = i" "k j < k i"
    and least: "\<And>c. c < n \<Longrightarrow> 0 < c \<Longrightarrow> par c = i \<Longrightarrow> k j \<le> k c"
  shows "down_order n j (k(i := k j, j := k i))"
proof -
  let ?k = "k(i := k j, j := k i)"
  have ij: "i < j" using par_less [OF assms(3)] assms(4) by simp
  have ord: "k (par c) \<le> k c" if "c < n" "0 < c" "par c \<noteq> i" for c using assms(1) that by (simp add: down_order_def)
  have top: "k (par i) \<le> k c" if "c < n" "0 < c" "par c = i" "0 < i" for c
    using assms(1) that by (simp add: down_order_def moving_def)
  have "?k (par c) \<le> ?k c" if c: "c < n" "0 < c" "par c \<noteq> j" for c
  proof (cases "par c = i")
    case True
    with least [OF c(1,2)] assms(5) ij par_less [OF c(2)] show ?thesis by (cases "c = j") auto
  next
    case False
    note o = ord [OF c(1,2) False]
    show ?thesis
    proof (cases "c = i")
      case True
      with c o ij top [OF assms(2,3,4)] par_less [OF c(2)] show ?thesis by auto
    next
      case ci: False
      have "c \<noteq> j" using False assms(4) by auto
      with ci False c(3) o show ?thesis by auto
    qed
  qed
  moreover have "?k (par j) \<le> ?k c" if c: "c < n" "0 < c" "par c = j" for c
  proof -
    have "c \<noteq> j" "c \<noteq> i" "par c \<noteq> i" using par_less [OF c(2)] c(3) ij by auto
    with ord [OF c(1,2)] c(3) assms(4) ij show ?thesis by auto
  qed
  ultimately show ?thesis by (auto simp: down_order_def moving_def)
qed

subsection \<open>Swapping, moving up and moving down\<close>

text \<open>Every pointer of the heap is there once, leads to an entry and is where the entry says.\<close>

definition ptrs_ok :: "'a pheap \<Rightarrow> bool" where
  "ptrs_ok h \<longleftrightarrow>
     distinct (ph_queue h) \<and> set (ph_queue h) \<subseteq> {..<length (ph_store h)} \<and>
     (\<forall>i<length (ph_queue h). wf_index (entry h i) = int i)"

definition key_at :: "'a pheap \<Rightarrow> nat \<Rightarrow> time" where
  "key_at h i = wf_readyAt (entry h i)"

text \<open>Nothing but indices and the order of the pointers changes.\<close>

definition rearranged :: "'a pheap \<Rightarrow> 'a pheap \<Rightarrow> bool" where
  "rearranged h h' \<longleftrightarrow>
     length (ph_store h') = length (ph_store h) \<and> length (ph_queue h') = length (ph_queue h) \<and>
     set (ph_queue h') = set (ph_queue h) \<and>
     map wf_data (ph_store h') = map wf_data (ph_store h) \<and> map wf_readyAt (ph_store h') = map wf_readyAt (ph_store h)"

lemma rearranged_refl [simp]: "rearranged h h"
  by (simp add: rearranged_def)

lemma rearranged_trans: "rearranged h h' \<Longrightarrow> rearranged h' h'' \<Longrightarrow> rearranged h h''"
  by (simp add: rearranged_def)

lemma set_index_sel [simp]:
  "ph_queue (set_index p i h) = ph_queue h" "length (ph_store (set_index p i h)) = length (ph_store h)"
  "map wf_data (ph_store (set_index p i h)) = map wf_data (ph_store h)"
  "map wf_readyAt (ph_store (set_index p i h)) = map wf_readyAt (ph_store h)"
proof -
  have "(map f xs)[p := f (xs ! p)] = map f xs" for f :: "'a waitFor \<Rightarrow> 'b" and xs
    by (metis length_map linorder_not_less list_update_beyond list_update_id nth_map)
  then show "ph_queue (set_index p i h) = ph_queue h" "length (ph_store (set_index p i h)) = length (ph_store h)"
    "map wf_data (ph_store (set_index p i h)) = map wf_data (ph_store h)"
    "map wf_readyAt (ph_store (set_index p i h)) = map wf_readyAt (ph_store h)"
    by (simp_all add: set_index_def map_update)
qed

lemma set_index_nth:
  "p < length (ph_store h) \<Longrightarrow> ph_store (set_index p i h) ! q = (if q = p then (ph_store h ! p)\<lparr>wf_index := i\<rparr> else ph_store h ! q)"
  by (simp add: set_index_def nth_list_update)

lemma Swap_queue: "ph_queue (pq_Swap i j h) = (ph_queue h)[i := ph_queue h ! j, j := ph_queue h ! i]"
  by (simp add: pq_Swap_def Let_def)

lemma Swap_rearranged:
  assumes "i < pq_Len h" "j < pq_Len h"
  shows "rearranged h (pq_Swap i j h)"
proof -
  have "set (ph_queue (pq_Swap i j h)) = set (ph_queue h)"
    using assms by (simp add: Swap_queue pq_Len_def)
  then show ?thesis by (simp add: rearranged_def pq_Swap_def Let_def)
qed

lemma Swap_entries:
  assumes "ptrs_ok h" "i < pq_Len h" "j < pq_Len h"
  shows "ptrs_ok (pq_Swap i j h)"
    and "c < pq_Len h \<Longrightarrow> key_at (pq_Swap i j h) c = ((key_at h)(i := key_at h j, j := key_at h i)) c"
proof -
  let ?q = "(ph_queue h)[i := ph_queue h ! j, j := ph_queue h ! i]"
  have len: "i < length (ph_queue h)" "j < length (ph_queue h)" using assms(2,3) by (simp_all add: pq_Len_def)
  have d: "distinct ?q" "set ?q = set (ph_queue h)" using assms(1) len by (simp_all add: ptrs_ok_def)
  have q: "?q ! c = ph_queue h ! (if c = i then j else if c = j then i else c)" if "c < length (ph_queue h)" for c
    using len that by (simp add: nth_list_update)
  have in_store: "?q ! c < length (ph_store h)" if "c < length (ph_queue h)" for c
    using assms(1) d(2) that nth_mem [of c ?q] by (auto simp: ptrs_ok_def)
  have store: "ph_store (pq_Swap i j h) ! (?q ! c) =
      (if c = j then (ph_store h ! (?q ! c))\<lparr>wf_index := int j\<rparr> else if c = i then (ph_store h ! (?q ! c))\<lparr>wf_index := int i\<rparr> else ph_store h ! (?q ! c))"
    if c: "c < length (ph_queue h)" for c
    using len c in_store nth_eq_iff_index_eq [OF d(1), of c i] nth_eq_iff_index_eq [OF d(1), of c j]
    by (auto simp: pq_Swap_def Let_def set_index_nth simp del: nth_list_update_eq nth_list_update_neq)
  have idx: "wf_index (entry h c) = int c" if "c < length (ph_queue h)" for c using assms(1) that by (simp add: ptrs_ok_def)
  have "wf_index (entry (pq_Swap i j h) c) = int c" if "c < length (ph_queue h)" for c
    using store [OF that] q [OF that] idx [OF that] by (simp add: entry_def Swap_queue split: if_splits)
  moreover have "length (ph_store (pq_Swap i j h)) = length (ph_store h)" by (simp add: pq_Swap_def Let_def)
  ultimately show "ptrs_ok (pq_Swap i j h)" using assms(1) d by (simp add: ptrs_ok_def Swap_queue)
  show "c < pq_Len h \<Longrightarrow> key_at (pq_Swap i j h) c = ((key_at h)(i := key_at h j, j := key_at h i)) c"
    using store [of c] q [of c] by (auto simp: key_at_def entry_def Swap_queue pq_Len_def)
qed

text \<open>The orders look at the positions below \<open>n\<close> only.\<close>

lemma order_cong:
  assumes "\<And>c. c < n \<Longrightarrow> k c = k' c" "j < n"
  shows "up_order n j k = up_order n j k'" "down_order n j k = down_order n j k'"
proof -
  have p: "k (par c) = k' (par c)" if "c < n" for c using assms(1) [of "par c"] that by simp
  then have m: "moving n j k = moving n j k'" using assms by (auto simp: moving_def)
  then show "up_order n j k = up_order n j k'" "down_order n j k = down_order n j k'"
    unfolding up_order_def down_order_def m using assms(1) p by auto
qed

lemma heap_order_cong: "(\<And>c. c < n \<Longrightarrow> k c = k' c) \<Longrightarrow> heap_order n k = heap_order n k'"
proof -
  assume k: "\<And>c. c < n \<Longrightarrow> k c = k' c"
  have "k (par c) = k' (par c)" if "c < n" for c using k [of "par c"] that by simp
  with k show ?thesis by (auto simp: heap_order_def)
qed

lemma heap_up_ok:
  "ptrs_ok h \<Longrightarrow> j < pq_Len h \<Longrightarrow> up_order (pq_Len h) j (key_at h) \<Longrightarrow>
     ptrs_ok (heap_up j h) \<and> rearranged h (heap_up j h) \<and> heap_order (pq_Len h) (key_at (heap_up j h))"
proof (induction j h rule: heap_up.induct)
  case (1 j h)
  let ?i = "par j" and ?h' = "pq_Swap (par j) j h"
  show ?case
  proof (cases "?i = j \<or> \<not> pq_Less j ?i h")
    case True
    then have "j = 0 \<or> key_at h ?i \<le> key_at h j" by (auto simp: pq_Less_def key_at_def)
    with up_stop [OF 1(4)] True 1(2) show ?thesis by (simp add: heap_up.simps [of j h] Let_def)
  next
    case False
    then have j: "0 < j" "key_at h j < key_at h ?i" by (auto simp: pq_Less_def key_at_def)
    have i: "?i < pq_Len h" using 1(3) by simp
    have r: "rearranged h ?h'" by (rule Swap_rearranged [OF i 1(3)])
    then have len: "pq_Len ?h' = pq_Len h" by (simp add: rearranged_def pq_Len_def)
    have "up_order (pq_Len h) ?i (key_at ?h')"
      by (rule order_cong(1) [THEN iffD2, OF _ i up_swap [OF 1(4) j(1) 1(3) j(2)]]) (rule Swap_entries(2) [OF 1(2) i 1(3)])
    with 1(1) [OF refl False Swap_entries(1) [OF 1(2) i 1(3)]] i len r False show ?thesis
      by (auto simp: heap_up.simps [of j h] Let_def intro: rearranged_trans)
  qed
qed

lemma heap_down_ok:
  "ptrs_ok h \<Longrightarrow> n \<le> pq_Len h \<Longrightarrow> i < n \<Longrightarrow> down_order n i (key_at h) \<Longrightarrow> heap_down i n h = (h', k) \<Longrightarrow>
     ptrs_ok h' \<and> rearranged h h' \<and> heap_order n (key_at h') \<and> drop n (ph_queue h') = drop n (ph_queue h) \<and> i \<le> k"
proof (induction i n h rule: heap_down.induct)
  case (1 i n h)
  let ?j1 = "2 * i + 1"
  define j where "j = (if ?j1 + 1 < n \<and> pq_Less (?j1 + 1) ?j1 h then ?j1 + 1 else ?j1)"
  show ?case
  proof (cases "n \<le> ?j1")
    case True
    have "\<not> (c < n \<and> 0 < c \<and> par c = i)" for c using True child_iff [of c i] by auto
    with down_stop [OF 1(5)] True 1(2,6) show ?thesis by (auto simp: heap_down.simps [of i n h] Let_def)
  next
    case False
    have unfold: "heap_down i n h = (if \<not> pq_Less j i h then (h, i) else heap_down j n (pq_Swap i j h))"
      using False unfolding j_def by (subst heap_down.simps) (simp only: Let_def if_False)
    have j: "0 < j" "par j = i" "j < n" using False by (auto simp: j_def)
    have least: "key_at h j \<le> key_at h c" if "c < n" "0 < c" "par c = i" for c
      using that child_iff [of c i] by (auto simp: pq_Less_def key_at_def j_def)
    show ?thesis
    proof (cases "pq_Less j i h")
      case False
      then have "key_at h i \<le> key_at h j" by (simp add: pq_Less_def key_at_def)
      then have "key_at h i \<le> key_at h c" if "c < n" "0 < c" "par c = i" for c
        using least [OF that] by (rule order_trans)
      with down_stop [OF 1(5)] False \<open>\<not> n \<le> ?j1\<close> 1(2,6) show ?thesis by (auto simp: unfold)
    next
      case less: True
      let ?h' = "pq_Swap i j h"
      have lt: "key_at h j < key_at h i" using less by (simp add: pq_Less_def key_at_def)
      have in_h: "i < pq_Len h" "j < pq_Len h" using 1(3,4) j(3) by auto
      have r: "rearranged h ?h'" by (rule Swap_rearranged [OF in_h])
      then have len: "pq_Len ?h' = pq_Len h" by (simp add: rearranged_def pq_Len_def)
      have "key_at ?h' c = ((key_at h)(i := key_at h j, j := key_at h i)) c" if "c < n" for c
        using Swap_entries(2) [OF 1(2) in_h] that 1(3) by simp
      then have "down_order n j (key_at ?h')"
        by (rule order_cong(2) [THEN iffD2, OF _ j(3) down_swap [OF 1(5) j(3,1,2) lt least]])
      moreover have "heap_down j n ?h' = (h', k)"
        using 1(6) less by (simp add: unfold)
      moreover have "drop n (ph_queue ?h') = drop n (ph_queue h)" using 1(4) j(3) by (simp add: Swap_queue drop_update_cancel)
      ultimately show ?thesis
        using 1(1) [OF refl False j_def _ Swap_entries(1) [OF 1(2) in_h]] less len 1(3) j(2,3) r by (auto intro: rearranged_trans)
    qed
  qed
qed

subsection \<open>Push, Pop and Fix\<close>

definition heap_inv :: "'a pheap \<Rightarrow> bool" where
  "heap_inv h \<longleftrightarrow> ptrs_ok h \<and> heap_order (pq_Len h) (key_at h)"

definition ph_data :: "'a pheap \<Rightarrow> 'a list" where
  "ph_data h = map wf_data (ph_store h)"

definition ph_times :: "'a pheap \<Rightarrow> time list" where
  "ph_times h = map wf_readyAt (ph_store h)"

definition ph_members :: "'a pheap \<Rightarrow> nat set" where
  "ph_members h = set (ph_queue h)"

text \<open>A new time for an entry, and the repair of the heap at the entry's index.\<close>

definition set_readyAt :: "nat \<Rightarrow> time \<Rightarrow> 'a pheap \<Rightarrow> 'a pheap" where
  "set_readyAt p t h = h\<lparr>ph_store := (ph_store h)[p := (ph_store h ! p)\<lparr>wf_readyAt := t\<rparr>]\<rparr>"

definition hasten :: "nat \<Rightarrow> time \<Rightarrow> 'a pheap \<Rightarrow> 'a pheap" where
  "hasten p t h = (let h1 = set_readyAt p t h in heap_Fix (nat (wf_index (ph_store h1 ! p))) h1)"

lemma member_at: "ptrs_ok h \<Longrightarrow> p \<in> ph_members h \<Longrightarrow> \<exists>i<pq_Len h. ph_queue h ! i = p \<and> wf_index (ph_store h ! p) = int i"
  by (auto simp: ph_members_def in_set_conv_nth ptrs_ok_def pq_Len_def entry_def)

lemma ptr_in_store: "ptrs_ok h \<Longrightarrow> i < pq_Len h \<Longrightarrow> ph_queue h ! i < length (ph_store h)"
  using nth_mem [of i "ph_queue h"] by (auto simp: ptrs_ok_def pq_Len_def simp del: nth_mem)

lemma key_member: "ptrs_ok h \<Longrightarrow> i < pq_Len h \<Longrightarrow> key_at h i = ph_times h ! (ph_queue h ! i)"
  using ptr_in_store [of h i] by (simp add: key_at_def entry_def ph_times_def)

lemma peek_member:
  assumes "heap_inv h" "ph_members h \<noteq> {}"
  shows "pq_Peek h \<in> ph_members h" "q \<in> ph_members h \<Longrightarrow> ph_times h ! pq_Peek h \<le> ph_times h ! q"
proof -
  have n: "0 < pq_Len h" using assms(2) by (auto simp: ph_members_def pq_Len_def)
  then show "pq_Peek h \<in> ph_members h" by (simp add: pq_Peek_def ph_members_def pq_Len_def)
  have ok: "ptrs_ok h" using assms(1) by (simp add: heap_inv_def)
  assume "q \<in> ph_members h"
  then obtain i where "i < pq_Len h" "ph_queue h ! i = q" using member_at [OF ok] by blast
  with heap_order_root [of "pq_Len h" "key_at h" i] assms(1) n key_member [OF ok] show "ph_times h ! pq_Peek h \<le> ph_times h ! q"
    by (simp add: heap_inv_def pq_Peek_def)
qed

lemma rearranged_sel:
  "rearranged h h' \<Longrightarrow> ph_members h' = ph_members h \<and> ph_data h' = ph_data h \<and> ph_times h' = ph_times h \<and> pq_Len h' = pq_Len h"
  by (simp add: rearranged_def ph_members_def ph_data_def ph_times_def pq_Len_def)

lemma heap_Push_ok:
  assumes "heap_inv h" "p < length (ph_store h)" "p \<notin> ph_members h"
  shows "heap_inv (heap_Push p h) \<and> ph_members (heap_Push p h) = insert p (ph_members h) \<and>
    ph_data (heap_Push p h) = ph_data h \<and> ph_times (heap_Push p h) = ph_times h"
proof -
  let ?h = "pq_Push p h" and ?n = "pq_Len h"
  have ok: "ptrs_ok h" and ord: "heap_order ?n (key_at h)" using assms(1) by (simp_all add: heap_inv_def)
  have len: "pq_Len ?h = Suc ?n" by (simp add: pq_Push_def pq_Len_def)
  have old: "entry ?h i = entry h i" if "i < ?n" for i
  proof -
    have "ph_queue h ! i \<noteq> p" using assms(3) that by (auto simp: ph_members_def pq_Len_def)
    with that assms(2) show ?thesis by (simp add: entry_def pq_Push_def set_index_def nth_append pq_Len_def)
  qed
  have new: "entry ?h ?n = (ph_store h ! p)\<lparr>wf_index := int ?n\<rparr>"
    using assms(2) by (simp add: entry_def pq_Push_def set_index_def pq_Len_def)
  have "wf_index (entry ?h i) = int i" if "i < Suc ?n" for i
    using that old [of i] new ok by (cases "i = ?n") (simp_all add: ptrs_ok_def pq_Len_def)
  then have ok': "ptrs_ok ?h" using ok assms(2,3) len
    by (auto simp: ptrs_ok_def pq_Push_def pq_Len_def ph_members_def set_index_def)
  have "up_order (Suc ?n) ?n (key_at ?h)"
  proof -
    have "key_at ?h (par c) \<le> key_at ?h c" if "c < Suc ?n" "0 < c" "c \<noteq> ?n" for c
      using ord that old [of c] old [of "par c"] by (simp add: heap_order_def key_at_def)
    moreover have "\<not> (c < Suc ?n \<and> 0 < c \<and> par c = ?n)" for c by auto
    ultimately show ?thesis by (auto simp: up_order_def moving_def)
  qed
  with heap_up_ok [OF ok', of ?n] len have up: "ptrs_ok (heap_up ?n ?h)" "rearranged ?h (heap_up ?n ?h)" "heap_order (Suc ?n) (key_at (heap_up ?n ?h))"
    by auto
  have h: "heap_Push p h = heap_up ?n ?h" by (simp add: heap_Push_def Let_def len)
  have "ph_members ?h = insert p (ph_members h)" "ph_data ?h = ph_data h" "ph_times ?h = ph_times h"
    by (simp_all add: ph_members_def ph_data_def ph_times_def pq_Push_def)
  with up rearranged_sel [OF up(2)] len show ?thesis by (simp add: h heap_inv_def)
qed

lemma heap_Pop_ok:
  assumes "heap_inv h" "ph_members h \<noteq> {}"
  shows "fst (heap_Pop h) = pq_Peek h \<and> heap_inv (snd (heap_Pop h)) \<and> ph_members (snd (heap_Pop h)) = ph_members h - {pq_Peek h} \<and>
    ph_data (snd (heap_Pop h)) = ph_data h \<and> ph_times (snd (heap_Pop h)) = ph_times h"
proof -
  define n where "n = pq_Len h - 1"
  have len: "pq_Len h = Suc n" using assms(2) by (auto simp: n_def ph_members_def pq_Len_def)
  have ok: "ptrs_ok h" and ord: "heap_order (Suc n) (key_at h)" using assms(1) len by (simp_all add: heap_inv_def)
  let ?h1 = "pq_Swap 0 n h"
  have in_h: "0 < pq_Len h" "n < pq_Len h" by (simp_all add: len)
  have ok1: "ptrs_ok ?h1" and r1: "rearranged h ?h1" using Swap_entries(1) [OF ok in_h] Swap_rearranged [OF in_h] by simp_all
  have last1: "ph_queue ?h1 ! n = pq_Peek h" using in_h by (simp add: Swap_queue pq_Peek_def pq_Len_def nth_list_update)
  obtain h2 k where h2: "heap_down 0 n ?h1 = (h2, k)" by fastforce
  have dn: "ptrs_ok h2 \<and> rearranged ?h1 h2 \<and> heap_order n (key_at h2) \<and> drop n (ph_queue h2) = drop n (ph_queue ?h1)"
  proof (cases "n = 0")
    case True
    with h2 ok1 show ?thesis by (auto simp: heap_down.simps heap_order_def)
  next
    case False
    have k1: "key_at ?h1 c = key_at h c" if "0 < c" "c < n" for c using Swap_entries(2) [OF ok in_h, of c] that len by simp
    have "down_order n 0 (key_at ?h1)"
      unfolding down_order_def moving_def
    proof (intro conjI allI impI)
      fix c assume c: "c < n" "0 < c \<and> par c \<noteq> 0"
      then have "par c < n" "0 < par c" by auto
      with c k1 [of c] k1 [of "par c"] ord show "key_at ?h1 (par c) \<le> key_at ?h1 c" by (simp add: heap_order_def)
    qed simp
    with heap_down_ok [OF ok1 _ _ _ h2] False rearranged_sel [OF r1] len show ?thesis by auto
  qed
  note r2 = rearranged_trans [OF r1 conjunct1 [OF conjunct2 [OF dn]]]
  have len2: "length (ph_queue h2) = Suc n" using rearranged_sel [OF r2] len by (simp add: pq_Len_def)
  have last2: "ph_queue h2 ! n = pq_Peek h"
    using dn last1 len2 in_h r1 by (metis Cons_nth_drop_Suc lessI len list.inject pq_Len_def rearranged_def)
  let ?p = "pq_Peek h" and ?h3 = "(set_index (pq_Peek h) (-1) h2)\<lparr>ph_queue := take n (ph_queue h2)\<rparr>"
  have "heap_Pop h = pq_Pop h2" using len h2 by (simp add: heap_Pop_def Let_def)
  then have pop: "heap_Pop h = (?p, ?h3)" using last2 len2 by (simp add: pq_Pop_def pq_Len_def Let_def)
  have d2: "distinct (ph_queue h2)" using dn by (simp add: ptrs_ok_def)
  have take: "set (take n (ph_queue h2)) = ph_members h2 - {?p}"
  proof -
    have "ph_queue h2 = take n (ph_queue h2) @ [?p]" using len2 last2 take_Suc_conv_app_nth [of n "ph_queue h2"] by simp
    then have "distinct (take n (ph_queue h2) @ [?p])" "set (ph_queue h2) = set (take n (ph_queue h2) @ [?p])" using d2 by simp_all
    then show ?thesis by (auto simp: ph_members_def)
  qed
  have p_store: "?p < length (ph_store h2)" using dn last2 len2 ptr_in_store [of h2 n] by (simp add: pq_Len_def)
  have e3: "entry ?h3 i = entry h2 i" if "i < n" for i
    using that last2 len2 d2 p_store nth_eq_iff_index_eq [OF d2, of i n] by (simp add: entry_def set_index_def)
  have ok3: "ptrs_ok ?h3" unfolding ptrs_ok_def
    using dn e3 len2 d2 set_take_subset [of n "ph_queue h2"] by (auto simp: ptrs_ok_def set_index_def)
  have "heap_order n (key_at ?h3)"
    using dn heap_order_cong [of n "key_at ?h3" "key_at h2"] e3 by (simp add: key_at_def)
  then have "heap_inv ?h3" using ok3 len2 by (simp add: heap_inv_def pq_Len_def)
  moreover have "ph_members ?h3 = ph_members h - {?p}" using take rearranged_sel [OF r2] by (simp add: ph_members_def)
  moreover have "ph_data ?h3 = ph_data h" "ph_times ?h3 = ph_times h"
    using rearranged_sel [OF r2] by (simp_all add: ph_data_def ph_times_def)
  ultimately show ?thesis by (simp add: pop)
qed

lemma hasten_ok:
  assumes "heap_inv h" "p \<in> ph_members h" "t \<le> ph_times h ! p"
  shows "heap_inv (hasten p t h) \<and> ph_members (hasten p t h) = ph_members h \<and>
    ph_data (hasten p t h) = ph_data h \<and> ph_times (hasten p t h) = (ph_times h)[p := t]"
proof -
  let ?h = "set_readyAt p t h" and ?n = "pq_Len h"
  have ok: "ptrs_ok h" and ord: "heap_order ?n (key_at h)" using assms(1) by (simp_all add: heap_inv_def)
  obtain i where i: "i < ?n" "ph_queue h ! i = p" "wf_index (ph_store h ! p) = int i" using member_at [OF ok assms(2)] by blast
  have p: "p < length (ph_store h)" using ok assms(2) by (auto simp: ptrs_ok_def ph_members_def)
  have q: "ph_queue ?h = ph_queue h" "pq_Len ?h = ?n" by (simp_all add: set_readyAt_def pq_Len_def)
  have d: "distinct (ph_queue h)" using ok by (simp add: ptrs_ok_def)
  have e: "entry ?h c = (if c = i then (entry h c)\<lparr>wf_readyAt := t\<rparr> else entry h c)" if "c < ?n" for c
    using that i p nth_eq_iff_index_eq [OF d, of c i] by (auto simp: entry_def set_readyAt_def pq_Len_def nth_list_update)
  have ok': "ptrs_ok ?h" using ok e by (simp add: ptrs_ok_def q pq_Len_def) (simp add: set_readyAt_def)
  have k: "key_at ?h c = (if c = i then t else key_at h c)" if "c < ?n" for c using e [OF that] by (simp add: key_at_def)
  have ki: "t \<le> key_at h i" using assms(3) i key_member [OF ok i(1)] by simp
  have o: "key_at h (par c) \<le> key_at h c" if "c < ?n" "0 < c" for c using ord that by (simp add: heap_order_def)
  have below: "key_at h i \<le> key_at h c" if "c < ?n" "0 < c" "par c = i" for c using o [of c] that by simp
  have above: "0 < i \<Longrightarrow> key_at h (par i) \<le> key_at h i" using o i(1) by simp
  have up: "up_order ?n i (key_at ?h)"
    unfolding up_order_def moving_def
  proof (intro conjI allI impI)
    fix c assume c: "c < ?n" "0 < c \<and> c \<noteq> i"
    with o [of c] k [of c] k [of "par c"] ki show "key_at ?h (par c) \<le> key_at ?h c" by (auto split: if_splits)
  next
    fix c assume c: "c < ?n" "0 < c \<and> par c = i \<and> 0 < i"
    have "par i \<noteq> i" "c \<noteq> i" using c by auto
    with below [of c] above k [of c] k [of "par i"] c i(1) show "key_at ?h (par i) \<le> key_at ?h c" by simp
  qed
  have "\<not> pq_Less j i ?h" if "j < ?n" "0 < j" "par j = i" for j
    using below [OF that] ki k [OF that(1)] k [OF i(1)] that by (auto simp: pq_Less_def key_at_def)
  then have "heap_down i ?n ?h = (?h, i)" by (subst heap_down.simps) (auto simp: Let_def)
  moreover have "wf_index (ph_store ?h ! p) = int i" using i p by (simp add: set_readyAt_def)
  ultimately have fx: "hasten p t h = heap_up i ?h" by (simp add: hasten_def heap_Fix_def Let_def q)
  have "ptrs_ok (heap_up i ?h) \<and> rearranged ?h (heap_up i ?h) \<and> heap_order ?n (key_at (heap_up i ?h))"
    using heap_up_ok [OF ok', of i] i(1) up q by simp
  moreover have "ph_members ?h = ph_members h" "ph_data ?h = ph_data h" "ph_times ?h = (ph_times h)[p := t]"
    using p by (simp_all add: ph_members_def ph_data_def ph_times_def set_readyAt_def map_update)
      (metis list_update_id map_update nth_map)
  ultimately show ?thesis using rearranged_sel [of ?h "heap_up i ?h"] by (simp add: fx heap_inv_def q)
qed

subsection \<open>What the waiting loop relies on\<close>

text \<open>A queue of entries by their times, with the data and the times of all entries. The map \<open>known\<close> of the
  loop holds the entry of each item that waits; the deadline of an item is the time of its entry.\<close>

definition consistent :: "nat set \<Rightarrow> 'a list \<Rightarrow> ('a \<Rightarrow> nat option) \<Rightarrow> bool" where
  "consistent M ds known \<longleftrightarrow> (\<forall>x p. known x = Some p \<longleftrightarrow> p \<in> M \<and> ds ! p = x)"

definition deadline :: "('a \<Rightarrow> nat option) \<Rightarrow> time list \<Rightarrow> 'a \<Rightarrow> time option" where
  "deadline known ts x = map_option (\<lambda>p. ts ! p) (known x)"

lemma consistent_iff: "consistent M ds known \<Longrightarrow> known x = Some p \<longleftrightarrow> p \<in> M \<and> ds ! p = x"
  by (simp add: consistent_def)

lemma consistent_insert:
  assumes "consistent M ds known" "known (ds ! p) = None"
  shows "consistent (insert p M) ds (known(ds ! p \<mapsto> p))"
  unfolding consistent_def
proof (intro allI)
  fix x q
  show "(known(ds ! p \<mapsto> p)) x = Some q \<longleftrightarrow> q \<in> insert p M \<and> ds ! q = x"
    using consistent_iff [OF assms(1), of x q] assms(2) by (cases "x = ds ! p") auto
qed

lemma consistent_delete:
  assumes "consistent M ds known" "p \<in> M"
  shows "consistent (M - {p}) ds (known(ds ! p := None))"
  unfolding consistent_def
proof (intro allI)
  fix x q
  have "known (ds ! p) = Some p" using assms by (simp add: consistent_iff)
  then show "(known(ds ! p := None)) x = Some q \<longleftrightarrow> q \<in> M - {p} \<and> ds ! q = x"
    using consistent_iff [OF assms(1), of x q] by (cases "x = ds ! p") auto
qed

locale deadline_queue =
  fixes inv :: "'h \<Rightarrow> bool"
    and members :: "'h \<Rightarrow> nat set"
    and datas :: "'h \<Rightarrow> 'a list"
    and times :: "'h \<Rightarrow> time list"
    and peek :: "'h \<Rightarrow> nat"
    and push :: "nat \<Rightarrow> 'h \<Rightarrow> 'h"
    and pop :: "'h \<Rightarrow> nat \<times> 'h"
    and earlier :: "nat \<Rightarrow> time \<Rightarrow> 'h \<Rightarrow> 'h"
  assumes member_entry: "inv h \<Longrightarrow> p \<in> members h \<Longrightarrow> p < length (times h)"
    and peek_in: "inv h \<Longrightarrow> members h \<noteq> {} \<Longrightarrow> peek h \<in> members h"
    and peek_least: "inv h \<Longrightarrow> q \<in> members h \<Longrightarrow> times h ! peek h \<le> times h ! q"
    and push_ok: "inv h \<Longrightarrow> p < length (times h) \<Longrightarrow> p \<notin> members h \<Longrightarrow>
      inv (push p h) \<and> members (push p h) = insert p (members h) \<and> datas (push p h) = datas h \<and> times (push p h) = times h"
    and pop_ok: "inv h \<Longrightarrow> members h \<noteq> {} \<Longrightarrow>
      fst (pop h) = peek h \<and> inv (snd (pop h)) \<and> members (snd (pop h)) = members h - {peek h} \<and>
      datas (snd (pop h)) = datas h \<and> times (snd (pop h)) = times h"
    and earlier_ok: "inv h \<Longrightarrow> p \<in> members h \<Longrightarrow> t \<le> times h ! p \<Longrightarrow>
      inv (earlier p t h) \<and> members (earlier p t h) = members h \<and> datas (earlier p t h) = datas h \<and> times (earlier p t h) = (times h)[p := t]"
begin

lemma deadline_push:
  assumes "inv h" "consistent (members h) (datas h) known" "p < length (times h)" "p \<notin> members h" "known (datas h ! p) = None"
  shows "inv (push p h) \<and> consistent (members (push p h)) (datas (push p h)) (known(datas h ! p \<mapsto> p)) \<and>
    deadline (known(datas h ! p \<mapsto> p)) (times (push p h)) = (deadline known (times h))(datas h ! p \<mapsto> times h ! p)"
  using push_ok [OF assms(1,3,4)] consistent_insert [OF assms(2,5)] by (simp add: deadline_def fun_eq_iff)

lemma deadline_earlier:
  assumes "inv h" "consistent (members h) (datas h) known" "known x = Some p" "t \<le> times h ! p"
  shows "inv (earlier p t h) \<and> consistent (members (earlier p t h)) (datas (earlier p t h)) known \<and>
    deadline known (times (earlier p t h)) = (deadline known (times h))(x \<mapsto> t)"
proof -
  have p: "p \<in> members h" "datas h ! p = x" using assms(2,3) by (auto simp: consistent_def)
  have other: "q \<noteq> p" if "known y = Some q" "y \<noteq> x" for y q using that assms(2) p by (auto simp: consistent_def)
  note e = earlier_ok [OF assms(1) p(1) assms(4)]
  have "deadline known ((times h)[p := t]) y = ((deadline known (times h))(x \<mapsto> t)) y" for y
    using other [of y] assms(3) member_entry [OF assms(1) p(1)] by (cases "known y") (auto simp: deadline_def nth_list_update)
  with e assms(2) show ?thesis by (simp add: fun_eq_iff)
qed

lemma deadline_pop:
  assumes "inv h" "consistent (members h) (datas h) known" "members h \<noteq> {}"
  defines "x \<equiv> datas h ! peek h"
  shows "inv (snd (pop h)) \<and> consistent (members (snd (pop h))) (datas (snd (pop h))) (known(x := None)) \<and>
    deadline (known(x := None)) (times (snd (pop h))) = (deadline known (times h))(x := None) \<and>
    deadline known (times h) x = Some (times h ! peek h)"
proof -
  have m: "peek h \<in> members h" by (rule peek_in [OF assms(1,3)])
  have k: "known x = Some (peek h)" using m by (simp add: consistent_iff [OF assms(2)] x_def)
  show ?thesis using pop_ok [OF assms(1,3)] consistent_delete [OF assms(2) m] k by (simp add: deadline_def fun_eq_iff x_def)
qed

lemma none_ready:
  assumes "inv h" "consistent (members h) (datas h) known" "members h \<noteq> {} \<Longrightarrow> now < times h ! peek h" "deadline known (times h) x = Some t"
  shows "now < t"
proof -
  obtain p where p: "p \<in> members h" "t = times h ! p" using assms(2,4) by (auto simp: deadline_def consistent_def)
  then show ?thesis using assms(3) peek_least [OF assms(1) p(1)] by fastforce
qed

end

interpretation entry_heap: deadline_queue heap_inv ph_members ph_data ph_times pq_Peek heap_Push heap_Pop hasten
proof
  fix h :: "'a pheap" and p q :: nat and t :: time
  assume h: "heap_inv h"
  show "p \<in> ph_members h \<Longrightarrow> p < length (ph_times h)" using h by (auto simp: heap_inv_def ptrs_ok_def ph_members_def ph_times_def)
  show "ph_members h \<noteq> {} \<Longrightarrow> pq_Peek h \<in> ph_members h" by (rule peek_member(1) [OF h])
  show "q \<in> ph_members h \<Longrightarrow> ph_times h ! pq_Peek h \<le> ph_times h ! q" by (rule peek_member(2) [OF h]) auto
  show "p < length (ph_times h) \<Longrightarrow> p \<notin> ph_members h \<Longrightarrow>
      heap_inv (heap_Push p h) \<and> ph_members (heap_Push p h) = insert p (ph_members h) \<and>
      ph_data (heap_Push p h) = ph_data h \<and> ph_times (heap_Push p h) = ph_times h"
    by (rule heap_Push_ok [OF h]) (simp_all add: ph_times_def)
qed (simp_all add: heap_Pop_ok hasten_ok)

end
