(* ===== verification/Delaying_Queue.thy ===== *)
theory Delaying_Queue
  imports Wait_Heap
begin

section \<open>Delayed additions\<close>

text \<open>
  The delaying queue of client-go (\<^verbatim>\<open>delaying_queue.go\<close>), which holds back the keys that a controller enqueues
  with a delay: callers of \<^verbatim>\<open>AddAfter\<close> that wait to send, the channel they send to, and the goroutine of
  \<^verbatim>\<open>waitingLoop\<close> with its heap, its map of waiting entries and its timer. The step relation interleaves
  them with the users of the queue underneath and with the clock; its labels say when a delayed
  addition is requested and when it is made.
\<close>

subsection \<open>State\<close>

text \<open>The loop is at its top, adds entries that were ready at a time, waits in its select (with the time of
  the check before and the time its timer fires), empties the channel, or has returned.\<close>

datatype loop = Top | Adding time | Waiting time "time option" | Draining | Returned

record 'a delaying =
  dq_Interface :: "'a work_queue"
  dq_stopped :: bool
  dq_waitingForQueue :: "'a pheap"
  dq_waitingEntryByData :: "'a \<Rightarrow> nat option"
  dq_senders :: "nat list"
  dq_waitingForAddCh :: "nat list"
  dq_loop :: loop
  dq_clock :: time

definition newDelayingQueue :: "time \<Rightarrow> 'a delaying" where
  "newDelayingQueue now =
     \<lparr> dq_Interface = newQueue, dq_stopped = False, dq_waitingForQueue = heap_Init \<lparr> ph_store = [], ph_queue = [] \<rparr>,
       dq_waitingEntryByData = (\<lambda>_. None), dq_senders = [], dq_waitingForAddCh = [], dq_loop = Top, dq_clock = now \<rparr>"

definition wait_entry :: "nat \<Rightarrow> 'a delaying \<Rightarrow> 'a waitFor" where
  "wait_entry p s = ph_store (dq_waitingForQueue s) ! p"

subsection \<open>Operations\<close>

definition dq_Add :: "'a \<Rightarrow> 'a delaying \<Rightarrow> 'a delaying" where
  "dq_Add item s = s\<lparr>dq_Interface := wq_Add item (dq_Interface s)\<rparr>"

definition dq_ShutDown :: "'a delaying \<Rightarrow> 'a delaying" where
  "dq_ShutDown s = (if dq_stopped s then s else s\<lparr>dq_Interface := wq_ShutDown (dq_Interface s), dq_stopped := True\<rparr>)"

text \<open>A delayed addition becomes a sender to the channel with a new entry.\<close>

definition dq_AddAfter :: "'a \<Rightarrow> duration \<Rightarrow> 'a delaying \<Rightarrow> 'a delaying" where
  "dq_AddAfter item d s =
     (if wq_shuttingDown (dq_Interface s) then s
      else if d \<le> 0 then dq_Add item s
      else
        (let h = dq_waitingForQueue s;
             e = \<lparr> wf_data = item, wf_readyAt = dq_clock s + d, wf_index = 0 \<rparr> in
         s\<lparr>dq_waitingForQueue := h\<lparr>ph_store := ph_store h @ [e]\<rparr>, dq_senders := dq_senders s @ [length (ph_store h)]\<rparr>))"

definition dq_insert :: "nat \<Rightarrow> 'a delaying \<Rightarrow> 'a delaying" where
  "dq_insert p s =
     (let h = dq_waitingForQueue s; e = wait_entry p s in
      case dq_waitingEntryByData s (wf_data e) of
        Some existing \<Rightarrow>
          if wf_readyAt (wait_entry existing s) > wf_readyAt e
          then s\<lparr>dq_waitingForQueue := hasten existing (wf_readyAt e) h\<rparr> else s
      | None \<Rightarrow>
          s\<lparr>dq_waitingForQueue := heap_Push p h, dq_waitingEntryByData := (dq_waitingEntryByData s)(wf_data e \<mapsto> p)\<rparr>)"

definition dq_receive :: "nat \<Rightarrow> 'a delaying \<Rightarrow> 'a delaying" where
  "dq_receive p s =
     (let waitEntry = wait_entry p s in
      if wf_readyAt waitEntry > dq_clock s then dq_insert p s else dq_Add (wf_data waitEntry) s)"

text \<open>Whether the first entry is ready, and its addition.\<close>

definition first_ready :: "time \<Rightarrow> 'a delaying \<Rightarrow> bool" where
  "first_ready now s \<longleftrightarrow>
     0 < pq_Len (dq_waitingForQueue s) \<and> \<not> wf_readyAt (wait_entry (pq_Peek (dq_waitingForQueue s)) s) > now"

definition add_first :: "'a delaying \<Rightarrow> 'a delaying" where
  "add_first s =
     (case heap_Pop (dq_waitingForQueue s) of
        (p, h) \<Rightarrow>
          let data = wf_data (wait_entry p s); s1 = dq_Add data (s\<lparr>dq_waitingForQueue := h\<rparr>) in
          s1\<lparr>dq_waitingEntryByData := (dq_waitingEntryByData s1)(data := None)\<rparr>)"

definition next_timer :: "time \<Rightarrow> 'a delaying \<Rightarrow> time option" where
  "next_timer now s =
     (if 0 < pq_Len (dq_waitingForQueue s)
      then Some (dq_clock s + time_sub (wf_readyAt (wait_entry (pq_Peek (dq_waitingForQueue s)) s)) now)
      else None)"

subsection \<open>Steps\<close>

datatype 'a delay_event = Requested 'a time | Delivered 'a time | Internal

definition request_event :: "'a \<Rightarrow> duration \<Rightarrow> 'a delaying \<Rightarrow> 'a delay_event" where
  "request_event item d s =
     (if wq_shuttingDown (dq_Interface s) \<or> d \<le> 0 then Internal else Requested item (dq_clock s + d))"

definition receive_event :: "nat \<Rightarrow> 'a delaying \<Rightarrow> 'a delay_event" where
  "receive_event p s =
     (if wf_readyAt (wait_entry p s) > dq_clock s then Internal else Delivered (wf_data (wait_entry p s)) (dq_clock s))"

text \<open>The steps of the delaying queue itself: the clock, the callers of \<^verbatim>\<open>AddAfter\<close> and the loop.\<close>

inductive dq_own :: "'a delaying \<Rightarrow> 'a delay_event \<Rightarrow> 'a delaying \<Rightarrow> bool" where
  tick: "dq_clock s \<le> t \<Longrightarrow> dq_own s Internal (s\<lparr>dq_clock := t\<rparr>)"
| after: "dq_own s (request_event x d s) (dq_AddAfter x d s)"
| send: "dq_senders s = pre @ p # post \<Longrightarrow> length (dq_waitingForAddCh s) < 1000 \<Longrightarrow>
     dq_own s Internal (s\<lparr>dq_senders := pre @ post, dq_waitingForAddCh := dq_waitingForAddCh s @ [p]\<rparr>)"
| give_up: "dq_stopped s \<Longrightarrow> dq_senders s = pre @ p # post \<Longrightarrow> dq_own s Internal (s\<lparr>dq_senders := pre @ post\<rparr>)"
| top: "dq_loop s = Top \<Longrightarrow>
     dq_own s Internal (s\<lparr>dq_loop := if wq_shuttingDown (dq_Interface s) then Returned else Adding (dq_clock s)\<rparr>)"
| add_ready: "dq_loop s = Adding now \<Longrightarrow> first_ready now s \<Longrightarrow>
     dq_own s (Delivered (wf_data (wait_entry (pq_Peek (dq_waitingForQueue s)) s)) (dq_clock s)) (add_first s)"
| set_timer: "dq_loop s = Adding now \<Longrightarrow> \<not> first_ready now s \<Longrightarrow>
     dq_own s Internal (s\<lparr>dq_loop := Waiting now (next_timer now s)\<rparr>)"
| stop: "dq_loop s = Waiting now tm \<Longrightarrow> dq_stopped s \<Longrightarrow> dq_own s Internal (s\<lparr>dq_loop := Returned\<rparr>)"
| heartbeat: "dq_loop s = Waiting now tm \<Longrightarrow> dq_own s Internal (s\<lparr>dq_loop := Top\<rparr>)"
| timer: "dq_loop s = Waiting now (Some t) \<Longrightarrow> t \<le> dq_clock s \<Longrightarrow> dq_own s Internal (s\<lparr>dq_loop := Top\<rparr>)"
| receive: "dq_loop s = Waiting now tm \<or> dq_loop s = Draining \<Longrightarrow> dq_waitingForAddCh s = p # rest \<Longrightarrow>
     dq_own s (receive_event p s) (dq_receive p (s\<lparr>dq_waitingForAddCh := rest, dq_loop := Draining\<rparr>))"
| drained: "dq_loop s = Draining \<Longrightarrow> dq_waitingForAddCh s = [] \<Longrightarrow> dq_own s Internal (s\<lparr>dq_loop := Top\<rparr>)"

text \<open>With the users of the queue underneath.\<close>

inductive dq_step :: "'a delaying \<Rightarrow> 'a delay_event \<Rightarrow> 'a delaying \<Rightarrow> bool" where
  own: "dq_own s e s' \<Longrightarrow> dq_step s e s'"
| add: "dq_step s Internal (dq_Add x s)"
| get: "wq_Get (dq_Interface s) = Some (r, q) \<Longrightarrow> dq_step s Internal (s\<lparr>dq_Interface := q\<rparr>)"
| finish: "x \<in> wq_processing (dq_Interface s) \<Longrightarrow> dq_step s Internal (s\<lparr>dq_Interface := wq_Done x (dq_Interface s)\<rparr>)"
| shut: "dq_step s Internal (dq_ShutDown s)"

text \<open>The runs of a new queue, with their events in order.\<close>

inductive dq_run :: "'a delay_event list \<Rightarrow> 'a delaying \<Rightarrow> bool" where
  start: "dq_run [] (newDelayingQueue now)"
| step: "dq_run tr s \<Longrightarrow> dq_step s e s' \<Longrightarrow> dq_run (tr @ [e]) s'"

subsection \<open>Invariant\<close>

definition channelled :: "'a delaying \<Rightarrow> nat set" where
  "channelled s = set (dq_senders s) \<union> set (dq_waitingForAddCh s)"

definition dq_deadline :: "'a delaying \<Rightarrow> 'a \<Rightarrow> time option" where
  "dq_deadline s = deadline (dq_waitingEntryByData s) (ph_times (dq_waitingForQueue s))"

text \<open>Of the heap and the map: the heap is one, and the map holds its entries.\<close>

definition loop_data_ok :: "'a delaying \<Rightarrow> bool" where
  "loop_data_ok s \<longleftrightarrow>
     heap_inv (dq_waitingForQueue s) \<and>
     consistent (ph_members (dq_waitingForQueue s)) (ph_data (dq_waitingForQueue s)) (dq_waitingEntryByData s)"

definition loop_ok :: "'a delaying \<Rightarrow> bool" where
  "loop_ok s \<longleftrightarrow>
     (case dq_loop s of
        Adding now \<Rightarrow> now \<le> dq_clock s
      | Waiting now tm \<Rightarrow>
          (\<forall>x t. dq_deadline s x = Some t \<longrightarrow>
             now < t \<and> (\<exists>u c. tm = Some u \<and> now \<le> c \<and> c \<le> dq_clock s \<and> u \<le> t + (c - now)))
      | _ \<Rightarrow> True)"

definition dq_inv :: "'a delaying \<Rightarrow> bool" where
  "dq_inv s \<longleftrightarrow>
     loop_data_ok s \<and> loop_ok s \<and> distinct (dq_senders s @ dq_waitingForAddCh s) \<and>
     channelled s \<inter> ph_members (dq_waitingForQueue s) = {} \<and> channelled s \<subseteq> {..<length (ph_store (dq_waitingForQueue s))}"

text \<open>The additions that are still to be made: of the entries on their way to the loop, and of the entries
  that wait in its heap.\<close>

definition in_flight :: "'a delaying \<Rightarrow> ('a \<times> time) set" where
  "in_flight s = (\<lambda>p. (ph_data (dq_waitingForQueue s) ! p, ph_times (dq_waitingForQueue s) ! p)) ` channelled s"

definition owed :: "'a delaying \<Rightarrow> ('a \<times> time) set" where
  "owed s = in_flight s \<union> {(x, t). dq_deadline s x = Some t}"

definition awaits :: "'a delaying \<Rightarrow> 'a \<Rightarrow> time \<Rightarrow> bool" where
  "awaits s x r \<longleftrightarrow> (x, r) \<in> in_flight s \<or> (\<exists>t\<le>r. dq_deadline s x = Some t)"

lemma new_inv: "dq_inv (newDelayingQueue now)"
  by (simp add: dq_inv_def newDelayingQueue_def loop_data_ok_def loop_ok_def channelled_def heap_inv_def ptrs_ok_def heap_order_def
      pq_Len_def heap_Init_def consistent_def ph_members_def)

lemma entry_sel:
  assumes "p < length (ph_store (dq_waitingForQueue s))"
  shows "wf_data (wait_entry p s) = ph_data (dq_waitingForQueue s) ! p" "wf_readyAt (wait_entry p s) = ph_times (dq_waitingForQueue s) ! p"
  using assms by (simp_all add: wait_entry_def ph_data_def ph_times_def)

lemma heap_lengths: "length (ph_times h) = length (ph_store h)" "length (ph_data h) = length (ph_store h)"
  by (simp_all add: ph_times_def ph_data_def)

text \<open>Inserting an entry gives its item the earlier of the two deadlines.\<close>

lemma dq_insert_deadline:
  assumes "loop_data_ok s" "p < length (ph_store (dq_waitingForQueue s))" "p \<notin> ph_members (dq_waitingForQueue s)"
  defines "x \<equiv> ph_data (dq_waitingForQueue s) ! p" and "t \<equiv> ph_times (dq_waitingForQueue s) ! p"
  shows "loop_data_ok (dq_insert p s)"
    and "dq_deadline (dq_insert p s) = (dq_deadline s)(x \<mapsto> (case dq_deadline s x of None \<Rightarrow> t | Some u \<Rightarrow> min u t))"
    and "ph_members (dq_waitingForQueue (dq_insert p s)) \<subseteq> insert p (ph_members (dq_waitingForQueue s))"
    and "ph_data (dq_waitingForQueue (dq_insert p s)) = ph_data (dq_waitingForQueue s)"
    and "q \<notin> ph_members (dq_waitingForQueue s) \<Longrightarrow> ph_times (dq_waitingForQueue (dq_insert p s)) ! q = ph_times (dq_waitingForQueue s) ! q"
proof -
  let ?h = "dq_waitingForQueue s" and ?k = "dq_waitingEntryByData s"
  have inv: "heap_inv ?h" and con: "consistent (ph_members ?h) (ph_data ?h) ?k" using assms(1) by (simp_all add: loop_data_ok_def)
  have e: "wf_data (wait_entry p s) = x" "wf_readyAt (wait_entry p s) = t" using entry_sel [OF assms(2)] by (simp_all add: x_def t_def)
  have all: "loop_data_ok (dq_insert p s) \<and>
      dq_deadline (dq_insert p s) = (dq_deadline s)(x \<mapsto> (case dq_deadline s x of None \<Rightarrow> t | Some u \<Rightarrow> min u t)) \<and>
      ph_members (dq_waitingForQueue (dq_insert p s)) \<subseteq> insert p (ph_members ?h) \<and> ph_data (dq_waitingForQueue (dq_insert p s)) = ph_data ?h \<and>
      (\<forall>q. q \<notin> ph_members ?h \<longrightarrow> ph_times (dq_waitingForQueue (dq_insert p s)) ! q = ph_times ?h ! q)"
  proof (cases "?k x")
    case None
    have len: "p < length (ph_times ?h)" using assms(2) by (simp add: heap_lengths)
    from entry_heap.deadline_push [OF inv con len assms(3)] entry_heap.push_ok [OF inv len assms(3)] None
    show ?thesis by (simp add: dq_insert_def Let_def e loop_data_ok_def dq_deadline_def x_def t_def)
        (auto simp: deadline_def t_def)
  next
    case (Some p')
    then have m: "p' \<in> ph_members ?h" "ph_data ?h ! p' = x" using con by (simp_all add: consistent_iff)
    have p': "p' < length (ph_store ?h)" using entry_heap.member_entry [OF inv m(1)] by (simp add: heap_lengths)
    have d: "dq_deadline s x = Some (ph_times ?h ! p')" by (simp add: dq_deadline_def deadline_def Some)
    show ?thesis
    proof (cases "t < ph_times ?h ! p'")
      case True
      then have le: "t \<le> ph_times ?h ! p'" by simp
      have other: "(ph_times ?h)[p' := t] ! q = ph_times ?h ! q" if "q \<notin> ph_members ?h" for q
        using that m(1) by (cases "q = p'") auto
      from entry_heap.deadline_earlier [OF inv con Some le] entry_heap.earlier_ok [OF inv m(1) le] True d other
      show ?thesis by (auto simp: dq_insert_def Let_def e Some entry_sel(2) [OF p'] loop_data_ok_def dq_deadline_def min_def)
    next
      case False
      then show ?thesis using assms(1) d by (auto simp: dq_insert_def Let_def e Some entry_sel(2) [OF p'] min_def fun_eq_iff)
    qed
  qed
  then show "loop_data_ok (dq_insert p s)"
    "dq_deadline (dq_insert p s) = (dq_deadline s)(x \<mapsto> (case dq_deadline s x of None \<Rightarrow> t | Some u \<Rightarrow> min u t))"
    "ph_members (dq_waitingForQueue (dq_insert p s)) \<subseteq> insert p (ph_members ?h)"
    "ph_data (dq_waitingForQueue (dq_insert p s)) = ph_data ?h"
    "q \<notin> ph_members ?h \<Longrightarrow> ph_times (dq_waitingForQueue (dq_insert p s)) ! q = ph_times ?h ! q" by blast+
qed

text \<open>Adding the first entry takes the item with the earliest deadline.\<close>

lemma add_first_deadline:
  assumes "loop_data_ok s" "0 < pq_Len (dq_waitingForQueue s)"
  defines "x \<equiv> wf_data (wait_entry (pq_Peek (dq_waitingForQueue s)) s)" and "t \<equiv> wf_readyAt (wait_entry (pq_Peek (dq_waitingForQueue s)) s)"
  shows "loop_data_ok (add_first s)" "dq_deadline s x = Some t" "dq_deadline (add_first s) = (dq_deadline s)(x := None)"
    and "ph_members (dq_waitingForQueue (add_first s)) \<subseteq> ph_members (dq_waitingForQueue s)"
    and "ph_data (dq_waitingForQueue (add_first s)) = ph_data (dq_waitingForQueue s)"
    and "ph_times (dq_waitingForQueue (add_first s)) = ph_times (dq_waitingForQueue s)"
    and "dq_Interface (add_first s) = wq_Add x (dq_Interface s)"
proof -
  let ?h = "dq_waitingForQueue s" and ?k = "dq_waitingEntryByData s"
  have inv: "heap_inv ?h" and con: "consistent (ph_members ?h) (ph_data ?h) ?k" using assms(1) by (simp_all add: loop_data_ok_def)
  have ne: "ph_members ?h \<noteq> {}" using assms(2) by (auto simp: ph_members_def pq_Len_def)
  have "pq_Peek ?h < length (ph_store ?h)" using entry_heap.member_entry [OF inv entry_heap.peek_in [OF inv ne]] by (simp add: heap_lengths)
  then have x: "x = ph_data ?h ! pq_Peek ?h" "t = ph_times ?h ! pq_Peek ?h" by (simp_all add: x_def t_def entry_sel)
  obtain h' where pop: "heap_Pop ?h = (pq_Peek ?h, h')" using entry_heap.pop_ok [OF inv ne] by (metis prod.collapse)
  have s': "add_first s = s\<lparr>dq_Interface := wq_Add x (dq_Interface s), dq_waitingForQueue := h', dq_waitingEntryByData := ?k(x := None)\<rparr>"
    by (simp add: add_first_def pop x_def Let_def dq_Add_def)
  note laws = entry_heap.deadline_pop [OF inv con ne, folded x] entry_heap.pop_ok [OF inv ne]
  show "loop_data_ok (add_first s)" "dq_deadline s x = Some t" "dq_deadline (add_first s) = (dq_deadline s)(x := None)"
    "ph_members (dq_waitingForQueue (add_first s)) \<subseteq> ph_members ?h" "ph_data (dq_waitingForQueue (add_first s)) = ph_data ?h"
    "ph_times (dq_waitingForQueue (add_first s)) = ph_times ?h" "dq_Interface (add_first s) = wq_Add x (dq_Interface s)"
    using laws by (auto simp: s' pop loop_data_ok_def dq_deadline_def)
qed

text \<open>A new entry in the store does not touch the heap.\<close>

lemma store_append:
  fixes e :: "'a waitFor"
  assumes "loop_data_ok s"
  defines "h \<equiv> dq_waitingForQueue s"
  defines "h' \<equiv> h\<lparr>ph_store := ph_store h @ [e]\<rparr>"
  shows "loop_data_ok (s\<lparr>dq_waitingForQueue := h'\<rparr>)" "dq_deadline (s\<lparr>dq_waitingForQueue := h'\<rparr>) = dq_deadline s"
proof -
  have inv: "heap_inv h" and con: "consistent (ph_members h) (ph_data h) (dq_waitingEntryByData s)"
    using assms(1) by (simp_all add: loop_data_ok_def h_def)
  have m: "p < length (ph_store h)" if "p \<in> ph_members h" for p using entry_heap.member_entry [OF inv that] by (simp add: heap_lengths)
  have old: "ph_data h' ! p = ph_data h ! p" "ph_times h' ! p = ph_times h ! p" if "p \<in> ph_members h" for p
    using m [OF that] by (simp_all add: h'_def ph_data_def ph_times_def nth_append)
  have mem: "ph_members h' = ph_members h" by (simp add: ph_members_def h'_def)
  have e: "entry h' i = entry h i" if "i < pq_Len h" for i
    using that m [of "ph_queue h ! i"] by (simp add: entry_def h'_def nth_append ph_members_def pq_Len_def)
  then have "heap_order (pq_Len h) (key_at h') = heap_order (pq_Len h) (key_at h)" by (intro heap_order_cong) (simp add: key_at_def)
  then have "heap_inv h'" using inv e by (auto simp: heap_inv_def ptrs_ok_def h'_def pq_Len_def)
  moreover have "consistent (ph_members h') (ph_data h') (dq_waitingEntryByData s)"
    unfolding consistent_def mem using old consistent_iff [OF con] by auto
  ultimately show "loop_data_ok (s\<lparr>dq_waitingForQueue := h'\<rparr>)" by (simp add: loop_data_ok_def)
  show "dq_deadline (s\<lparr>dq_waitingForQueue := h'\<rparr>) = dq_deadline s"
    using old consistent_iff [OF con] by (auto simp: dq_deadline_def deadline_def fun_eq_iff h_def [symmetric] intro: option.map_cong)
qed

subsection \<open>What a step does to the additions that are owed\<close>

definition step_ok :: "'a delaying \<Rightarrow> 'a delay_event \<Rightarrow> 'a delaying \<Rightarrow> bool" where
  "step_ok s e s' \<longleftrightarrow>
     dq_inv s' \<and> (dq_stopped s \<longrightarrow> dq_stopped s') \<and>
     owed s' \<subseteq> owed s \<union> {(x, r). e = Requested x r} \<and>
     (\<forall>x t. e = Delivered x t \<longrightarrow> (\<exists>r\<le>t. (x, r) \<in> owed s)) \<and>
     (\<forall>x r. e = Requested x r \<longrightarrow> awaits s' x r) \<and>
     (\<forall>x r. awaits s x r \<and> (\<forall>t. e \<noteq> Delivered x t) \<longrightarrow> awaits s' x r \<or> dq_stopped s')"

lemmas same_data = loop_data_ok_def dq_deadline_def in_flight_def

text \<open>Steps that leave the data of the loop alone.\<close>

lemma step_ok_same:
  assumes "dq_inv s" "dq_waitingForQueue s' = dq_waitingForQueue s" "dq_waitingEntryByData s' = dq_waitingEntryByData s"
    and "distinct (dq_senders s' @ dq_waitingForAddCh s')" "channelled s' \<subseteq> channelled s"
    and "channelled s' = channelled s \<or> dq_stopped s" "dq_stopped s \<longrightarrow> dq_stopped s'" "loop_ok s'"
  shows "step_ok s Internal s'"
proof -
  have d: "dq_deadline s' = dq_deadline s" "loop_data_ok s' = loop_data_ok s" using assms(2,3) by (simp_all add: same_data)
  have f: "in_flight s' \<subseteq> in_flight s" using assms(2,5) by (auto simp: in_flight_def)
  have f2: "in_flight s' = in_flight s \<or> dq_stopped s" using assms(2,6) by (auto simp: in_flight_def)
  have "dq_inv s'" using assms(1,2,4,5,8) d by (auto simp: dq_inv_def)
  then show ?thesis using d f f2 assms(7) by (auto simp: step_ok_def owed_def awaits_def)
qed

lemma loop_ok_cong:
  "dq_loop s' = dq_loop s \<Longrightarrow> dq_clock s \<le> dq_clock s' \<Longrightarrow> dq_deadline s' = dq_deadline s \<Longrightarrow> loop_ok s \<Longrightarrow> loop_ok s'"
  by (cases "dq_loop s") (auto simp: loop_ok_def, meson order_trans)

lemma step_ok_frame:
  assumes "dq_inv s" "dq_waitingForQueue s' = dq_waitingForQueue s" "dq_waitingEntryByData s' = dq_waitingEntryByData s"
    and "dq_senders s' = dq_senders s" "dq_waitingForAddCh s' = dq_waitingForAddCh s"
    and "dq_stopped s \<longrightarrow> dq_stopped s'" "dq_loop s' = dq_loop s" "dq_clock s \<le> dq_clock s'"
  shows "step_ok s Internal s'"
proof -
  have "loop_ok s'" using assms loop_ok_cong [of s' s] by (simp add: dq_inv_def dq_deadline_def)
  with assms show ?thesis by (intro step_ok_same) (auto simp: dq_inv_def channelled_def)
qed

lemma loop_ok_free [simp]: "loop_ok (s\<lparr>dq_loop := Top\<rparr>)" "loop_ok (s\<lparr>dq_loop := Returned\<rparr>)" "loop_ok (s\<lparr>dq_loop := Draining\<rparr>)"
  by (simp_all add: loop_ok_def)

lemma receive_ok:
  fixes s :: "'a delaying"
  assumes inv: "dq_inv s" and ch: "dq_waitingForAddCh s = p # rest"
  defines "s1 \<equiv> s\<lparr>dq_waitingForAddCh := rest, dq_loop := Draining\<rparr>"
  shows "step_ok s (receive_event p s) (dq_receive p s1)"
proof -
  let ?h = "dq_waitingForQueue s" and ?x = "ph_data (dq_waitingForQueue s) ! p" and ?t = "ph_times (dq_waitingForQueue s) ! p"
  have data: "loop_data_ok s1" "dq_waitingForQueue s1 = ?h" "dq_deadline s1 = dq_deadline s" "channelled s = insert p (channelled s1)"
    using inv ch by (auto simp: dq_inv_def s1_def same_data channelled_def)
  have dist: "distinct (dq_senders s1 @ dq_waitingForAddCh s1)" "p \<notin> channelled s1"
    using inv ch by (auto simp: dq_inv_def s1_def channelled_def)
  have p: "p < length (ph_store ?h)" "p \<notin> ph_members ?h" and c1: "channelled s1 \<inter> ph_members ?h = {}" "channelled s1 \<subseteq> {..<length (ph_store ?h)}"
    using inv data(4) by (auto simp: dq_inv_def)
  have e: "wf_data (wait_entry p s) = ?x" "wf_readyAt (wait_entry p s) = ?t" "wait_entry p s1 = wait_entry p s"
    using entry_sel [OF p(1)] by (simp_all add: wait_entry_def s1_def)
  have fl: "in_flight s = insert (?x, ?t) (in_flight s1)" using data(2,4) by (simp add: in_flight_def)
  have clk: "dq_clock s1 = dq_clock s" by (simp add: s1_def)
  show ?thesis
  proof (cases "?t > dq_clock s")
    case True
    let ?s' = "dq_insert p s1"
    note ins = dq_insert_deadline [OF data(1), unfolded data(2,3), OF p]
    have r: "dq_receive p s1 = ?s'" "receive_event p s = Internal" using True e by (simp_all add: dq_receive_def receive_event_def clk)
    have keep: "dq_senders ?s' = dq_senders s1" "dq_waitingForAddCh ?s' = dq_waitingForAddCh s1" "dq_stopped ?s' = dq_stopped s" "dq_loop ?s' = Draining"
      by (simp_all add: dq_insert_def Let_def s1_def split: option.split)
    then have c': "channelled ?s' = channelled s1" by (simp add: channelled_def)
    have len: "length (ph_store (dq_waitingForQueue ?s')) = length (ph_store ?h)" using ins(4) heap_lengths(2) by metis
    have fl': "in_flight ?s' = in_flight s1"
      unfolding in_flight_def c' data(2) using ins(4,5) c1(1) by (intro image_cong) (auto simp: disjoint_iff)
    have "dq_inv ?s'"
      using ins(1,3) c' c1 dist keep len p(2) by (auto simp: dq_inv_def loop_ok_def)
    moreover have "owed ?s' \<subseteq> owed s"
      using ins(2) fl fl' by (auto simp: owed_def min_def split: option.splits if_splits)
    moreover have "awaits ?s' y r" if "awaits s y r" for y r
      using that ins(2) fl fl' by (fastforce simp: awaits_def min_def split: option.splits if_splits)
    ultimately show ?thesis using r keep by (auto simp: step_ok_def)
  next
    case False
    have r: "dq_receive p s1 = dq_Add ?x s1" "receive_event p s = Delivered ?x (dq_clock s)"
      using False e by (simp_all add: dq_receive_def receive_event_def clk)
    have same: "loop_data_ok (dq_Add ?x s1) = loop_data_ok s1" "dq_deadline (dq_Add ?x s1) = dq_deadline s1" "in_flight (dq_Add ?x s1) = in_flight s1"
      "dq_waitingForQueue (dq_Add ?x s1) = ?h" "channelled (dq_Add ?x s1) = channelled s1" "dq_loop (dq_Add ?x s1) = Draining"
      by (simp_all add: dq_Add_def same_data channelled_def s1_def)
    have "dq_inv (dq_Add ?x s1)" using same data dist c1 by (simp add: dq_inv_def loop_ok_def) (simp add: dq_Add_def)
    moreover have "(?x, ?t) \<in> owed s" by (simp add: owed_def fl)
    moreover have "owed (dq_Add ?x s1) \<subseteq> owed s" "awaits s y u \<Longrightarrow> y \<noteq> ?x \<Longrightarrow> awaits (dq_Add ?x s1) y u" for y u
      using same data(3) fl by (auto simp: owed_def awaits_def)
    moreover have "dq_stopped (dq_Add ?x s1) = dq_stopped s" by (simp add: dq_Add_def s1_def)
    ultimately show ?thesis using r False by (fastforce simp: step_ok_def not_less)
  qed
qed

lemma add_ready_ok:
  assumes inv: "dq_inv s" and now: "dq_loop s = Adding now" "first_ready now s"
  shows "step_ok s (Delivered (wf_data (wait_entry (pq_Peek (dq_waitingForQueue s)) s)) (dq_clock s)) (add_first s)"
proof -
  let ?x = "wf_data (wait_entry (pq_Peek (dq_waitingForQueue s)) s)" and ?t = "wf_readyAt (wait_entry (pq_Peek (dq_waitingForQueue s)) s)"
  have n: "0 < pq_Len (dq_waitingForQueue s)" "?t \<le> now" using now(2) by (auto simp: first_ready_def not_less)
  have data: "loop_data_ok s" "now \<le> dq_clock s" using inv now(1) by (simp_all add: dq_inv_def loop_ok_def)
  note f = add_first_deadline [OF data(1) n(1)]
  have keep: "dq_senders (add_first s) = dq_senders s" "dq_waitingForAddCh (add_first s) = dq_waitingForAddCh s"
    "dq_stopped (add_first s) = dq_stopped s" "dq_loop (add_first s) = Adding now" "dq_clock (add_first s) = dq_clock s"
    using now(1) by (simp_all add: add_first_def Let_def dq_Add_def split: prod.split)
  have c: "channelled (add_first s) = channelled s" using keep by (simp add: channelled_def)
  have fl: "in_flight (add_first s) = in_flight s" using f(5,6) c by (simp add: in_flight_def)
  have len: "length (ph_store (dq_waitingForQueue (add_first s))) = length (ph_store (dq_waitingForQueue s))" using f(5) heap_lengths(2) by metis
  have "dq_inv (add_first s)" using inv f(1,4) c keep len data(2) by (auto simp: dq_inv_def loop_ok_def)
  moreover have "(?x, ?t) \<in> owed s" "?t \<le> dq_clock s" using f(2) n(2) data(2) by (simp_all add: owed_def)
  moreover have "owed (add_first s) \<subseteq> owed s" "awaits s y u \<Longrightarrow> y \<noteq> ?x \<Longrightarrow> awaits (add_first s) y u" for y u
    using f(3) fl by (auto simp: owed_def awaits_def split: if_splits)
  ultimately show ?thesis using keep by (fastforce simp: step_ok_def)
qed

lemma after_ok:
  assumes "dq_inv s"
  shows "step_ok s (request_event x d s) (dq_AddAfter x d s)"
proof (cases "wq_shuttingDown (dq_Interface s) \<or> d \<le> 0")
  case True
  then have "step_ok s Internal (dq_AddAfter x d s)"
    using assms by (intro step_ok_frame) (auto simp: dq_AddAfter_def dq_Add_def)
  with True show ?thesis by (simp add: request_event_def)
next
  case False
  let ?h = "dq_waitingForQueue s" and ?e = "\<lparr> wf_data = x, wf_readyAt = dq_clock s + d, wf_index = 0 \<rparr>" and ?s' = "dq_AddAfter x d s"
  let ?p = "length (ph_store ?h)" and ?h' = "?h\<lparr>ph_store := ph_store ?h @ [?e]\<rparr>"
  have s': "?s' = s\<lparr>dq_waitingForQueue := ?h', dq_senders := dq_senders s @ [?p]\<rparr>" using False by (simp add: dq_AddAfter_def Let_def)
  have ok: "loop_data_ok s" "channelled s \<subseteq> {..<?p}" using assms by (simp_all add: dq_inv_def)
  have data: "loop_data_ok ?s'" "dq_deadline ?s' = dq_deadline s" using store_append [OF ok(1), of ?e] by (simp_all add: s' same_data)
  have mem: "ph_members ?h' = ph_members ?h" "?p \<notin> ph_members ?h"
    using ok(1) entry_heap.member_entry [of ?h ?p] by (auto simp: ph_members_def loop_data_ok_def heap_lengths)
  have c: "channelled ?s' = insert ?p (channelled s)" by (simp add: s' channelled_def)
  have "in_flight ?s' = insert (x, dq_clock s + d) (in_flight s)"
  proof -
    have "ph_data ?h' ! q = ph_data ?h ! q" "ph_times ?h' ! q = ph_times ?h ! q" if "q \<in> channelled s" for q
      using that ok(2) by (auto simp: ph_data_def ph_times_def nth_append)
    moreover have "ph_data ?h' ! ?p = x" "ph_times ?h' ! ?p = dq_clock s + d" by (simp_all add: ph_data_def ph_times_def nth_append)
    ultimately show ?thesis unfolding in_flight_def c by (simp add: s' cong: image_cong)
  qed
  moreover have "dq_inv ?s'"
  proof -
    have "?p \<notin> channelled s" using ok(2) by auto
    then have "distinct (dq_senders ?s' @ dq_waitingForAddCh ?s')" using assms by (auto simp: s' dq_inv_def channelled_def)
    moreover have "loop_ok ?s'" using assms data(2) by (intro loop_ok_cong [of ?s' s]) (simp_all add: dq_inv_def s')
    ultimately show ?thesis using assms data(1) c mem by (auto simp: dq_inv_def s')
  qed
  ultimately show ?thesis using False data(2) by (auto simp: step_ok_def request_event_def owed_def awaits_def s')
qed

lemma dq_own_ok: "dq_own s e s' \<Longrightarrow> dq_inv s \<Longrightarrow> step_ok s e s'"
proof (induction rule: dq_own.induct)
  case (set_timer s now)
  let ?h = "dq_waitingForQueue s"
  have data: "heap_inv ?h" "consistent (ph_members ?h) (ph_data ?h) (dq_waitingEntryByData s)"
    using set_timer(3) by (simp_all add: dq_inv_def loop_data_ok_def)
  have peek_store: "pq_Peek ?h < length (ph_store ?h)" if "ph_members ?h \<noteq> {}"
    using entry_heap.member_entry [OF data(1) entry_heap.peek_in [OF data(1) that]] by (simp add: heap_lengths)
  have late: "now < ph_times ?h ! pq_Peek ?h" "0 < pq_Len ?h" if "ph_members ?h \<noteq> {}"
  proof -
    show n: "0 < pq_Len ?h" using that by (auto simp: ph_members_def pq_Len_def)
    with set_timer(2) peek_store [OF that] show "now < ph_times ?h ! pq_Peek ?h" by (simp add: first_ready_def entry_sel)
  qed
  have "now < t \<and> (\<exists>u c. next_timer now s = Some u \<and> now \<le> c \<and> c \<le> dq_clock s \<and> u \<le> t + (c - now))" if d: "dq_deadline s x = Some t" for x t
  proof -
    obtain p where "dq_waitingEntryByData s x = Some p" "t = ph_times ?h ! p" using d by (auto simp: dq_deadline_def deadline_def)
    then have p: "p \<in> ph_members ?h" "t = ph_times ?h ! p" using consistent_iff [OF data(2)] by auto
    then have ne: "ph_members ?h \<noteq> {}" by auto
    let ?m = "ph_times ?h ! pq_Peek ?h"
    have m: "?m \<le> t" using entry_heap.peek_least [OF data(1) p(1)] p(2) by simp
    have "time_sub ?m now \<le> ?m - now" using late(1) [OF ne] by (simp add: time_sub_def min_int64_def)
    moreover have "next_timer now s = Some (dq_clock s + time_sub ?m now)"
      using late(2) [OF ne] entry_sel(2) [OF peek_store [OF ne]] by (simp add: next_timer_def)
    moreover have "now \<le> dq_clock s" using set_timer(1,3) by (simp add: dq_inv_def loop_ok_def)
    ultimately show ?thesis using m late(1) [OF ne] by (auto intro!: exI [of _ "dq_clock s"])
  qed
  with set_timer show ?case by (intro step_ok_same) (auto simp: dq_inv_def channelled_def loop_ok_def dq_deadline_def)
next
  case (send s pre p post)
  then have "loop_ok (s\<lparr>dq_senders := pre @ post, dq_waitingForAddCh := dq_waitingForAddCh s @ [p]\<rparr>)"
    using loop_ok_cong [of _ s] by (simp add: dq_inv_def dq_deadline_def)
  with send show ?case by (intro step_ok_same) (auto simp: dq_inv_def channelled_def)
next
  case (give_up s pre p post)
  then have "loop_ok (s\<lparr>dq_senders := pre @ post\<rparr>)" using loop_ok_cong [of _ s] by (simp add: dq_inv_def dq_deadline_def)
  with give_up show ?case by (intro step_ok_same) (auto simp: dq_inv_def channelled_def)
next
  case (top s)
  then show ?case by (intro step_ok_same) (auto simp: dq_inv_def channelled_def loop_ok_def)
next
  case (tick s t)
  then show ?case by (intro step_ok_frame) simp_all
next
  case (stop s now tm)
  then show ?case by (intro step_ok_same) (auto simp: dq_inv_def channelled_def)
next
  case (heartbeat s now tm)
  then show ?case by (intro step_ok_same) (auto simp: dq_inv_def channelled_def)
next
  case (timer s now t)
  then show ?case by (intro step_ok_same) (auto simp: dq_inv_def channelled_def)
next
  case (drained s)
  then show ?case by (intro step_ok_same) (auto simp: dq_inv_def channelled_def)
next
  case (receive s now tm p rest)
  then show ?case by (intro receive_ok)
next
  case (add_ready s now)
  then show ?case by (intro add_ready_ok)
next
  case (after s x d)
  then show ?case by (intro after_ok)
qed

lemma dq_step_ok: "dq_step s e s' \<Longrightarrow> dq_inv s \<Longrightarrow> step_ok s e s'"
proof (induction rule: dq_step.induct)
  case (shut s)
  then show ?case by (intro step_ok_frame) (auto simp: dq_ShutDown_def)
qed (auto intro: dq_own_ok step_ok_frame simp: dq_Add_def)

subsection \<open>Runs\<close>

lemma run_inv: "dq_run tr s \<Longrightarrow> dq_inv s"
proof (induction rule: dq_run.induct)
  case (step tr s e s')
  then show ?case using dq_step_ok [of s e s'] by (simp add: step_ok_def)
qed (rule new_inv)

lemma run_step_ok: "dq_run tr s \<Longrightarrow> dq_step s e s' \<Longrightarrow> step_ok s e s'"
  by (blast intro: dq_step_ok run_inv)

text \<open>Only what was requested is owed.\<close>

lemma run_owed: "dq_run tr s \<Longrightarrow> (x, r) \<in> owed s \<Longrightarrow> Requested x r \<in> set tr"
proof (induction arbitrary: x r rule: dq_run.induct)
  case (start now)
  then show ?case by (simp add: owed_def in_flight_def channelled_def newDelayingQueue_def dq_deadline_def deadline_def)
next
  case (step tr s e s')
  then have "(x, r) \<in> owed s \<or> e = Requested x r" using run_step_ok [OF step(1,2)] by (auto simp: step_ok_def)
  with step(3) show ?case by auto
qed

lemma run_delivered: "dq_run tr s \<Longrightarrow> i < length tr \<Longrightarrow> tr ! i = Delivered x t \<Longrightarrow> \<exists>j<i. \<exists>r\<le>t. tr ! j = Requested x r"
proof (induction rule: dq_run.induct)
  case (step tr s e s')
  show ?case
  proof (cases "i < length tr")
    case True
    then obtain j r where "j < i" "r \<le> t" "tr ! j = Requested x r" using step by (auto simp: nth_append)
    with True show ?thesis by (auto simp: nth_append intro!: exI [of _ j])
  next
    case False
    with step(4,5) have i: "i = length tr" "e = Delivered x t" by (auto simp: nth_append less_Suc_eq)
    then obtain r where "r \<le> t" "(x, r) \<in> owed s" using run_step_ok [OF step(1,2)] by (auto simp: step_ok_def)
    then obtain j where "j < length tr" "tr ! j = Requested x r" using run_owed [OF step(1)] by (metis in_set_conv_nth)
    with i(1) \<open>r \<le> t\<close> show ?thesis by (auto simp: nth_append intro!: exI [of _ j])
  qed
qed simp

lemma run_requested:
  "dq_run tr s \<Longrightarrow> i < length tr \<Longrightarrow> tr ! i = Requested x r \<Longrightarrow>
     (\<exists>j t. i < j \<and> j < length tr \<and> tr ! j = Delivered x t) \<or> awaits s x r \<or> dq_stopped s"
proof (induction rule: dq_run.induct)
  case (step tr s e s')
  note ok = run_step_ok [OF step(1,2)]
  show ?case
  proof (cases "i < length tr")
    case True
    with step(3,5) consider (out) j t where "i < j" "j < length tr" "tr ! j = Delivered x t" | (waits) "awaits s x r" | "dq_stopped s"
      by (auto simp: nth_append)
    then show ?thesis
    proof cases
      case out
      then show ?thesis by (auto simp: nth_append intro!: exI [of _ j])
    next
      case waits
      show ?thesis
      proof (cases "\<exists>t. e = Delivered x t")
        case True
        with \<open>i < length tr\<close> show ?thesis by (auto simp: nth_append intro!: exI [of _ "length tr"])
      next
        case False
        with waits ok show ?thesis by (auto simp: step_ok_def)
      qed
    qed (use ok in \<open>simp add: step_ok_def\<close>)
  next
    case False
    with step(4,5) have "e = Requested x r" by (auto simp: nth_append less_Suc_eq)
    with ok show ?thesis by (simp add: step_ok_def)
  qed
qed simp

subsection \<open>Properties\<close>


text \<open>The loop's first round on a queue whose only delayed addition was sent.\<close>

definition example_entry :: "nat waitFor" where
  "example_entry = \<lparr> wf_data = 7, wf_readyAt = 5, wf_index = 0 \<rparr>"

definition example_state :: "time \<Rightarrow> loop \<Rightarrow> nat delaying" where
  "example_state now l =
     \<lparr> dq_Interface = newQueue, dq_stopped = False, dq_waitingForQueue = \<lparr> ph_store = [example_entry], ph_queue = [] \<rparr>,
       dq_waitingEntryByData = (\<lambda>_. None), dq_senders = [], dq_waitingForAddCh = [0], dq_loop = l, dq_clock = now \<rparr>"

lemma example_delays: "0 \<le> now \<Longrightarrow> dq_run [Requested 7 5, Internal, Internal, Internal, Internal] (example_state now (Waiting now None))"
proof -
  assume now: "0 \<le> now"
  let ?s1 = "(example_state 0 Top)\<lparr>dq_senders := [0], dq_waitingForAddCh := []\<rparr>"
  have "dq_step (newDelayingQueue 0) (request_event 7 5 (newDelayingQueue 0)) (dq_AddAfter 7 5 (newDelayingQueue 0))" by (rule own [OF after])
  then have 1: "dq_step (newDelayingQueue 0) (Requested 7 5) ?s1"
    by (simp add: request_event_def dq_AddAfter_def newDelayingQueue_def newQueue_def heap_Init_def pq_Len_def example_state_def example_entry_def)
  have 2: "dq_step ?s1 Internal (example_state 0 Top)" using own [OF send, of ?s1 "[]" 0 "[]"] by (simp add: example_state_def)
  have 3: "dq_step (example_state 0 Top) Internal (example_state now Top)"
    using own [OF tick, of "example_state 0 Top" now] now by (simp add: example_state_def)
  have 4: "dq_step (example_state now Top) Internal (example_state now (Adding now))"
    using own [OF top, of "example_state now Top"] by (simp add: example_state_def newQueue_def)
  have "\<not> first_ready now (example_state now (Adding now))" "next_timer now (example_state now (Adding now)) = None"
    by (simp_all add: first_ready_def next_timer_def example_state_def pq_Len_def)
  then have 5: "dq_step (example_state now (Adding now)) Internal (example_state now (Waiting now None))"
    using own [OF set_timer, of "example_state now (Adding now)" now] by (simp add: example_state_def)
  from dq_run.step [OF dq_run.step [OF dq_run.step [OF dq_run.step [OF dq_run.step [OF start 1] 2] 3] 4] 5] show ?thesis by simp
qed


text \<open>The loop does not sleep on due items: whenever it waits in its select, no item of its heap was due when it
  last looked at the clock, and its timer fires by the deadline of the item plus the time that passed
  between looking at the clock and setting the timer.\<close>

theorem loop_waits_for_earliest:
  assumes "dq_run tr s" "dq_loop s = Waiting now tm" "dq_deadline s x = Some t"
  shows "now < t \<and> (\<exists>u c. tm = Some u \<and> now \<le> c \<and> c \<le> dq_clock s \<and> u \<le> t + (c - now))"
  using run_inv [OF assms(1)] assms(2,3) by (auto simp: dq_inv_def loop_ok_def)

theorem loop_waits_for_earliest_witness:
  "\<exists>tr s tm. dq_run tr s \<and> dq_loop s = Waiting 0 tm \<and> dq_deadline s (7::nat) = Some 5 \<and>
     (\<exists>u c. tm = Some u \<and> 0 \<le> c \<and> c \<le> dq_clock s \<and> u \<le> 5 + (c - 0))"
proof -
  let ?s = "example_state 0 (Waiting 0 None)"
  define s6 where "s6 = dq_receive 0 (?s\<lparr>dq_waitingForAddCh := [], dq_loop := Draining\<rparr>)"
  have step: "dq_step ?s (receive_event 0 ?s) s6" unfolding s6_def by (rule own [OF receive]) (simp_all add: example_state_def)
  note r6 = dq_run.step [OF example_delays [OF order_refl] step]
  have s6: "s6 = \<lparr> dq_Interface = newQueue, dq_stopped = False, dq_waitingForQueue = \<lparr> ph_store = [example_entry], ph_queue = [0] \<rparr>,
      dq_waitingEntryByData = [7 \<mapsto> 0], dq_senders = [], dq_waitingForAddCh = [], dq_loop = Draining, dq_clock = 0 \<rparr>"
    by (simp add: s6_def dq_receive_def dq_insert_def Let_def wait_entry_def example_state_def example_entry_def heap_Push_def
        pq_Push_def set_index_def pq_Len_def heap_up.simps)
  let ?s7 = "s6\<lparr>dq_loop := Top\<rparr>" and ?s8 = "s6\<lparr>dq_loop := Adding 0\<rparr>"
  have 7: "dq_step s6 Internal ?s7" by (rule own [OF drained]) (simp_all add: s6)
  have 8: "dq_step ?s7 Internal ?s8" using own [OF top, of ?s7] by (simp add: s6 newQueue_def)
  have "\<not> first_ready 0 ?s8" by (simp add: first_ready_def s6 wait_entry_def pq_Peek_def example_entry_def)
  then have 9: "dq_step ?s8 Internal (?s8\<lparr>dq_loop := Waiting 0 (next_timer 0 ?s8)\<rparr>)" by (intro own [OF set_timer]) simp_all
  note run = dq_run.step [OF dq_run.step [OF dq_run.step [OF r6 7] 8] 9]
  have d: "dq_deadline (?s8\<lparr>dq_loop := Waiting 0 (next_timer 0 ?s8)\<rparr>) 7 = Some 5"
    by (simp add: dq_deadline_def deadline_def s6 ph_times_def example_entry_def)
  from loop_waits_for_earliest [OF run _ d] d run show ?thesis by fastforce
qed

end
