(* ===== verification/Lane_Refinement.thy ===== *)
theory Lane_Refinement
  imports Delaying_Queue "HOL-Library.Multiset"
begin

section \<open>The waiting list of the fast lane\<close>

text \<open>
  \<open>Work_Queue\<close> has the delayed items of the fast lane of a controller's queue as a list from which any
  item may be taken at any time. Here the fast lane is the delaying queue of \<open>Delaying_Queue\<close>, beside the other
  goroutines of the two-lane queue, and every state of this system is shown to be one of the
  two-lane queue with such a list.
\<close>

subsection \<open>What a step of the delaying queue is for the lanes\<close>

text \<open>The items with an entry that was not added yet, one for each entry.\<close>

definition pending_ptrs :: "'a delaying \<Rightarrow> nat set" where
  "pending_ptrs s = channelled s \<union> ph_members (dq_waitingForQueue s)"

definition waiting_items :: "'a delaying \<Rightarrow> 'a multiset" where
  "waiting_items s = image_mset (\<lambda>p. ph_data (dq_waitingForQueue s) ! p) (mset_set (pending_ptrs s))"

text \<open>What a step of the delaying queue is for the two-lane queue.\<close>

fun lane_effect :: "'a delaying \<Rightarrow> 'a delay_event \<Rightarrow> 'a delaying \<Rightarrow> bool" where
  "lane_effect s Internal s' \<longleftrightarrow>
     waiting_items s' \<subseteq># waiting_items s \<and>
     (dq_Interface s' = dq_Interface s \<or> (\<exists>x. dq_Interface s' = wq_Add x (dq_Interface s)))"
| "lane_effect s (Requested x r) s' \<longleftrightarrow>
     waiting_items s' \<subseteq># add_mset x (waiting_items s) \<and> dq_Interface s' = dq_Interface s \<and>
     \<not> wq_shuttingDown (dq_Interface s) \<and> dq_clock s < r"
| "lane_effect s (Delivered x t) s' \<longleftrightarrow>
     add_mset x (waiting_items s') \<subseteq># waiting_items s \<and> dq_Interface s' = wq_Add x (dq_Interface s)"

lemma finite_pending [simp]: "finite (pending_ptrs s)"
  by (simp add: pending_ptrs_def channelled_def ph_members_def)

lemma waiting_mono:
  assumes "pending_ptrs s' \<subseteq> pending_ptrs s" "ph_data (dq_waitingForQueue s') = ph_data (dq_waitingForQueue s)"
  shows "waiting_items s' \<subseteq># waiting_items s"
  unfolding waiting_items_def assms(2) using assms(1) by (intro image_mset_subseteq_mono subset_imp_msubset_mset_set) simp_all

lemma waiting_remove:
  assumes "p \<in> pending_ptrs s" "pending_ptrs s' \<subseteq> pending_ptrs s - {p}" "ph_data (dq_waitingForQueue s') = ph_data (dq_waitingForQueue s)"
  shows "add_mset (ph_data (dq_waitingForQueue s) ! p) (waiting_items s') \<subseteq># waiting_items s"
proof -
  have "mset_set (insert p (pending_ptrs s')) = add_mset p (mset_set (pending_ptrs s'))"
    using assms(2) by (intro mset_set.insert) auto
  then have "add_mset (ph_data (dq_waitingForQueue s) ! p) (waiting_items s') =
      image_mset (\<lambda>p. ph_data (dq_waitingForQueue s) ! p) (mset_set (insert p (pending_ptrs s')))"
    by (simp add: waiting_items_def assms(3))
  also have "\<dots> \<subseteq># waiting_items s"
    unfolding waiting_items_def using assms(1,2) by (intro image_mset_subseteq_mono subset_imp_msubset_mset_set) auto
  finally show ?thesis .
qed

lemma receive_effect:
  assumes inv: "dq_inv s" and ch: "dq_waitingForAddCh s = p # rest"
  shows "lane_effect s (receive_event p s) (dq_receive p (s\<lparr>dq_waitingForAddCh := rest, dq_loop := Draining\<rparr>))"
proof -
  let ?s1 = "s\<lparr>dq_waitingForAddCh := rest, dq_loop := Draining\<rparr>" and ?h = "dq_waitingForQueue s"
  have p: "p < length (ph_store ?h)" "p \<notin> ph_members ?h" "p \<in> pending_ptrs s" "p \<notin> channelled ?s1" "channelled ?s1 \<subseteq> channelled s"
    using inv ch by (auto simp: dq_inv_def channelled_def pending_ptrs_def)
  have data: "loop_data_ok ?s1" using inv by (simp add: dq_inv_def loop_data_ok_def)
  have e: "wait_entry p ?s1 = wait_entry p s" by (simp add: wait_entry_def)
  show ?thesis
  proof (cases "wf_readyAt (wait_entry p s) > dq_clock s")
    case True
    note ins = dq_insert_deadline(3,4) [OF data, simplified, OF p(1,2)]
    have c: "channelled (dq_insert p ?s1) = channelled ?s1" "dq_Interface (dq_insert p ?s1) = dq_Interface s"
      by (simp_all add: dq_insert_def Let_def channelled_def split: option.split)
    have "pending_ptrs (dq_insert p ?s1) \<subseteq> pending_ptrs s" using ins(1) c p(3,5) by (auto simp: pending_ptrs_def)
    then show ?thesis using True e ins(2) c by (simp add: receive_event_def dq_receive_def waiting_mono)
  next
    case False
    let ?x = "wf_data (wait_entry p s)"
    have c: "pending_ptrs (dq_Add ?x ?s1) \<subseteq> pending_ptrs s - {p}" using p by (auto simp: pending_ptrs_def channelled_def dq_Add_def)
    have "add_mset ?x (waiting_items (dq_Add ?x ?s1)) \<subseteq># waiting_items s"
      using waiting_remove [OF p(3) c] entry_sel(1) [OF p(1)] by (simp add: dq_Add_def)
    with False e show ?thesis by (simp add: receive_event_def dq_receive_def) (simp add: dq_Add_def)
  qed
qed

lemma add_ready_effect:
  assumes inv: "dq_inv s" and n: "first_ready now s"
  shows "lane_effect s (Delivered (wf_data (wait_entry (pq_Peek (dq_waitingForQueue s)) s)) (dq_clock s)) (add_first s)"
proof -
  let ?h = "dq_waitingForQueue s"
  have ok: "loop_data_ok s" "heap_inv ?h" "0 < pq_Len ?h" "channelled s \<inter> ph_members ?h = {}"
    using inv n by (simp_all add: dq_inv_def loop_data_ok_def first_ready_def)
  then have ne: "ph_members ?h \<noteq> {}" by (auto simp: ph_members_def pq_Len_def)
  let ?p = "pq_Peek ?h"
  have p: "?p \<in> ph_members ?h" by (rule entry_heap.peek_in [OF ok(2) ne])
  have "?p < length (ph_store ?h)" using entry_heap.member_entry [OF ok(2) p] by (simp add: heap_lengths)
  moreover have "dq_waitingForQueue (add_first s) = snd (heap_Pop ?h)" "channelled (add_first s) = channelled s"
    by (simp_all add: add_first_def Let_def dq_Add_def channelled_def split: prod.split)
  then have "ph_members (dq_waitingForQueue (add_first s)) = ph_members ?h - {?p}" "channelled (add_first s) = channelled s"
    using entry_heap.pop_ok [OF ok(2) ne] by simp_all
  then have "pending_ptrs (add_first s) \<subseteq> pending_ptrs s - {?p}" using ok(4) p by (auto simp: pending_ptrs_def)
  moreover note f = add_first_deadline(5,7) [OF ok(1,3)]
  ultimately show ?thesis using waiting_remove [of ?p s "add_first s"] p entry_sel(1) [of ?p s] by (simp add: pending_ptrs_def)
qed

lemma after_effect:
  assumes inv: "dq_inv s"
  shows "lane_effect s (request_event x d s) (dq_AddAfter x d s)"
proof (cases "wq_shuttingDown (dq_Interface s) \<or> d \<le> 0")
  case True
  then have "pending_ptrs (dq_AddAfter x d s) = pending_ptrs s" "dq_waitingForQueue (dq_AddAfter x d s) = dq_waitingForQueue s"
    by (auto simp: dq_AddAfter_def dq_Add_def pending_ptrs_def channelled_def)
  with True show ?thesis by (auto simp: request_event_def waiting_items_def dq_AddAfter_def dq_Add_def)
next
  case False
  let ?h = "dq_waitingForQueue s" and ?s' = "dq_AddAfter x d s"
  let ?p = "length (ph_store ?h)"
  have lt: "q < ?p" if "q \<in> pending_ptrs s" for q
    using that inv entry_heap.member_entry [of ?h q] by (auto simp: dq_inv_def loop_data_ok_def pending_ptrs_def heap_lengths)
  have s': "pending_ptrs ?s' = insert ?p (pending_ptrs s)" "ph_data (dq_waitingForQueue ?s') = ph_data ?h @ [x]"
    using False by (auto simp: dq_AddAfter_def Let_def pending_ptrs_def channelled_def ph_members_def ph_data_def)
  have "mset_set (insert ?p (pending_ptrs s)) = add_mset ?p (mset_set (pending_ptrs s))" using lt by (intro mset_set.insert) auto
  moreover have "image_mset (\<lambda>q. (ph_data ?h @ [x]) ! q) (mset_set (pending_ptrs s)) = waiting_items s"
    unfolding waiting_items_def using lt by (intro image_mset_cong) (simp add: nth_append heap_lengths)
  ultimately have "waiting_items ?s' = add_mset x (waiting_items s)"
    by (simp add: waiting_items_def [of ?s'] s' nth_append heap_lengths)
  with False show ?thesis by (simp add: request_event_def dq_AddAfter_def Let_def)
qed

lemma own_effect: "dq_own s e s' \<Longrightarrow> dq_inv s \<Longrightarrow> lane_effect s e s'"
proof (induction rule: dq_own.induct)
  case (receive s now tm p rest)
  then show ?case by (intro receive_effect)
next
  case (add_ready s now)
  then show ?case by (intro add_ready_effect)
next
  case (after s x d)
  then show ?case by (intro after_effect)
qed (auto intro!: waiting_mono simp: pending_ptrs_def channelled_def)

text \<open>The two-lane queue whose fast lane is the delaying queue: the first component holds the fast lane, so that the
  fast lane and the waiting list of the second are not used.\<close>

inductive lane_step :: "'a delaying \<times> 'a two_lane \<Rightarrow> 'a delaying \<times> 'a two_lane \<Rightarrow> bool" where
  delay: "dq_own s e s' \<Longrightarrow> lane_step (s, q2) (s', q2)"
| shut_lanes: "lane_step (s, q2) (dq_ShutDown s, q2\<lparr>tl_slow := wq_ShutDown (tl_slow q2)\<rparr>)"
| others: "tl_step (q2\<lparr>tl_fast := dq_Interface s\<rparr>) q2' \<Longrightarrow> tl_waiting q2' = [] \<Longrightarrow>
     wq_shuttingDown (tl_fast q2') = wq_shuttingDown (dq_Interface s) \<Longrightarrow>
     lane_step (s, q2) (s\<lparr>dq_Interface := tl_fast q2'\<rparr>, q2')"

inductive lane_reach :: "'a delaying \<times> 'a two_lane \<Rightarrow> bool" where
  lane_start: "lane_reach (newDelayingQueue now, newTwoLaneWorkQueue)"
| lane_next: "lane_reach c \<Longrightarrow> lane_step c c' \<Longrightarrow> lane_reach c'"

lemma waiting_last [simp]:
  "a\<lparr>tl_waiting := W, tl_fast := f\<rparr> = a\<lparr>tl_fast := f, tl_waiting := W\<rparr>"
  "a\<lparr>tl_waiting := W, tl_slow := f\<rparr> = a\<lparr>tl_slow := f, tl_waiting := W\<rparr>"
  "a\<lparr>tl_waiting := W, tl_consumer := f\<rparr> = a\<lparr>tl_consumer := f, tl_waiting := W\<rparr>"
  "a\<lparr>tl_waiting := W, tl_fast_hand := h\<rparr> = a\<lparr>tl_fast_hand := h, tl_waiting := W\<rparr>"
  "a\<lparr>tl_waiting := W, tl_slow_hand := h\<rparr> = a\<lparr>tl_slow_hand := h, tl_waiting := W\<rparr>"
  "a\<lparr>tl_waiting := W, tl_held := hs\<rparr> = a\<lparr>tl_held := hs, tl_waiting := W\<rparr>"
  by (cases a; simp)+

lemma slow_last: "a\<lparr>tl_slow := g, tl_fast := f\<rparr> = a\<lparr>tl_fast := f, tl_slow := g\<rparr>"
  by (cases a) simp

text \<open>Steps that do not touch the waiting list can be taken with any.\<close>

lemma tl_step_frame:
  assumes "tl_step a b" "tl_waiting a = []" "tl_waiting b = []"
  shows "tl_step (a\<lparr>tl_waiting := W\<rparr>) (b\<lparr>tl_waiting := W\<rparr>)"
proof -
  let ?a = "a\<lparr>tl_waiting := W\<rparr>"
  show ?thesis using assms(1)
  proof cases
    case (add_fast x)
    then show ?thesis using tl_step.add_fast [of ?a x] by simp
  next
    case (add_slow x)
    then show ?thesis using tl_step.add_slow [of ?a x] by simp
  next
    case (add_after x d)
    with assms(2,3) show ?thesis using tl_step.add_after [of ?a x d] by (auto simp: tl_AddAfter_def split: if_splits)
  next
    case (delay_over pre x d post)
    with assms(2) show ?thesis by simp
  next
    case (fast_get x q)
    then show ?thesis using tl_step.fast_get [of ?a x q] by simp
  next
    case (fast_done x)
    then show ?thesis using tl_step.fast_done [of ?a x] by simp
  next
    case (fast_send x)
    then show ?thesis using tl_step.fast_send [of ?a x] by simp
  next
    case (slow_get x q)
    then show ?thesis using tl_step.slow_get [of ?a x q] by simp
  next
    case (slow_done x)
    then show ?thesis using tl_step.slow_done [of ?a x] by simp
  next
    case (slow_send x)
    then show ?thesis using tl_step.slow_send [of ?a x] by simp
  next
    case (fast_close q)
    then show ?thesis using tl_step.fast_close [of ?a q] by simp
  next
    case (slow_close q)
    then show ?thesis using tl_step.slow_close [of ?a q] by simp
  next
    case consumer_stop
    then show ?thesis using tl_step.consumer_stop [of ?a] by simp
  next
    case (worker_get x q)
    then show ?thesis using tl_step.worker_get [of ?a x q] by simp
  next
    case (worker_done x)
    then show ?thesis using tl_step.worker_done [of x ?a] by simp
  next
    case shut_down
    then show ?thesis using tl_step.shut_down [of ?a] by simp
  qed
qed

definition lane_abs :: "'a delaying \<Rightarrow> 'a two_lane \<Rightarrow> ('a \<times> duration) list \<Rightarrow> 'a two_lane" where
  "lane_abs s q2 W = q2\<lparr>tl_fast := dq_Interface s, tl_waiting := W\<rparr>"

definition lane_rel :: "'a delaying \<Rightarrow> 'a two_lane \<Rightarrow> ('a \<times> duration) list \<Rightarrow> bool" where
  "lane_rel s q2 W \<longleftrightarrow> tl_reach (lane_abs s q2 W) \<and> waiting_items s \<subseteq># image_mset fst (mset W)"

text \<open>A step of the delaying queue is at most one of the two-lane queue.\<close>

lemma own_simulated:
  assumes rel: "lane_rel s q2 W" and own: "dq_own s e s'" and inv: "dq_inv s"
  shows "\<exists>W'. lane_rel s' q2 W'"
proof -
  have reach: "tl_reach (lane_abs s q2 W)" and items: "waiting_items s \<subseteq># image_mset fst (mset W)" using rel by (simp_all add: lane_rel_def)
  note eff = own_effect [OF own inv]
  show ?thesis
  proof (cases e)
    case Internal
    with eff have w: "waiting_items s' \<subseteq># image_mset fst (mset W)" using items by (auto intro: subset_mset.order_trans)
    from eff Internal consider "dq_Interface s' = dq_Interface s" | x where "dq_Interface s' = wq_Add x (dq_Interface s)" by auto
    then have "tl_reach (lane_abs s' q2 W)"
    proof cases
      case 1
      with reach show ?thesis by (simp add: lane_abs_def)
    next
      case (2 x)
      with tl_next [OF reach tl_step.add_fast [of _ x]] show ?thesis by (simp add: lane_abs_def)
    qed
    with w show ?thesis by (auto simp: lane_rel_def)
  next
    case (Requested x r)
    let ?d = "r - dq_clock s"
    have "tl_AddAfter x ?d (lane_abs s q2 W) = lane_abs s' q2 (W @ [(x, ?d)])"
      using eff Requested by (simp add: tl_AddAfter_def lane_abs_def)
    with tl_next [OF reach tl_step.add_after [of _ x ?d]] have "tl_reach (lane_abs s' q2 (W @ [(x, ?d)]))" by simp
    moreover have "waiting_items s' \<subseteq># image_mset fst (mset (W @ [(x, ?d)]))"
      using eff Requested items by (auto intro: subset_mset.order_trans)
    ultimately show ?thesis by (auto simp: lane_rel_def)
  next
    case (Delivered x t)
    with eff items have sub: "add_mset x (waiting_items s') \<subseteq># image_mset fst (mset W)" by (auto intro: subset_mset.order_trans)
    then have "x \<in># image_mset fst (mset W)" by (meson mset_subset_eqD union_single_eq_member)
    then obtain d where "(x, d) \<in> set W" by auto
    then obtain pre post where W: "W = pre @ (x, d) # post" by (meson split_list)
    have "tl_reach (lane_abs s' q2 (pre @ post))"
      using tl_next [OF reach tl_step.delay_over [of _ pre x d post]] eff Delivered W by (simp add: lane_abs_def)
    moreover have "waiting_items s' \<subseteq># image_mset fst (mset (pre @ post))" using sub by (simp add: W)
    ultimately show ?thesis by (auto simp: lane_rel_def)
  qed
qed

lemma own_stopped: "dq_own s e s' \<Longrightarrow> dq_stopped s' = dq_stopped s"
  by (induction rule: dq_own.induct)
    (auto simp: dq_AddAfter_def dq_Add_def add_first_def dq_receive_def dq_insert_def Let_def split: prod.split option.split)

lemma own_shutting: "dq_own s e s' \<Longrightarrow> dq_inv s \<Longrightarrow> wq_shuttingDown (dq_Interface s') = wq_shuttingDown (dq_Interface s)"
  using own_effect [of s e s'] by (cases e) (auto simp: wq_Add_sel)

lemma lane_refines:
  fixes s :: "'a delaying"
  shows "lane_reach (s, q2) \<Longrightarrow>
     dq_inv s \<and> tl_waiting q2 = [] \<and> (dq_stopped s \<longrightarrow> wq_shuttingDown (dq_Interface s)) \<and> (\<exists>W. lane_rel s q2 W)"
proof (induction "(s, q2)" arbitrary: s q2 rule: lane_reach.induct)
  case (lane_start now)
  have "lane_abs (newDelayingQueue now :: 'a delaying) newTwoLaneWorkQueue [] = newTwoLaneWorkQueue"
    by (simp add: lane_abs_def newDelayingQueue_def newTwoLaneWorkQueue_def)
  moreover have "waiting_items (newDelayingQueue now :: 'a delaying) = {#}"
    by (simp add: waiting_items_def pending_ptrs_def channelled_def ph_members_def newDelayingQueue_def heap_Init_def pq_Len_def)
  ultimately have "lane_rel (newDelayingQueue now :: 'a delaying) newTwoLaneWorkQueue []" using tl_init by (simp add: lane_rel_def)
  then show ?case using new_inv by (auto simp: newTwoLaneWorkQueue_def newDelayingQueue_def)
next
  case (lane_next c s' q2')
  obtain s q2 where c: "c = (s, q2)" by fastforce
  from lane_next(2) [OF c] obtain W where ih: "dq_inv s" "tl_waiting q2 = []" "lane_rel s q2 W"
    "dq_stopped s \<longrightarrow> wq_shuttingDown (dq_Interface s)" by blast
  from lane_next(3) [unfolded c] show ?case
  proof cases
    case (delay e)
    have "dq_inv s'" using dq_own_ok [OF delay(2) ih(1)] by (simp add: step_ok_def)
    with delay(1) own_simulated [OF ih(3) delay(2) ih(1)] own_stopped [OF delay(2)] own_shutting [OF delay(2) ih(1)] ih(2,4)
    show ?thesis by simp
  next
    case shut_lanes
    have "wq_ShutDown (dq_Interface s) = dq_Interface s" if "dq_stopped s" using ih(4) that by (simp add: wq_ShutDown_def)
    then have i: "dq_Interface s' = wq_ShutDown (dq_Interface s)" using shut_lanes(1) by (auto simp: dq_ShutDown_def)
    have same: "dq_waitingForQueue s' = dq_waitingForQueue s" "dq_waitingEntryByData s' = dq_waitingEntryByData s" "dq_senders s' = dq_senders s"
      "dq_waitingForAddCh s' = dq_waitingForAddCh s" "dq_stopped s'" "dq_loop s' = dq_loop s" "dq_clock s' = dq_clock s"
      using shut_lanes(1) by (auto simp: dq_ShutDown_def)
    then have "dq_inv s'" "waiting_items s' = waiting_items s"
      using step_ok_frame [OF ih(1), of s'] by (simp_all add: step_ok_def waiting_items_def pending_ptrs_def channelled_def)
    moreover have "tl_reach (lane_abs s' q2' W)"
      using tl_next [OF _ tl_step.shut_down [of "lane_abs s q2 W"]] ih(3) i shut_lanes(2) by (simp add: lane_rel_def lane_abs_def slow_last)
    ultimately have "lane_rel s' q2' W" using ih(3) by (simp add: lane_rel_def)
    with \<open>dq_inv s'\<close> i ih(2) shut_lanes(2) show ?thesis by (auto simp: wq_ShutDown_def)
  next
    case others
    have b: "dq_inv s'" using others(1) step_ok_frame [OF ih(1), of s'] by (simp add: step_ok_def)
    have w: "waiting_items s' = waiting_items s" by (simp add: others(1) waiting_items_def pending_ptrs_def channelled_def)
    have "tl_step (lane_abs s q2 W) (q2'\<lparr>tl_waiting := W\<rparr>)"
      using tl_step_frame [OF others(2), of W] ih(2) others(3) by (simp add: lane_abs_def)
    moreover have "lane_abs s' q2' W = q2'\<lparr>tl_waiting := W\<rparr>" by (simp add: lane_abs_def others(1))
    ultimately have "lane_rel s' q2' W" using ih(3) w tl_next [of "lane_abs s q2 W"] by (simp add: lane_rel_def)
    with b others(1,3,4) ih(4) show ?thesis by auto
  qed
qed

subsection \<open>Properties\<close>



end
