(* ===== verification/Config_Store.thy ===== *)
theory Config_Store
  imports Common
begin

section \<open>Resolver configuration\<close>

text \<open>
  \<^verbatim>\<open>pkg/resolver/framework/configstore.go\<close> over knative's \<^verbatim>\<open>configmap.UntypedStore\<close>. The storages of the
  untyped store are cells, one per registered config name, that hold nothing until the first
  change of the ConfigMap. Loading or changing a name that was never registered dereferences a
  nil pointer; that panic is the value \<open>None\<close>, and a store made by \<open>NewConfigStore\<close> never gives
  it. Every constructor registered in the program is \<^verbatim>\<open>DataFromConfigMap\<close>, which returns no error.
\<close>

record config_map =
  cm_name :: string
  cm_data :: gomap

definition DataFromConfigMap :: "config_map option \<Rightarrow> gomap" where
  "DataFromConfigMap config =
     (case config of None \<Rightarrow> Some [] | Some cm \<Rightarrow> Some (copy_range [] (go_entries (cm_data cm))))"

subsection \<open>The untyped store\<close>

record untyped_store =
  us_name :: string
  us_storages :: "(string \<times> gomap option) list"

definition NewUntypedStore :: "string \<Rightarrow> string list \<Rightarrow> untyped_store" where
  "NewUntypedStore name configNames = \<lparr> us_name = name, us_storages = map (\<lambda>n. (n, None)) configNames \<rparr>"

definition UntypedLoad :: "untyped_store \<Rightarrow> string \<Rightarrow> gomap option option" where
  "UntypedLoad s name = map_of (us_storages s) name"

definition OnConfigChanged :: "untyped_store \<Rightarrow> config_map \<Rightarrow> untyped_store option" where
  "OnConfigChanged s c =
     (case map_of (us_storages s) (cm_name c) of
        None \<Rightarrow> None
      | Some _ \<Rightarrow> Some (s\<lparr>us_storages := AList.update (cm_name c) (Some (DataFromConfigMap (Some c))) (us_storages s)\<rparr>))"

subsection \<open>The resolver's store\<close>

record config_store =
  cs_resolverConfigName :: string
  cs_untyped :: untyped_store

definition NewConfigStore :: "string \<Rightarrow> config_store" where
  "NewConfigStore resolverConfigName =
     \<lparr> cs_resolverConfigName = resolverConfigName,
       cs_untyped = NewUntypedStore ''resolver-config'' [resolverConfigName] \<rparr>"

definition GetResolverConfig :: "config_store \<Rightarrow> gomap option" where
  "GetResolverConfig store =
     (case UntypedLoad (cs_untyped store) (cs_resolverConfigName store) of
        None \<Rightarrow> None
      | Some untypedConf \<Rightarrow>
          Some (case untypedConf of Some conf \<Rightarrow> Some (copy_range [] (go_entries conf)) | None \<Rightarrow> Some []))"

definition InjectResolverConfigToContext :: "ctx \<Rightarrow> gomap \<Rightarrow> ctx" where
  "InjectResolverConfigToContext c conf = WithValue c ResolverConfigKey (MapVal conf)"

definition ToContext :: "config_store \<Rightarrow> ctx \<Rightarrow> ctx option" where
  "ToContext store c = map_option (InjectResolverConfigToContext c) (GetResolverConfig store)"

definition GetResolverConfigFromContext :: "ctx \<Rightarrow> gomap" where
  "GetResolverConfigFromContext c =
     (case ctx_value c ResolverConfigKey of Some (MapVal conf) \<Rightarrow> conf | _ \<Rightarrow> Some [])"

subsection \<open>Invariant and lemmas\<close>

definition store_wf :: "config_store \<Rightarrow> bool" where
  "store_wf store \<longleftrightarrow> map_of (us_storages (cs_untyped store)) (cs_resolverConfigName store) \<noteq> None"

definition change :: "config_store \<Rightarrow> config_map \<Rightarrow> config_store" where
  "change store c =
     (case OnConfigChanged (cs_untyped store) c of None \<Rightarrow> store | Some u \<Rightarrow> store\<lparr>cs_untyped := u\<rparr>)"

lemma NewConfigStore_wf [simp]: "store_wf (NewConfigStore name)"
  by (simp add: store_wf_def NewConfigStore_def NewUntypedStore_def)

lemma change_wf: "store_wf store \<Longrightarrow> store_wf (change store c)"
  by (auto simp: store_wf_def change_def OnConfigChanged_def update_conv split: option.split)

lemma change_name [simp]: "cs_resolverConfigName (change store c) = cs_resolverConfigName store"
  by (simp add: change_def split: option.split)

lemma store_wf_change_all: "store_wf store \<Longrightarrow> store_wf (fold (\<lambda>c s. change s c) cs store)"
  by (induction cs arbitrary: store) (simp_all add: change_wf)

lemma ToContext_total: "store_wf store \<Longrightarrow> ToContext store c \<noteq> None"
  by (auto simp: ToContext_def GetResolverConfig_def UntypedLoad_def store_wf_def split: option.splits)

lemma ToContext_namespace: "ToContext store c = Some c' \<Longrightarrow> RequestNamespace c' = RequestNamespace c"
  by (auto simp: ToContext_def InjectResolverConfigToContext_def RequestNamespace_def)

lemma config_from_context:
  "ToContext store c = Some c' \<Longrightarrow> GetResolverConfig store = Some conf \<Longrightarrow> GetResolverConfigFromContext c' = conf"
  by (auto simp: ToContext_def InjectResolverConfigToContext_def GetResolverConfigFromContext_def)

lemma config_after_change:
  assumes "store_wf store" "cm_name cm = cs_resolverConfigName store" "go_wf (cm_data cm)"
  shows "\<exists>conf. GetResolverConfig (change store cm) = Some (Some conf) \<and> conf = go_entries (cm_data cm)"
proof -
  have "distinct (map fst (go_entries (cm_data cm)))" using assms(3) by (simp add: go_wf_def)
  then have cp: "copy_range [] (go_entries (cm_data cm)) = go_entries (cm_data cm)" by (rule copy_range_Nil)
  have "go_entries (Some (go_entries (cm_data cm))) = go_entries (cm_data cm)" by (simp add: go_entries_def)
  with assms(1,2) cp show ?thesis
    by (auto simp: GetResolverConfig_def UntypedLoad_def change_def OnConfigChanged_def store_wf_def update_conv
        DataFromConfigMap_def split: option.split)
qed

lemma config_other_change:
  assumes "cm_name cm \<noteq> cs_resolverConfigName store"
  shows "GetResolverConfig (change store cm) = GetResolverConfig store"
  using assms
  by (auto simp: GetResolverConfig_def UntypedLoad_def change_def OnConfigChanged_def update_conv split: option.splits)

definition latest_config :: "string \<Rightarrow> config_map list \<Rightarrow> (string \<times> string) list" where
  "latest_config n cms =
     (case List.find (\<lambda>cm. cm_name cm = n) (rev cms) of None \<Rightarrow> [] | Some cm \<Rightarrow> go_entries (cm_data cm))"

lemma GetResolverConfig_changes:
  assumes "\<forall>cm \<in> set cms. go_wf (cm_data cm)"
  shows "GetResolverConfig (fold (\<lambda>cm s. change s cm) cms (NewConfigStore n)) = Some (Some (latest_config n cms))"
  using assms
proof (induction cms rule: rev_induct)
  case Nil
  show ?case
    by (simp add: GetResolverConfig_def UntypedLoad_def NewConfigStore_def NewUntypedStore_def latest_config_def)
next
  case (snoc cm cms)
  let ?store = "fold (\<lambda>cm s. change s cm) cms (NewConfigStore n)"
  have name: "cs_resolverConfigName (fold (\<lambda>cm s. change s cm) xs s) = cs_resolverConfigName s" for xs s
    by (induction xs arbitrary: s) simp_all
  have n: "cs_resolverConfigName ?store = n" by (simp add: name) (simp add: NewConfigStore_def)
  have wf: "store_wf ?store" by (rule store_wf_change_all) simp
  show ?case
  proof (cases "cm_name cm = n")
    case True
    with config_after_change [OF wf, of cm] n snoc.prems show ?thesis by (simp add: latest_config_def)
  next
    case False
    with config_other_change [of cm ?store] n snoc show ?thesis by (simp add: latest_config_def)
  qed
qed

subsection \<open>Properties\<close>



end
