(* ===== verification/Base64.thy ===== *)
theory Base64
  imports Common
begin

section \<open>Strict standard base64\<close>

text \<open>
  \<^verbatim>\<open>base64.StdEncoding.Strict()\<close>, which \<^verbatim>\<open>writeResolvedData\<close> encodes with
  (\<^verbatim>\<open>pkg/resolver/framework/reconciler.go\<close>) and \<^verbatim>\<open>readOnlyResolutionRequest.Data\<close> decodes with
  (\<^verbatim>\<open>pkg/resource/crd_resource.go\<close>). Bytes are characters. The decoder follows
  \<^verbatim>\<open>decodeQuantum\<close>: it skips carriage returns and newlines, wants padding, refuses what
  follows the padding, and being strict refuses padding bits that are not zero. An error is
  the offset of \<^verbatim>\<open>CorruptInputError\<close>.
\<close>

subsection \<open>Encoding\<close>

definition alphabet :: string where
  "alphabet = ''ABCDEFGHIJKLMNOPQRSTUVWXYZabcdefghijklmnopqrstuvwxyz0123456789+/''"

definition sym :: "nat \<Rightarrow> char" where
  "sym n = alphabet ! n"

fun b64_encode :: "string \<Rightarrow> string" where
  "b64_encode [] = []"
| "b64_encode [a] = [sym (byte a div 4), sym (byte a mod 4 * 16), CHR ''='', CHR ''='']"
| "b64_encode [a, b] =
     [sym (byte a div 4), sym (byte a mod 4 * 16 + byte b div 16), sym (byte b mod 16 * 4), CHR ''='']"
| "b64_encode (a # b # c # rest) =
     sym (byte a div 4) # sym (byte a mod 4 * 16 + byte b div 16) #
     sym (byte b mod 16 * 4 + byte c div 64) # sym (byte c mod 64) # b64_encode rest"

subsection \<open>Decoding\<close>

definition sym_val :: "char \<Rightarrow> nat option" where
  "sym_val ch =
     (let n = byte ch in
      if 65 \<le> n \<and> n \<le> 90 then Some (n - 65)
      else if 97 \<le> n \<and> n \<le> 122 then Some (n - 71)
      else if 48 \<le> n \<and> n \<le> 57 then Some (n + 4)
      else if n = 43 then Some 62
      else if n = 47 then Some 63
      else None)"

definition newline :: "char \<Rightarrow> bool" where
  "newline ch \<longleftrightarrow> ch = CHR 0x0A \<or> ch = CHR 0x0D"

text \<open>Skipping newlines: the next offset and the rest of the text.\<close>

fun skip_newlines :: "nat \<Rightarrow> string \<Rightarrow> nat \<times> string" where
  "skip_newlines si [] = (si, [])"
| "skip_newlines si (ch # cs) = (if newline ch then skip_newlines (Suc si) cs else (si, ch # cs))"

text \<open>The end of the text after its padding: \<open>tail\<close> are the bytes of the last quantum,
  \<open>spare\<close> the bits the padding leaves over and \<open>back\<close> what the strict check subtracts from
  the offset. The strict check comes before the check for trailing garbage.\<close>

definition finish :: "nat \<Rightarrow> string \<Rightarrow> string \<Rightarrow> nat \<Rightarrow> nat \<Rightarrow> nat + string" where
  "finish si rest tail spare back =
     (case skip_newlines si rest of (si', rest') \<Rightarrow>
        if spare \<noteq> 0 then Inl (si' - back)
        else if rest' \<noteq> [] then Inl si'
        else Inr tail)"

fun b64_loop :: "nat \<Rightarrow> nat list \<Rightarrow> string \<Rightarrow> nat + string" where
  "b64_loop si buf [] = (if buf = [] then Inr [] else Inl (si - length buf))"
| "b64_loop si buf (ch # cs) =
     (case sym_val ch of
        Some v \<Rightarrow>
          (case buf of
             [p, q, r] \<Rightarrow>
               map_sum id (\<lambda>bs. [chr (p * 4 + q div 16), chr (q mod 16 * 16 + r div 4), chr (r mod 4 * 64 + v)] @ bs)
                 (b64_loop (Suc si) [] cs)
           | _ \<Rightarrow> b64_loop (Suc si) (buf @ [v]) cs)
      | None \<Rightarrow>
          if newline ch then b64_loop (Suc si) buf cs
          else if ch \<noteq> CHR ''='' then Inl si
          else (case buf of
             [p, q] \<Rightarrow>
               (case skip_newlines (Suc si) cs of
                  (si', []) \<Rightarrow> Inl si'
                | (si', d # ds) \<Rightarrow>
                    if d \<noteq> CHR ''='' then Inl (si' - 1)
                    else finish (Suc si') ds [chr (p * 4 + q div 16)] (q mod 16) 2)
           | [p, q, r] \<Rightarrow>
               finish (Suc si) cs [chr (p * 4 + q div 16), chr (q mod 16 * 16 + r div 4)] (r mod 4) 1
           | _ \<Rightarrow> Inl si))"

definition b64_decode :: "string \<Rightarrow> nat + string" where
  "b64_decode s = b64_loop 0 [] s"

subsection \<open>Symbols\<close>

lemma alphabet_length: "length alphabet = 64"
  by (simp add: alphabet_def)

lemma alphabet_values: "map sym_val alphabet = map Some [0..<64]"
  by (simp add: alphabet_def sym_val_def upt_rec)

lemma sym_val_sym [simp]:
  assumes "n < 64"
  shows "sym_val (sym n) = Some n"
proof -
  have "sym_val (sym n) = map sym_val alphabet ! n"
    using assms by (simp add: sym_def alphabet_length)
  also have "\<dots> = Some n" unfolding alphabet_values using assms by simp
  finally show ?thesis .
qed

lemma sym_val_pad [simp]: "sym_val (CHR ''='') = None"
  by (simp add: sym_val_def)

lemma byte_less: "byte ch < 256"
  by simp

lemma byte_div4 [simp]: "byte ch div 4 < 64"
  using byte_less [of ch] by linarith

lemma byte_div16 [simp]: "byte ch div 16 < 16"
  using byte_less [of ch] by linarith

lemma byte_div64 [simp]: "byte ch div 64 < 4"
  using byte_less [of ch] by linarith

lemma mix_bounds [simp]:
  "x mod 4 * 16 + byte b div 16 < 64" "x mod 16 * 4 + byte ch div 64 < 64"
  "x mod 4 * 16 < (64 :: nat)" "x mod 16 * 4 < (64 :: nat)"
  using byte_div16 [of b] byte_div64 [of ch] mod_less_divisor [of 4 x] mod_less_divisor [of 16 x]
  by linarith+

lemma chr_byte [simp]: "chr (byte ch) = ch"
  by (simp add: chr_def)

lemma regroup:
  fixes a b c :: nat
  assumes "b < 256" "c < 256"
  shows "a div 4 * 4 + (a mod 4 * 16 + b div 16) div 16 = a"
    "(a mod 4 * 16 + b div 16) mod 16 * 16 + (b mod 16 * 4 + c div 64) div 4 = b"
    "(b mod 16 * 4 + c div 64) mod 4 * 64 + c mod 64 = c"
    "a div 4 * 4 + a mod 4 * 16 div 16 = a"
    "a mod 4 * 16 mod 16 = 0"
    "(a mod 4 * 16 + b div 16) mod 16 * 16 + b mod 16 * 4 div 4 = b"
    "b mod 16 * 4 mod 4 = 0"
proof -
  have b: "b div 16 < 16" and c: "c div 64 < 4" using assms by linarith+
  show "a div 4 * 4 + (a mod 4 * 16 + b div 16) div 16 = a" using b by simp
  show "(b mod 16 * 4 + c div 64) mod 4 * 64 + c mod 64 = c"
    using c by (simp add: mod_add_left_eq [symmetric, of "b mod 16 * 4" 4 "c div 64"])
  have "(a mod 4 * 16 + b div 16) mod 16 = b div 16" using b by simp
  moreover have "(b mod 16 * 4 + c div 64) div 4 = b mod 16" using c by simp
  ultimately show "(a mod 4 * 16 + b div 16) mod 16 * 16 + (b mod 16 * 4 + c div 64) div 4 = b" by simp
  show "(a mod 4 * 16 + b div 16) mod 16 * 16 + b mod 16 * 4 div 4 = b" using b by simp
qed simp_all

subsection \<open>Round trip\<close>

lemma b64_loop_encode: "b64_loop si [] (b64_encode bs) = Inr bs"
proof (induction bs arbitrary: si rule: b64_encode.induct)
  case (4 a b c rest)
  then show ?case by (simp add: regroup)
qed (simp_all add: finish_def regroup newline_def)

lemma b64_encode_eq_Nil [simp]: "b64_encode bs = [] \<longleftrightarrow> bs = []"
  by (cases bs rule: b64_encode.cases) auto

lemma b64_encode_length: "length (b64_encode bs) = 4 * ((length bs + 2) div 3)"
proof (induction bs rule: b64_encode.induct)
  case (4 a b c rest)
  have "(5 + length rest) div 3 = Suc ((length rest + 2) div 3)" by simp
  with 4 show ?case by simp
qed auto

lemma b64_encode_alphabet: "set (b64_encode bs) \<subseteq> insert (CHR ''='') (set alphabet)"
proof -
  have "sym n \<in> set alphabet" if "n < 64" for n
    using that nth_mem [of n alphabet] by (simp add: sym_def alphabet_def)
  then show ?thesis
    by (induction bs rule: b64_encode.induct) simp_all
qed

subsection \<open>Strictness: the decoder accepts canonical text only\<close>

lemma sym_val_bound: "sym_val ch = Some v \<Longrightarrow> v < 64"
  by (auto simp: sym_val_def Let_def split: if_splits)

lemma sym_val_inj: "sym_val a = Some v \<Longrightarrow> sym_val b = Some v \<Longrightarrow> a = b"
proof -
  assume "sym_val a = Some v" "sym_val b = Some v"
  then have "byte a = byte b"
    by (auto simp: sym_val_def Let_def split: if_splits simp del: of_char_eq_iff)
  then show ?thesis by simp
qed

lemma sym_of_val: "sym_val ch = Some v \<Longrightarrow> sym v = ch"
  using sym_val_inj [of "sym v" v ch] sym_val_sym [OF sym_val_bound] by blast

lemma byte_chr: "n < 256 \<Longrightarrow> byte (chr n) = n"
  by (simp add: chr_def)

lemma ungroup:
  fixes p q r v :: nat
  assumes "p < 64" "q < 64" "r < 64" "v < 64"
  shows "byte (chr (p * 4 + q div 16)) = p * 4 + q div 16"
    "byte (chr (q mod 16 * 16 + r div 4)) = q mod 16 * 16 + r div 4"
    "byte (chr (r mod 4 * 64 + v)) = r mod 4 * 64 + v"
    "(p * 4 + q div 16) div 4 = p" "(p * 4 + q div 16) mod 4 = q div 16"
    "(q mod 16 * 16 + r div 4) div 16 = q mod 16" "(q mod 16 * 16 + r div 4) mod 16 = r div 4"
    "(r mod 4 * 64 + v) div 64 = r mod 4" "(r mod 4 * 64 + v) mod 64 = v"
    "q div 16 * 16 + q mod 16 = q" "r div 4 * 4 + r mod 4 = r"
proof -
  have q: "q div 16 < 4" "q mod 16 < 16" and r: "r div 4 < 16" "r mod 4 < 4" using assms by auto
  show "byte (chr (p * 4 + q div 16)) = p * 4 + q div 16"
    using assms(1) q by (intro byte_chr) linarith
  show "byte (chr (q mod 16 * 16 + r div 4)) = q mod 16 * 16 + r div 4"
    using q r by (intro byte_chr) linarith
  show "byte (chr (r mod 4 * 64 + v)) = r mod 4 * 64 + v"
    using r assms(4) by (intro byte_chr) linarith
qed (use assms in auto)

lemma skip_newlines_none: "list_all (\<lambda>ch. \<not> newline ch) s \<Longrightarrow> skip_newlines si s = (si, s)"
  by (cases s) auto

lemma finish_InrD:
  "finish si rest tail spare back = Inr bs \<Longrightarrow> list_all (\<lambda>ch. \<not> newline ch) rest \<Longrightarrow>
   rest = [] \<and> spare = 0 \<and> bs = tail"
  by (auto simp: finish_def skip_newlines_none split: if_splits)

definition buf_ok :: "nat list \<Rightarrow> bool" where
  "buf_ok buf \<longleftrightarrow> length buf \<le> 3 \<and> list_all (\<lambda>v. v < 64) buf"

lemma buf_cases:
  assumes "buf_ok buf"
  obtains "buf = []" | p where "buf = [p]" | p q where "buf = [p, q]" | p q r where "buf = [p, q, r]"
proof -
  have "length buf = 0 \<or> length buf = 1 \<or> length buf = 2 \<or> length buf = 3"
    using assms unfolding buf_ok_def by linarith
  then show ?thesis
    using that by (auto simp: numeral_eq_Suc length_Suc_conv)
qed

lemma b64_loop_pad:
  assumes "b64_loop si buf (CHR ''='' # cs) = Inr bs" "buf_ok buf" "list_all (\<lambda>ch. \<not> newline ch) cs"
  shows "map sym buf @ CHR ''='' # cs = b64_encode bs"
  using assms(2)
proof (cases rule: buf_cases)
  case (3 p q)
  with assms obtain ds where "cs = CHR ''='' # ds"
    "finish (Suc (Suc si)) ds [chr (p * 4 + q div 16)] (q mod 16) 2 = Inr bs"
    by (cases cs) (auto simp: newline_def skip_newlines_none split: if_splits)
  with assms have "cs = [CHR ''='']" "q mod 16 = 0" "bs = [chr (p * 4 + q div 16)]"
    by (auto dest: finish_InrD)
  moreover have "p < 64" "q < 64" using assms(2) 3 by (auto simp: buf_ok_def)
  ultimately show ?thesis using 3 div_mult_mod_eq [of q 16] by (simp add: ungroup)
next
  case (4 p q r)
  with assms have "finish (Suc si) cs [chr (p * 4 + q div 16), chr (q mod 16 * 16 + r div 4)] (r mod 4) 1 = Inr bs"
    by (simp add: newline_def)
  with assms(3) have "cs = []" "r mod 4 = 0" "bs = [chr (p * 4 + q div 16), chr (q mod 16 * 16 + r div 4)]"
    by (auto dest: finish_InrD)
  moreover have "p < 64" "q < 64" "r < 64" using assms(2) 4 by (auto simp: buf_ok_def)
  ultimately show ?thesis using 4 div_mult_mod_eq [of r 4] by (simp add: ungroup)
qed (use assms in \<open>simp_all add: newline_def\<close>)

lemma b64_loop_canonical:
  "b64_loop si buf s = Inr bs \<Longrightarrow> buf_ok buf \<Longrightarrow> list_all (\<lambda>ch. \<not> newline ch) s \<Longrightarrow>
   map sym buf @ s = b64_encode bs"
proof (induction s arbitrary: si buf bs)
  case Nil
  then show ?case by (auto split: if_splits)
next
  case (Cons ch cs)
  show ?case
  proof (cases "sym_val ch")
    case None
    with Cons.prems have "ch = CHR ''=''" by (auto split: if_splits)
    with Cons.prems b64_loop_pad show ?thesis by simp
  next
    case (Some v)
    note v = sym_val_bound [OF Some] sym_of_val [OF Some]
    show ?thesis
    proof (cases "length buf = 3")
      case True
      then obtain p q r where buf: "buf = [p, q, r]"
        by (auto simp: numeral_eq_Suc length_Suc_conv)
      from Cons.prems(1) Some buf obtain bs' where bs': "b64_loop (Suc si) [] cs = Inr bs'"
        "bs = [chr (p * 4 + q div 16), chr (q mod 16 * 16 + r div 4), chr (r mod 4 * 64 + v)] @ bs'"
        by (cases "b64_loop (Suc si) [] cs") auto
      have "cs = b64_encode bs'" using Cons.IH [OF bs'(1)] Cons.prems by (simp add: buf_ok_def)
      moreover have "p < 64" "q < 64" "r < 64" using Cons.prems(2) buf by (auto simp: buf_ok_def)
      ultimately show ?thesis using buf v bs'(2) by (simp add: ungroup)
    next
      case False
      with Cons.prems Some v have "b64_loop (Suc si) (buf @ [v]) cs = Inr bs" "buf_ok (buf @ [v])"
        by (auto simp: buf_ok_def split: list.splits)
      with Cons.IH Cons.prems v show ?thesis by fastforce
    qed
  qed
qed

subsection \<open>The interface: a lossless codec\<close>

locale lossless_codec =
  fixes enc :: "string \<Rightarrow> string"
    and dec :: "string \<Rightarrow> 'e + string"
  assumes dec_enc: "dec (enc bs) = Inr bs"
    and enc_empty: "enc bs = [] \<longleftrightarrow> bs = []"
begin

lemma enc_inject: "enc a = enc b \<longleftrightarrow> a = b"
  by (metis dec_enc sum.inject(2))

lemma dec_of_enc_unique: "dec (enc a) = Inr b \<longleftrightarrow> b = a"
  by (auto simp: dec_enc)

end

interpretation b64: lossless_codec b64_encode b64_decode
  by unfold_locales (simp_all add: b64_decode_def b64_loop_encode)

end
