(* ===== verification/Core_Reconciler.thy ===== *)
theory Core_Reconciler
  imports Api
begin

section \<open>The ResolutionRequest reconciler\<close>

text \<open>
  \<^verbatim>\<open>pkg/reconciler/resolutionrequest/resolutionrequest.go\<close>: the controller that initialises a
  request's status, marks it succeeded once a resolver has stored data, and times it out.
  \<open>ReconcileKind\<close> takes the readings of the wall clock as \<open>clk\<close>: \<open>clk 0\<close> when the conditions
  are initialised, \<open>clk 1\<close> in the comparison with the timeout (or in \<^verbatim>\<open>MarkSucceeded\<close>), \<open>clk 2\<close>
  when the condition is marked and \<open>clk 3\<close> in the computation of the delay. It returns the
  object it was given, changed, and the event.
\<close>

definition defaultMaximumResolutionDuration :: duration where
  "defaultMaximumResolutionDuration = minute"

definition requestDuration :: "time \<Rightarrow> rr \<Rightarrow> duration" where
  "requestDuration now r = time_sub now (m_creationTimestamp (meta r))"

definition timeout_message :: string where
  "timeout_message =
     ''resolution took longer than global timeout of '' @ duration_string defaultMaximumResolutionDuration"

definition ReconcileKind :: "clock \<Rightarrow> rr option \<Rightarrow> rr option \<times> err option" where
  "ReconcileKind clk orr =
     (case orr of None \<Rightarrow> (None, None)
      | Some r \<Rightarrow>
        if IsDone r then (Some r, None)
        else
          (let s1 = (if status_condition (rr_status r) = None
                     then InitializeStatus clk (rr_status r) else rr_status r);
               r1 = r\<lparr>rr_status := s1\<rparr> in
           if s_data s1 \<noteq> [] then
             (Some (r1\<lparr>rr_status := MarkSucceeded (\<lambda>_. clk 1) s1\<rparr>), None)
           else if requestDuration (clk 1) r1 > defaultMaximumResolutionDuration then
             (Some (r1\<lparr>rr_status := MarkFailed (\<lambda>_. clk 2) s1 ReasonResolutionTimedOut timeout_message\<rparr>), None)
           else
             (Some (r1\<lparr>rr_status := MarkInProgress (\<lambda>_. clk 2) s1 MessageWaitingForResolver\<rparr>),
              Some (RequeueKeyError
                (dur_sub defaultMaximumResolutionDuration (requestDuration (clk 3) r1))))))"

subsection \<open>The branches\<close>

text \<open>The status that the three marks start from.\<close>

definition initialized :: "clock \<Rightarrow> rr \<Rightarrow> rr_status" where
  "initialized clk r =
     (if status_condition (rr_status r) = None then InitializeStatus clk (rr_status r) else rr_status r)"

lemma initialized_frame [simp]:
  "s_data (initialized clk r) = s_data (rr_status r)"
  "s_annotations (initialized clk r) = s_annotations (rr_status r)"
  "s_observedGeneration (initialized clk r) = s_observedGeneration (rr_status r)"
  by (simp_all add: initialized_def)

lemma initialized_wf [simp]: "status_wf (rr_status r) \<Longrightarrow> status_wf (initialized clk r)"
  by (simp add: initialized_def)

lemma requestDuration_status [simp]: "requestDuration now (r\<lparr>rr_status := s\<rparr>) = requestDuration now r"
  by (simp add: requestDuration_def)

lemma requestDuration_in_int64 [simp]: "in_int64 (requestDuration now r)"
  by (simp add: requestDuration_def)

lemma default_in_int64 [simp]: "in_int64 defaultMaximumResolutionDuration"
  by (simp add: defaultMaximumResolutionDuration_def minute_def in_int64_def min_int64_def max_int64_def)

text \<open>The comparison is exact although the subtraction of times saturates.\<close>

lemma timed_out_iff:
  "requestDuration now r > defaultMaximumResolutionDuration \<longleftrightarrow>
   now - m_creationTimestamp (meta r) > minute"
  unfolding requestDuration_def defaultMaximumResolutionDuration_def
  by (subst time_sub_less_iff) (simp_all add: minute_def in_int64_def min_int64_def max_int64_def)

lemma ReconcileKind_done: "IsDone r \<Longrightarrow> ReconcileKind clk (Some r) = (Some r, None)"
  by (simp add: ReconcileKind_def)

lemma ReconcileKind_data:
  "\<not> IsDone r \<Longrightarrow> s_data (rr_status r) \<noteq> [] \<Longrightarrow>
   ReconcileKind clk (Some r) =
     (Some (r\<lparr>rr_status := MarkSucceeded (\<lambda>_. clk 1) (initialized clk r)\<rparr>), None)"
  by (simp add: ReconcileKind_def Let_def initialized_def)

lemma ReconcileKind_timeout:
  "\<not> IsDone r \<Longrightarrow> s_data (rr_status r) = [] \<Longrightarrow> clk 1 - m_creationTimestamp (meta r) > minute \<Longrightarrow>
   ReconcileKind clk (Some r) =
     (Some (r\<lparr>rr_status := MarkFailed (\<lambda>_. clk 2) (initialized clk r) ReasonResolutionTimedOut timeout_message\<rparr>), None)"
  by (simp add: ReconcileKind_def Let_def initialized_def timed_out_iff)

lemma ReconcileKind_wait:
  "\<not> IsDone r \<Longrightarrow> s_data (rr_status r) = [] \<Longrightarrow> \<not> clk 1 - m_creationTimestamp (meta r) > minute \<Longrightarrow>
   ReconcileKind clk (Some r) =
     (Some (r\<lparr>rr_status := MarkInProgress (\<lambda>_. clk 2) (initialized clk r) MessageWaitingForResolver\<rparr>),
      Some (RequeueKeyError (dur_sub defaultMaximumResolutionDuration (requestDuration (clk 3) r))))"
  by (simp add: ReconcileKind_def Let_def initialized_def timed_out_iff)

lemmas ReconcileKind_branches = ReconcileKind_done ReconcileKind_data ReconcileKind_timeout ReconcileKind_wait

lemma ReconcileKind_cases:
  fixes clk :: clock and r :: rr
  obtains (dn) "IsDone r" | (data) "\<not> IsDone r" "s_data (rr_status r) \<noteq> []"
  | (timeout) "\<not> IsDone r" "s_data (rr_status r) = []" "clk 1 - m_creationTimestamp (meta r) > minute"
  | (wait) "\<not> IsDone r" "s_data (rr_status r) = []" "\<not> clk 1 - m_creationTimestamp (meta r) > minute"
  by blast

lemma ReconcileKind_total: "\<exists>r' ev. ReconcileKind clk (Some r) = (Some r', ev)"
  by (cases r rule: ReconcileKind_cases [where clk = clk]) (simp_all add: ReconcileKind_branches)

text \<open>The reconciler changes the conditions only.\<close>

lemma ReconcileKind_frame:
  assumes "ReconcileKind clk (Some r) = (Some r', ev)"
  shows "meta r' = meta r" "spec_params r' = spec_params r" "s_data (rr_status r') = s_data (rr_status r)"
    "s_annotations (rr_status r') = s_annotations (rr_status r)"
    "s_observedGeneration (rr_status r') = s_observedGeneration (rr_status r)"
    "t_kind r' = t_kind r" "t_apiVersion r' = t_apiVersion r"
  using assms
  by (cases r rule: ReconcileKind_cases [where clk = clk]; auto simp: ReconcileKind_branches)+

lemma ReconcileKind_wf:
  assumes "ReconcileKind clk (Some r) = (Some r', ev)" "rr_wf r"
  shows "rr_wf r'"
  using assms
  by (cases r rule: ReconcileKind_cases [where clk = clk]) (auto simp: ReconcileKind_branches rr_wf_def)

lemma fmt_frac_minute: "fmt_frac 9 False 60000000000 [] = ([], 60)"
proof -
  have nine: "(9::nat) = Suc (Suc (Suc (Suc (Suc (Suc (Suc (Suc (Suc 0))))))))" by simp
  show ?thesis by (subst nine) (simp add: Let_def)
qed

lemma timeout_message_text: "timeout_message = ''resolution took longer than global timeout of 1m0s''"
  by (simp add: timeout_message_def defaultMaximumResolutionDuration_def duration_string_def
      minute_def second_def fmt_frac_minute utoa.simps digit_def)

lemma constant_messages [simp]:
  "sprintf0 MessageWaitingForResolver = MessageWaitingForResolver"
  "sprintf0 timeout_message = timeout_message"
  unfolding MessageWaitingForResolver_def timeout_message_text by (rule sprintf0_no_percent; simp)+

subsection \<open>The condition after a reconciliation\<close>

definition condition_of :: "rr \<Rightarrow> condition option" where
  "condition_of r = status_condition (rr_status r)"

lemma ReconcileKind_conditions:
  assumes "rr_wf r"
  shows "\<not> IsDone r \<Longrightarrow> s_data (rr_status r) \<noteq> [] \<Longrightarrow>
      \<exists>r'. ReconcileKind clk (Some r) = (Some r', None) \<and> IsTrue (condition_of r')"
    and "\<not> IsDone r \<Longrightarrow> s_data (rr_status r) = [] \<Longrightarrow> clk 1 - m_creationTimestamp (meta r) > minute \<Longrightarrow>
      \<exists>r'. ReconcileKind clk (Some r) = (Some r', None) \<and> IsFalse (condition_of r') \<and>
        GetReason (condition_of r') = ReasonResolutionTimedOut \<and> GetMessage (condition_of r') = timeout_message"
    and "\<not> IsDone r \<Longrightarrow> s_data (rr_status r) = [] \<Longrightarrow> \<not> clk 1 - m_creationTimestamp (meta r) > minute \<Longrightarrow>
      \<exists>r'. ReconcileKind clk (Some r) =
          (Some r', Some (RequeueKeyError (dur_sub minute (time_sub (clk 3) (m_creationTimestamp (meta r)))))) \<and>
        IsUnknown (condition_of r') \<and>
        GetReason (condition_of r') = ReasonResolutionInProgress \<and>
        GetMessage (condition_of r') = MessageWaitingForResolver"
proof -
  have wf: "status_wf (initialized clk r)" using assms by (simp add: rr_wf_def)
  note marks = ReconcileKind_branches status_after_mark [OF wf] condition_of_def
  show "\<not> IsDone r \<Longrightarrow> s_data (rr_status r) \<noteq> [] \<Longrightarrow>
      \<exists>r'. ReconcileKind clk (Some r) = (Some r', None) \<and> IsTrue (condition_of r')"
    by (simp add: marks)
  show "\<not> IsDone r \<Longrightarrow> s_data (rr_status r) = [] \<Longrightarrow> clk 1 - m_creationTimestamp (meta r) > minute \<Longrightarrow>
      \<exists>r'. ReconcileKind clk (Some r) = (Some r', None) \<and> IsFalse (condition_of r') \<and>
        GetReason (condition_of r') = ReasonResolutionTimedOut \<and> GetMessage (condition_of r') = timeout_message"
    by (simp add: marks)
  show "\<not> IsDone r \<Longrightarrow> s_data (rr_status r) = [] \<Longrightarrow> \<not> clk 1 - m_creationTimestamp (meta r) > minute \<Longrightarrow>
      \<exists>r'. ReconcileKind clk (Some r) =
          (Some r', Some (RequeueKeyError (dur_sub minute (time_sub (clk 3) (m_creationTimestamp (meta r)))))) \<and>
        IsUnknown (condition_of r') \<and>
        GetReason (condition_of r') = ReasonResolutionInProgress \<and>
        GetMessage (condition_of r') = MessageWaitingForResolver"
    by (simp add: marks defaultMaximumResolutionDuration_def requestDuration_def)
qed

lemma ReconcileKind_IsDone:
  assumes "rr_wf r" "s_data (rr_status r) \<noteq> [] \<or> clk 1 - m_creationTimestamp (meta r) > minute"
  shows "\<exists>r'. ReconcileKind clk (Some r) = (Some r', None) \<and> IsDone r'"
proof (cases r rule: ReconcileKind_cases [where clk = clk])
  case dn
  then show ?thesis by (simp add: ReconcileKind_done)
next
  case data
  with ReconcileKind_conditions(1) [OF assms(1)] show ?thesis
    by (fastforce simp: IsDone_def condition_of_def dest: cond_exclusive)
next
  case timeout
  with ReconcileKind_conditions(2) [OF assms(1)] show ?thesis
    by (fastforce simp: IsDone_def condition_of_def dest: cond_exclusive)
next
  case wait
  with assms(2) show ?thesis by simp
qed

text \<open>The delay asked for ends at the moment the request has lived for a minute, or later when the
  subtraction of times saturates.\<close>

lemma delay_reaches_timeout:
  assumes "created \<le> now"
  shows "now + dur_sub minute (time_sub now created) \<ge> created + minute"
proof -
  have "in_int64 (minute - time_sub now created)" "time_sub now created \<le> now - created"
    using assms by (auto simp: in_int64_def time_sub_def min_int64_def max_int64_def minute_def)
  then show ?thesis by (simp add: dur_sub_def wrap64_id)
qed

lemma example_fresh:
  "\<not> IsDone example_request" "s_data (rr_status example_request) = []"
  "m_creationTimestamp (meta example_request) = 0"
  by (simp_all add: example_request_def empty_status_def empty_meta_def IsDone_def status_condition_def
      GetCondition_def IsUnknown_def)

subsection \<open>Properties\<close>

text \<open>
  C2. The whole behaviour of \<^verbatim>\<open>ReconcileKind\<close> on a well-formed request: a done request is returned
  as it is; a request with data is marked succeeded; a request without data is marked failed
  with the reason \<^verbatim>\<open>ResolutionTimedOut\<close> exactly when more than one minute has passed since its
  creation; otherwise it is marked in progress and requeued for the rest of that minute. The
  result is well-formed, and nothing but the conditions changes.
\<close>

theorem ReconcileKind_spec:
  assumes "rr_wf r"
  shows "\<exists>r' ev. ReconcileKind clk (Some r) = (Some r', ev) \<and> rr_wf r' \<and>
      r' = r\<lparr>rr_status := (rr_status r)\<lparr>s_conditions := s_conditions (rr_status r')\<rparr>\<rparr> \<and>
      (if IsDone r then r' = r \<and> ev = None
       else if s_data (rr_status r) \<noteq> [] then IsTrue (condition_of r') \<and> ev = None
       else if clk 1 - m_creationTimestamp (meta r) > minute then
         IsFalse (condition_of r') \<and> GetReason (condition_of r') = ReasonResolutionTimedOut \<and>
         GetMessage (condition_of r') = ''resolution took longer than global timeout of 1m0s'' \<and> ev = None
       else
         IsUnknown (condition_of r') \<and> GetReason (condition_of r') = ReasonResolutionInProgress \<and>
         GetMessage (condition_of r') = ''waiting for resolver'' \<and>
         ev = Some (RequeueKeyError (dur_sub minute (time_sub (clk 3) (m_creationTimestamp (meta r))))))"
proof -
  obtain r' ev where eq: "ReconcileKind clk (Some r) = (Some r', ev)"
    using ReconcileKind_total by blast
  have "r' = r\<lparr>rr_status := (rr_status r)\<lparr>s_conditions := s_conditions (rr_status r')\<rparr>\<rparr>"
    using ReconcileKind_frame [OF eq] by simp
  moreover have "rr_wf r'" by (rule ReconcileKind_wf [OF eq assms])
  moreover note ReconcileKind_conditions [OF assms, of clk] ReconcileKind_done [of r clk]
  ultimately show ?thesis
    by (cases r rule: ReconcileKind_cases [where clk = clk])
      (simp_all add: eq timeout_message_text MessageWaitingForResolver_def)
qed

theorem ReconcileKind_spec_witness:
  "rr_wf example_request \<and>
   (\<exists>r'. ReconcileKind (\<lambda>_. 61 * second) (Some example_request) = (Some r', None) \<and>
      IsFalse (condition_of r') \<and> GetReason (condition_of r') = ReasonResolutionTimedOut)"
  using ReconcileKind_spec [of example_request "\<lambda>_. 61 * second", OF example_request_wf]
  by (auto simp: example_fresh second_def minute_def)

text \<open>
  C10. A request is not requeued forever: when \<^verbatim>\<open>ReconcileKind\<close> asks for a delay \<open>d\<close>, any later
  reconciliation of the request (with whatever status it has by then) that starts after the
  delay has passed leaves it done and asks for no further delay.
\<close>

theorem ReconcileKind_terminates:
  assumes "ReconcileKind clk (Some r) = (Some r', Some (RequeueKeyError d))"
    and "m_creationTimestamp (meta r) \<le> clk 3"
    and "rr_wf q" "m_creationTimestamp (meta q) = m_creationTimestamp (meta r)"
    and "clk 3 + d < clk' 1"
  shows "\<exists>q'. ReconcileKind clk' (Some q) = (Some q', None) \<and> IsDone q'"
proof -
  have "d = dur_sub minute (time_sub (clk 3) (m_creationTimestamp (meta r)))"
    using assms(1)
    by (cases r rule: ReconcileKind_cases [where clk = clk])
      (auto simp: ReconcileKind_branches requestDuration_def defaultMaximumResolutionDuration_def)
  with delay_reaches_timeout [OF assms(2)] assms(4,5)
  have "clk' 1 - m_creationTimestamp (meta q) > minute" by simp
  with ReconcileKind_IsDone [OF assms(3)] show ?thesis by blast
qed

theorem ReconcileKind_terminates_witness:
  "\<exists>q'. ReconcileKind (\<lambda>_. 90 * second) (Some example_request) = (Some q', None) \<and> IsDone q'"
proof -
  have "\<not> IsDone example_request" "s_data (rr_status example_request) = []"
    "m_creationTimestamp (meta example_request) = 0" by (simp_all add: example_fresh)
  from ReconcileKind_wait [of example_request "\<lambda>_. 30 * second", OF this(1,2)] this(3)
  obtain r' where "ReconcileKind (\<lambda>_. 30 * second) (Some example_request) =
      (Some r', Some (RequeueKeyError (30 * second)))"
    by (auto simp: second_def minute_def requestDuration_def defaultMaximumResolutionDuration_def
        dur_sub_def time_sub_def wrap64_id in_int64_def min_int64_def max_int64_def)
  from ReconcileKind_terminates [OF this, of example_request "\<lambda>_. 90 * second"]
  show ?thesis by (simp add: example_fresh second_def)
qed

end
