(* ===== verification/Gen_Reconciler.thy ===== *)
theory Gen_Reconciler
  imports Core_Reconciler
begin

section \<open>The generated reconciler\<close>

text \<open>
  \<^verbatim>\<open>pkg/client/injection/reconciler/resolution/v1alpha1/resolutionrequest\<close> (\<^verbatim>\<open>reconciler.go\<close>, \<^verbatim>\<open>state.go\<close>)
  with the parts of knative's \<^verbatim>\<open>reconciler\<close> package it calls (\<^verbatim>\<open>reconcile_common.go\<close>, \<^verbatim>\<open>retry.go\<close>)
  and client-go's \<^verbatim>\<open>retry.OnError\<close>. It fetches the object of a key from the informer's cache, runs
  the controller's own \<^verbatim>\<open>ReconcileKind\<close> between two processing steps, writes the status back and
  reports events.

  The state is the world \<open>'w\<close> behind the API client, the informer's cache, and the list of
  events sent to the recorder (type, reason and message of each). Go's interface assertions on
  the user's reconciler (\<^verbatim>\<open>Finalizer\<close>, \<^verbatim>\<open>ReadOnlyInterface\<close>, \<^verbatim>\<open>OnDeletionInterface\<close>) are the
  optional fields of \<open>reconciler_impl\<close>. A deletion timestamp that is present is never Go's zero
  time. Logging is left out.
\<close>

subsection \<open>Semantic equality\<close>

text \<open>\<^verbatim>\<open>equality.Semantic.DeepEqual\<close> on statuses: knative registers its \<^verbatim>\<open>VolatileTime\<close> (the type of
  the transition times) as always equal, and nil and empty maps and slices are equal.\<close>

definition gomap_equal :: "gomap \<Rightarrow> gomap \<Rightarrow> bool" where
  "gomap_equal a b \<longleftrightarrow>
     list_all (\<lambda>(k, v). map_of (go_entries b) k = map_of (go_entries a) k) (go_entries a) \<and>
     list_all (\<lambda>(k, v). map_of (go_entries a) k = map_of (go_entries b) k) (go_entries b)"

definition status_equal :: "rr_status \<Rightarrow> rr_status \<Rightarrow> bool" where
  "status_equal a b \<longleftrightarrow>
     s_observedGeneration a = s_observedGeneration b \<and>
     list_all2 same_condition (s_conditions a) (s_conditions b) \<and>
     gomap_equal (s_annotations a) (s_annotations b) \<and> s_data a = s_data b"

subsection \<open>Before and after the reconciliation\<close>

definition failedGenerationBump :: string where
  "failedGenerationBump = ''NewObservedGenFailure''"

definition PreProcessReconcile :: "clock \<Rightarrow> rr \<Rightarrow> rr" where
  "PreProcessReconcile clk r =
     (let r1 = SetDefaults r;
          s1 = InitializeStatus clk (rr_status r1);
          s2 = (if s_observedGeneration s1 \<noteq> m_generation (meta r1)
                then s1\<lparr>s_conditions := MarkUnknown resolutionRequestCondSet (\<lambda>_. clk 1) (s_conditions s1)
                       ConditionSucceeded failedGenerationBump ''unsuccessfully observed a new generation''\<rparr>
                else s1)
      in r1\<lparr>rr_status := s2\<rparr>)"

definition groom_condition :: "time \<Rightarrow> condition list \<Rightarrow> condition \<Rightarrow> condition" where
  "groom_condition now old c =
     (case GetCondition old (c_type c) of
        None \<Rightarrow> c\<lparr>c_ltt := now\<rparr>
      | Some oc \<Rightarrow>
          (let c1 = c\<lparr>c_ltt := c_ltt oc\<rparr> in if c1 = oc then c1 else c1\<lparr>c_ltt := now\<rparr>))"

definition PostProcessReconcile :: "time \<Rightarrow> rr \<Rightarrow> rr \<Rightarrow> rr" where
  "PostProcessReconcile now r old =
     r\<lparr>rr_status := (rr_status r)\<lparr>
         s_observedGeneration := m_generation (meta r),
         s_conditions := map (groom_condition now (s_conditions (rr_status old))) (s_conditions (rr_status r))\<rparr>\<rparr>"

subsection \<open>Retries\<close>

text \<open>\<^verbatim>\<open>retry.OnError\<close> with \<^verbatim>\<open>DefaultRetry\<close> (five steps): \<open>attempts\<close> counts the calls made before this
  one. When the steps are used up the last error is returned.\<close>

fun retry_conflicts :: "nat \<Rightarrow> nat \<Rightarrow> (nat \<Rightarrow> 's \<Rightarrow> 's \<times> err option) \<Rightarrow> 's \<Rightarrow> 's \<times> err option" where
  "retry_conflicts 0 attempts f s = (s, None)"
| "retry_conflicts (Suc steps) attempts f s =
     (case f attempts s of
        (s', None) \<Rightarrow> (s', None)
      | (s', Some e) \<Rightarrow>
          if IsConflict e \<and> 0 < steps then retry_conflicts steps (Suc attempts) f s' else (s', Some e))"

definition DefaultRetry_Steps :: nat where
  "DefaultRetry_Steps = 5"

definition RetryUpdateConflicts :: "(nat \<Rightarrow> 's \<Rightarrow> 's \<times> err option) \<Rightarrow> 's \<Rightarrow> 's \<times> err option" where
  "RetryUpdateConflicts f s = retry_conflicts DefaultRetry_Steps 0 f s"

text \<open>One attempt to write the status; the state is the world and the variable \<^verbatim>\<open>existing\<close>.\<close>

definition update_attempt :: "'w rr_client \<Rightarrow> rr \<Rightarrow> nat \<Rightarrow> 'w \<times> rr \<Rightarrow> ('w \<times> rr) \<times> err option" where
  "update_attempt cl desired attempts s =
     (case s of (w, existing) \<Rightarrow>
        case (if attempts > 0 then cl_get cl w (m_namespace (meta desired)) (m_name (meta desired))
              else Inr existing) of
          Inl e \<Rightarrow> ((w, existing), Some e)
        | Inr existing1 \<Rightarrow>
            if status_equal (rr_status existing1) (rr_status desired) then ((w, existing1), None)
            else
              (let existing2 = existing1\<lparr>rr_status := rr_status desired\<rparr> in
               case cl_update_status cl w (m_namespace (meta existing2)) existing2 of
                 (w', Inl e) \<Rightarrow> ((w', existing2), Some e)
               | (w', Inr _) \<Rightarrow> ((w', existing2), None)))"

definition updateStatus :: "'w rr_client \<Rightarrow> 'w \<Rightarrow> rr \<Rightarrow> rr \<Rightarrow> 'w \<times> err option" where
  "updateStatus cl w existing desired =
     (case RetryUpdateConflicts (update_attempt cl desired) (w, existing) of ((w', _), e) \<Rightarrow> (w', e))"

subsection \<open>The user's reconciler and the options\<close>

type_synonym event = "string \<times> string \<times> string"
type_synonym 'w do_reconcile = "ctx \<Rightarrow> 'w \<Rightarrow> rr \<Rightarrow> 'w \<times> rr \<times> err option"

record 'w reconciler_impl =
  ri_isLeader :: "string \<Rightarrow> string \<Rightarrow> bool"
  ri_reconcile :: "'w do_reconcile"
  ri_finalize :: "'w do_reconcile option"
  ri_observe :: "'w do_reconcile option"
  ri_observe_deletion :: "(ctx \<Rightarrow> 'w \<Rightarrow> string \<Rightarrow> string \<Rightarrow> 'w \<times> err option) option"
  ri_configStore :: "(ctx \<Rightarrow> ctx) option"
  ri_finalizerName :: string
  ri_skipStatusUpdates :: bool

definition EventTypeNormal :: string where "EventTypeNormal = ''Normal''"
definition EventTypeWarning :: string where "EventTypeWarning = ''Warning''"

subsection \<open>The state of one run\<close>

record run_state =
  st_key :: string
  st_namespace :: string
  st_name :: string
  st_isROI :: bool
  st_isLeader :: bool

definition newState :: "(nat \<Rightarrow> bool) \<Rightarrow> string \<Rightarrow> 'w reconciler_impl \<Rightarrow> run_state res" where
  "newState ip key r =
     (case SplitMetaNamespaceKey ip key of
        Inl e \<Rightarrow> Inl (ErrorString (''invalid resource key: '' @ key))
      | Inr (namespace, name) \<Rightarrow>
          Inr \<lparr> st_key = key, st_namespace = namespace, st_name = name,
                st_isROI = (ri_observe r \<noteq> None), st_isLeader = ri_isLeader r namespace name \<rparr>)"

definition isNotLeaderNorObserver :: "run_state \<Rightarrow> bool" where
  "isNotLeaderNorObserver s \<longleftrightarrow> \<not> st_isLeader s \<and> \<not> st_isROI s"

text \<open>The method for an object: a deletion timestamp that is set decides between the two groups.\<close>

datatype 'w target = DoReconcileKind "'w do_reconcile" | DoFinalizeKind "'w do_reconcile"
  | DoObserveKind "'w do_reconcile" | Unknown_method

definition reconcileMethodFor :: "run_state \<Rightarrow> 'w reconciler_impl \<Rightarrow> rr \<Rightarrow> 'w target" where
  "reconcileMethodFor s r obj =
     (if m_deletionTimestamp (meta obj) = None then
        (if st_isLeader s then DoReconcileKind (ri_reconcile r)
         else if st_isROI s then (case ri_observe r of Some f \<Rightarrow> DoObserveKind f | None \<Rightarrow> Unknown_method)
         else Unknown_method)
      else (case ri_finalize r of
          Some f \<Rightarrow> if st_isLeader s then DoFinalizeKind f else Unknown_method
        | None \<Rightarrow> Unknown_method))"

subsection \<open>Finalizers\<close>

text \<open>\<^verbatim>\<open>sets.String\<close> with its sorted \<^verbatim>\<open>List\<close>.\<close>

definition string_set_list :: "string list \<Rightarrow> string list" where
  "string_set_list xs = sort (remdups xs)"

definition updateFinalizersFiltered ::
  "(nat \<Rightarrow> bool) \<Rightarrow> 'w rr_client \<Rightarrow> indexer \<Rightarrow> 'w reconciler_impl \<Rightarrow> 'w \<Rightarrow> rr \<Rightarrow> 'w \<times> rr res \<times> event list" where
  "updateFinalizersFiltered ip cl idx r w resource =
     (case lister_Get ip idx (m_namespace (meta resource)) (m_name (meta resource)) of
        Inl e \<Rightarrow> (w, Inl e, [])
      | Inr existing \<Rightarrow>
        (let fin = ri_finalizerName r;
             desired = (fin \<in> set (m_finalizers (meta resource)));
             present = (fin \<in> set (m_finalizers (meta existing))) in
         if desired = present then (w, Inr resource, [])
         else
           (let finalizers = (if desired then m_finalizers (meta existing) @ [fin]
                              else string_set_list (filter (\<lambda>f. f \<noteq> fin) (m_finalizers (meta existing))));
                name = m_name (meta resource) in
            case cl_patch_finalizers cl w (m_namespace (meta resource)) name finalizers
                   (m_resourceVersion (meta existing)) of
              (w', Inl e) \<Rightarrow> (w', Inl e, [(EventTypeWarning, ''FinalizerUpdateFailed'',
                 ''Failed to update finalizers for '' @ quote ip name @ '': '' @ err_message ip e)])
            | (w', Inr updated) \<Rightarrow> (w', Inr updated, [(EventTypeNormal, ''FinalizerUpdate'',
                 ''Updated '' @ quote ip name @ '' finalizers'')]))))"

definition setFinalizerIfFinalizer ::
  "(nat \<Rightarrow> bool) \<Rightarrow> 'w rr_client \<Rightarrow> indexer \<Rightarrow> 'w reconciler_impl \<Rightarrow> 'w \<Rightarrow> rr \<Rightarrow> 'w \<times> rr res \<times> event list" where
  "setFinalizerIfFinalizer ip cl idx r w resource =
     (if ri_finalize r = None then (w, Inr resource, [])
      else
        (let fs = (if m_deletionTimestamp (meta resource) = None
                   then ri_finalizerName r # m_finalizers (meta resource) else m_finalizers (meta resource))
         in updateFinalizersFiltered ip cl idx r w
              (resource\<lparr>meta := (meta resource)\<lparr>m_finalizers := string_set_list fs\<rparr>\<rparr>)))"

text \<open>\<^verbatim>\<open>reconciler.EventAs\<close>: the first event in the chain.\<close>

fun first_event :: "err list \<Rightarrow> event option" where
  "first_event [] = None"
| "first_event (ReconcilerEvent ty reason message # es) = Some (ty, reason, message)"
| "first_event (e # es) = first_event es"

definition EventAs :: "err \<Rightarrow> event option" where
  "EventAs e = first_event (err_chain e)"

definition clearFinalizer ::
  "(nat \<Rightarrow> bool) \<Rightarrow> 'w rr_client \<Rightarrow> indexer \<Rightarrow> 'w reconciler_impl \<Rightarrow> 'w \<Rightarrow> rr \<Rightarrow> err option \<Rightarrow> 'w \<times> rr res \<times> event list" where
  "clearFinalizer ip cl idx r w resource reconcileEvent =
     (if ri_finalize r = None then (w, Inr resource, [])
      else if m_deletionTimestamp (meta resource) = None then (w, Inr resource, [])
      else
        (let remove = (case reconcileEvent of
               None \<Rightarrow> True
             | Some e \<Rightarrow> (case EventAs e of Some (ty, _, _) \<Rightarrow> ty = EventTypeNormal | None \<Rightarrow> False));
             fs = (if remove then filter (\<lambda>f. f \<noteq> ri_finalizerName r) (m_finalizers (meta resource))
                   else m_finalizers (meta resource))
         in updateFinalizersFiltered ip cl idx r w
              (resource\<lparr>meta := (meta resource)\<lparr>m_finalizers := string_set_list fs\<rparr>\<rparr>)))"

subsection \<open>Reconcile\<close>

text \<open>Running the method of the object: the world, the resource and the event it leaves, the events
  recorded on the way, or the error that ends the reconciliation. \<open>pre\<close> and \<open>post\<close> are the
  readings of the clock in the processing steps.\<close>

definition run_target ::
  "(nat \<Rightarrow> bool) \<Rightarrow> clock \<Rightarrow> time \<Rightarrow> 'w rr_client \<Rightarrow> indexer \<Rightarrow> 'w reconciler_impl \<Rightarrow> ctx \<Rightarrow> 'w target \<Rightarrow> 'w \<Rightarrow> rr
     \<Rightarrow> 'w \<times> event list \<times> (rr \<times> err option) res" where
  "run_target ip pre post cl idx r c target w original =
     (case target of
        DoReconcileKind f \<Rightarrow>
          (case setFinalizerIfFinalizer ip cl idx r w original of
             (w1, Inl e, evs) \<Rightarrow> (w1, evs, Inl (WrapError ''failed to set finalizers: '' e))
           | (w1, Inr resource, evs) \<Rightarrow>
               (case f c w1 (if ri_skipStatusUpdates r then resource else PreProcessReconcile pre resource) of
                  (w2, resource2, ev) \<Rightarrow>
                    (w2, evs, Inr (if ri_skipStatusUpdates r then resource2
                                   else PostProcessReconcile post resource2 original, ev))))
      | DoFinalizeKind f \<Rightarrow>
          (case f c w original of
             (w1, resource, ev) \<Rightarrow>
               (case clearFinalizer ip cl idx r w1 resource ev of
                  (w2, Inl e, evs) \<Rightarrow> (w2, evs, Inl (WrapError ''failed to clear finalizers: '' e))
                | (w2, Inr resource2, evs) \<Rightarrow> (w2, evs, Inr (resource2, ev))))
      | DoObserveKind f \<Rightarrow> (case f c w original of (w1, resource, ev) \<Rightarrow> (w1, [], Inr (resource, ev)))
      | Unknown_method \<Rightarrow> (w, [], Inr (original, None)))"

text \<open>The report of the event the method returned.\<close>

definition report :: "(nat \<Rightarrow> bool) \<Rightarrow> err option \<Rightarrow> event list \<times> err option" where
  "report ip reconcileEvent =
     (case reconcileEvent of
        None \<Rightarrow> ([], None)
      | Some e \<Rightarrow>
        (case EventAs e of
           Some (ty, reason, message) \<Rightarrow>
             ([(ty, reason, message)], case e of ReconcilerEvent _ _ _ \<Rightarrow> None | _ \<Rightarrow> Some e)
         | None \<Rightarrow>
             (if IsSkipKey e \<or> IsRequeueKey e \<noteq> None then []
              else [(EventTypeWarning, ''InternalError'', err_message ip e)], Some e)))"

definition Reconcile ::
  "(nat \<Rightarrow> bool) \<Rightarrow> clock \<Rightarrow> time \<Rightarrow> 'w rr_client \<Rightarrow> indexer \<Rightarrow> 'w reconciler_impl \<Rightarrow> ctx \<Rightarrow> 'w \<Rightarrow> string
     \<Rightarrow> 'w \<times> err option \<times> event list" where
  "Reconcile ip pre post cl idx r c w key =
     (case newState ip key r of
        Inl _ \<Rightarrow> (w, None, [])
      | Inr s \<Rightarrow>
        if isNotLeaderNorObserver s then (w, Some (SkipKeyError key), [])
        else
          (let c1 = (case ri_configStore r of None \<Rightarrow> c | Some toContext \<Rightarrow> toContext c) in
           case lister_Get ip idx (st_namespace s) (st_name s) of
             Inl e \<Rightarrow>
               if IsNotFound e then
                 (case ri_observe_deletion r of
                    None \<Rightarrow> (w, None, [])
                  | Some f \<Rightarrow> (case f c1 w (st_namespace s) (st_name s) of (w', e') \<Rightarrow> (w', e', [])))
               else (w, Some e, [])
           | Inr original \<Rightarrow>
             (case run_target ip pre post cl idx r c1 (reconcileMethodFor s r original) w original of
                (w1, evs, Inl e) \<Rightarrow> (w1, Some e, evs)
              | (w1, evs, Inr (resource, ev)) \<Rightarrow>
                (let synced =
                   (if ri_skipStatusUpdates r then (w1, None)
                    else if status_equal (rr_status original) (rr_status resource) then (w1, None)
                    else if \<not> st_isLeader s then (w1, None)
                    else updateStatus cl w1 original resource)
                 in case synced of
                      (w2, Some e) \<Rightarrow>
                        (w2, Some e, evs @ [(EventTypeWarning, ''UpdateFailed'',
                           ''Failed to update status for '' @ quote ip (m_name (meta resource)) @ '': '' @ err_message ip e)])
                    | (w2, None) \<Rightarrow> (case report ip ev of (evs', e') \<Rightarrow> (w2, e', evs @ evs'))))))"

subsection \<open>Construction of the controller\<close>

text \<open>\<^verbatim>\<open>controller.Options\<close> and \<^verbatim>\<open>NewImpl\<close> (\<^verbatim>\<open>controller.go\<close>). More than one options function is a fatal
  error, the value \<open>None\<close>. The name of the event recorder and the filter of promoted
  objects are kept beside the reconciler; \<^verbatim>\<open>DemoteFunc\<close> has no effect on the model.\<close>

record controller_options =
  o_configStore :: "(ctx \<Rightarrow> ctx) option"
  o_finalizerName :: string
  o_agentName :: string
  o_skipStatusUpdates :: bool
  o_promoteFilter :: "(rr \<Rightarrow> bool) option"

record 'w controller_impl =
  ci_reconciler :: "'w reconciler_impl"
  ci_agentName :: string
  ci_promoteFilter :: "(rr \<Rightarrow> bool) option"

definition defaultControllerAgentName :: string where
  "defaultControllerAgentName = ''resolutionrequest-controller''"

definition defaultFinalizerName :: string where
  "defaultFinalizerName = ''resolutionrequests.resolution.tekton.dev''"

definition apply_options :: "controller_options \<Rightarrow> 'w controller_impl \<Rightarrow> 'w controller_impl" where
  "apply_options opts ci =
     (let rec0 = ci_reconciler ci;
          rec1 = (if o_configStore opts \<noteq> None then rec0\<lparr>ri_configStore := o_configStore opts\<rparr> else rec0);
          rec2 = (if o_finalizerName opts \<noteq> [] then rec1\<lparr>ri_finalizerName := o_finalizerName opts\<rparr> else rec1);
          rec3 = (if o_skipStatusUpdates opts then rec2\<lparr>ri_skipStatusUpdates := True\<rparr> else rec2)
      in \<lparr> ci_reconciler = rec3,
           ci_agentName = (if o_agentName opts \<noteq> [] then o_agentName opts else ci_agentName ci),
           ci_promoteFilter = (if o_promoteFilter opts \<noteq> None then o_promoteFilter opts else ci_promoteFilter ci) \<rparr>)"

definition NewImpl :: "'w reconciler_impl \<Rightarrow> controller_options list \<Rightarrow> 'w controller_impl option" where
  "NewImpl r options =
     (if length options > 1 then None
      else Some (fold apply_options options
        \<lparr> ci_reconciler = r\<lparr>ri_configStore := None, ri_finalizerName := defaultFinalizerName,
                            ri_skipStatusUpdates := False\<rparr>,
          ci_agentName = defaultControllerAgentName, ci_promoteFilter = None \<rparr>))"

text \<open>\<^verbatim>\<open>NewReconciler\<close> (\<^verbatim>\<open>reconciler.go\<close>), the constructor for reconcilers that are not started by \<^verbatim>\<open>NewImpl\<close>: it
  takes the same options, but reads neither the agent's name nor the filter of promoted objects.\<close>

definition NewReconciler :: "'w reconciler_impl \<Rightarrow> controller_options list \<Rightarrow> 'w reconciler_impl option" where
  "NewReconciler r options =
     (if length options > 1 then None
      else Some (fold (\<lambda>opts rec0.
          (let rec1 = (if o_configStore opts \<noteq> None then rec0\<lparr>ri_configStore := o_configStore opts\<rparr> else rec0);
               rec2 = (if o_finalizerName opts \<noteq> [] then rec1\<lparr>ri_finalizerName := o_finalizerName opts\<rparr> else rec1)
           in if o_skipStatusUpdates opts then rec2\<lparr>ri_skipStatusUpdates := True\<rparr> else rec2)) options
        (r\<lparr>ri_configStore := None, ri_finalizerName := defaultFinalizerName, ri_skipStatusUpdates := False\<rparr>)))"

text \<open>\<^verbatim>\<open>createRecorder\<close> (\<^verbatim>\<open>controller.go\<close>): the recorder of the context, or that of a new broadcaster with two
  watches, which a goroutine stops when the context ends. A watch is where its events go and whether
  it still runs.\<close>

datatype event_sink = LogSink | ApiSink string

record broadcaster =
  bc_component :: string
  bc_watches :: "(event_sink \<times> bool) list"

datatype event_recorder = CtxRecorder nat | NewRecorder nat

definition createRecorder :: "nat option \<Rightarrow> string \<Rightarrow> broadcaster list \<Rightarrow> broadcaster list \<times> event_recorder" where
  "createRecorder ctx_recorder agentName bs =
     (case ctx_recorder of
        Some recorder \<Rightarrow> (bs, CtxRecorder recorder)
      | None \<Rightarrow> (bs @ [\<lparr> bc_component = agentName, bc_watches = [(LogSink, True), (ApiSink [], True)] \<rparr>], NewRecorder (length bs)))"

definition recorder_ctx_done :: "event_recorder \<Rightarrow> broadcaster list \<Rightarrow> broadcaster list" where
  "recorder_ctx_done r bs =
     (case r of
        CtxRecorder _ \<Rightarrow> bs
      | NewRecorder i \<Rightarrow> bs[i := (bs ! i)\<lparr>bc_watches := map (\<lambda>(s, _). (s, False)) (bc_watches (bs ! i))\<rparr>])"

text \<open>Where an event of the recorder goes, with the component it names as its source.\<close>

definition event_reaches :: "event_recorder \<Rightarrow> broadcaster list \<Rightarrow> (string \<times> event_sink) list" where
  "event_reaches r bs =
     (case r of CtxRecorder _ \<Rightarrow> []
      | NewRecorder i \<Rightarrow> map (\<lambda>(s, _). (bc_component (bs ! i), s)) (filter snd (bc_watches (bs ! i))))"

text \<open>\<^verbatim>\<open>PromoteFunc\<close>: on becoming leader of a bucket every listed object that passes the filter is
  enqueued.\<close>

definition PromoteFunc :: "indexer \<Rightarrow> (rr \<Rightarrow> bool) option \<Rightarrow> (string \<times> string) list" where
  "PromoteFunc idx flt =
     map (\<lambda>r. (m_namespace (meta r), m_name (meta r)))
       (filter (\<lambda>r. case flt of None \<Rightarrow> True | Some f \<Rightarrow> f r) (lister_List idx Everything))"

subsection \<open>The core controller\<close>

text \<open>\<^verbatim>\<open>pkg/reconciler/resolutionrequest/controller.go\<close>: the generated reconciler around \<^verbatim>\<open>ReconcileKind\<close>,
  without a finalizer, observers or options. \<open>clk\<close> gives the readings of the clock inside
  \<^verbatim>\<open>ReconcileKind\<close>.\<close>

definition core_reconciler :: "clock \<Rightarrow> (string \<Rightarrow> string \<Rightarrow> bool) \<Rightarrow> 'w reconciler_impl" where
  "core_reconciler clk leader =
     \<lparr> ri_isLeader = leader,
       ri_reconcile = (\<lambda>c w r. case ReconcileKind clk (Some r) of
          (Some r', ev) \<Rightarrow> (w, r', ev) | (None, ev) \<Rightarrow> (w, r, ev)),
       ri_finalize = None, ri_observe = None, ri_observe_deletion = None, ri_configStore = None,
       ri_finalizerName = [], ri_skipStatusUpdates = False \<rparr>"

definition core_impl :: "clock \<Rightarrow> (string \<Rightarrow> string \<Rightarrow> bool) \<Rightarrow> 'w reconciler_impl" where
  "core_impl clk leader = (core_reconciler clk leader)\<lparr>ri_finalizerName := defaultFinalizerName\<rparr>"

lemma core_controller:
  "map_option ci_reconciler (NewImpl (core_reconciler clk leader) []) = Some (core_impl clk leader)"
  by (simp add: NewImpl_def core_reconciler_def core_impl_def)

text \<open>Both constructors give the same reconciler.\<close>

lemma createRecorder_fresh:
  assumes "createRecorder None agentName bs = (bs', r)"
  shows "event_reaches r bs' = [(agentName, LogSink), (agentName, ApiSink [])]"
    "event_reaches r (recorder_ctx_done r bs') = []" "i < length bs \<Longrightarrow> recorder_ctx_done r bs' ! i = bs ! i"
  using assms by (auto simp: createRecorder_def event_reaches_def recorder_ctx_done_def nth_append)

lemma createRecorder_reused: "createRecorder (Some x) agentName bs = (bs, CtxRecorder x)"
  by (simp add: createRecorder_def)

lemma NewReconciler_eq: "NewReconciler r options = map_option ci_reconciler (NewImpl r options)"
proof (cases "length options > 1")
  case False
  then consider "options = []" | opts where "options = [opts]"
    by (cases options; cases "tl options") auto
  then show ?thesis by cases (simp_all add: NewReconciler_def NewImpl_def apply_options_def Let_def)
qed (simp add: NewReconciler_def NewImpl_def)

subsection \<open>Lemmas: semantic equality and the two processing steps\<close>

lemma gomap_equal_refl [simp]: "gomap_equal a a"
  by (simp add: gomap_equal_def list_all_iff)

lemma status_equal_refl [simp]: "status_equal s s"
  by (simp add: status_equal_def list_all2_same)

lemma groom_condition_alt: "\<exists>t. groom_condition now old c = c\<lparr>c_ltt := t\<rparr>"
  unfolding groom_condition_def Let_def by (auto split: option.split) (metis condition.unfold_congs(4))+

lemma same_condition_groom [simp]: "same_condition (groom_condition now old c) c"
  using groom_condition_alt [of now old c] by auto

lemmas groom_sel [simp] = same_condition_sel [OF same_condition_groom]

lemma groom_unchanged:
  assumes "GetCondition old (c_type c) = Some oc" "same_condition c oc"
  shows "groom_condition now old c = oc"
proof -
  have "c\<lparr>c_ltt := c_ltt oc\<rparr> = oc"
    using assms(2) by (subst only_ltt_differs) (simp add: same_condition_def)
  with assms(1) show ?thesis by (simp add: groom_condition_def)
qed

lemma groom_id:
  assumes "conds_wf cs"
  shows "map (groom_condition now cs) cs = cs"
  using assms by (intro map_idI groom_unchanged) (auto simp: GetCondition_Some_iff)

lemma GetCondition_groom:
  "GetCondition (map (groom_condition now old) cs) t = map_option (groom_condition now old) (GetCondition cs t)"
  by (induction cs) (simp_all add: GetCondition_def)

lemma PostProcess_meta [simp]:
  "meta (PostProcessReconcile now r old) = meta r"
  "spec_params (PostProcessReconcile now r old) = spec_params r"
  "s_data (rr_status (PostProcessReconcile now r old)) = s_data (rr_status r)"
  "s_annotations (rr_status (PostProcessReconcile now r old)) = s_annotations (rr_status r)"
  "s_observedGeneration (rr_status (PostProcessReconcile now r old)) = m_generation (meta r)"
  by (simp_all add: PostProcessReconcile_def)

text \<open>The condition is read back as the reconciler left it, whatever the transition time.\<close>

lemma PostProcess_condition:
  "IsTrue (condition_of (PostProcessReconcile now r old)) = IsTrue (condition_of r)"
  "IsFalse (condition_of (PostProcessReconcile now r old)) = IsFalse (condition_of r)"
  "IsUnknown (condition_of (PostProcessReconcile now r old)) = IsUnknown (condition_of r)"
  "GetReason (condition_of (PostProcessReconcile now r old)) = GetReason (condition_of r)"
  "GetMessage (condition_of (PostProcessReconcile now r old)) = GetMessage (condition_of r)"
  by (auto simp: condition_of_def status_condition_def PostProcessReconcile_def GetCondition_groom
      IsTrue_def IsFalse_def IsUnknown_def GetReason_def GetMessage_def split: option.splits)

lemma PostProcess_wf:
  assumes "rr_wf r"
  shows "rr_wf (PostProcessReconcile now r old)"
proof -
  have "c_type \<circ> groom_condition now cs = c_type" for cs by (simp add: fun_eq_iff)
  with assms show ?thesis
    by (simp add: rr_wf_def status_wf_def PostProcessReconcile_def conds_wf_def)
qed

lemma PostProcess_id:
  assumes "rr_wf r" "s_observedGeneration (rr_status r) = m_generation (meta r)" "rr_status old = rr_status r"
  shows "rr_status (PostProcessReconcile now r old) = rr_status r"
  using assms by (simp add: PostProcessReconcile_def groom_id rr_wf_def status_wf_def)

lemma MarkUnknown_condset:
  "MarkUnknown resolutionRequestCondSet clk conds ConditionSucceeded reason message =
     SetCondition (clk 0) conds (mk_condition ConditionSucceeded ConditionUnknown SeverityError reason (sprintf0 message))"
  by (simp add: MarkUnknown_def)

lemma PreProcess_frame [simp]:
  "meta (PreProcessReconcile clk r) = meta r"
  "spec_params (PreProcessReconcile clk r) = spec_params r"
  "s_data (rr_status (PreProcessReconcile clk r)) = s_data (rr_status r)"
  "s_annotations (rr_status (PreProcessReconcile clk r)) = s_annotations (rr_status r)"
  "s_observedGeneration (rr_status (PreProcessReconcile clk r)) = s_observedGeneration (rr_status r)"
  by (simp_all add: PreProcessReconcile_def Let_def)

lemma PreProcess_wf: "rr_wf r \<Longrightarrow> rr_wf (PreProcessReconcile clk r)"
  by (simp add: PreProcessReconcile_def Let_def rr_wf_def status_wf_def lifecycle_eqs)

lemma PreProcess_observed:
  assumes "s_observedGeneration (rr_status r) = m_generation (meta r)" "condition_of r \<noteq> None"
  shows "rr_status (PreProcessReconcile clk r) = rr_status r"
  using assms by (auto simp: PreProcessReconcile_def Let_def InitializeStatus_eq condition_of_def)

lemma PreProcess_new_generation:
  assumes "rr_wf r" "s_observedGeneration (rr_status r) \<noteq> m_generation (meta r)"
  shows "IsUnknown (condition_of (PreProcessReconcile clk r))"
    "GetReason (condition_of (PreProcessReconcile clk r)) = failedGenerationBump"
  using assms
  by (simp_all add: PreProcessReconcile_def Let_def condition_of_def status_condition_def MarkUnknown_condset
      cond_simps rr_wf_def status_wf_def InitializeStatus_eq)

subsection \<open>Lemmas: retries\<close>

text \<open>An invariant of every attempt holds at the end, and the last attempt decides the result.\<close>

lemma retry_last:
  assumes "retry_conflicts steps a f s = (s', e)" "0 < steps" "P s"
    and step: "\<And>a s s' e. P s \<Longrightarrow> f a s = (s', e) \<Longrightarrow> P s'"
  shows "P s' \<and> (\<exists>b s0. P s0 \<and> f b s0 = (s', e) \<and> a \<le> b \<and> b < a + steps \<and>
      (\<forall>x. e = Some x \<longrightarrow> IsConflict x \<longrightarrow> b = a + steps - 1))"
  using assms(1-3)
proof (induction steps arbitrary: a s)
  case 0
  then show ?case by simp
next
  case (Suc steps)
  obtain s1 e1 where f: "f a s = (s1, e1)" by fastforce
  with Suc.prems(3) step have p: "P s1" by blast
  show ?case
  proof (cases "\<exists>x. e1 = Some x \<and> IsConflict x \<and> 0 < steps")
    case True
    with Suc.prems(1) f have "retry_conflicts steps (Suc a) f s1 = (s', e)" by auto
    from Suc.IH [OF this _ p] True show ?thesis by fastforce
  next
    case False
    with Suc.prems(1) f have "s' = s1" "e = e1" by (auto split: option.splits if_splits)
    with False f p Suc.prems(3) show ?thesis by (intro conjI exI [of _ a] exI [of _ s]) auto
  qed
qed

text \<open>The number of calls.\<close>

definition counted :: "(nat \<Rightarrow> 's \<Rightarrow> 's \<times> err option) \<Rightarrow> nat \<Rightarrow> 's \<times> nat \<Rightarrow> ('s \<times> nat) \<times> err option" where
  "counted f a sn = (case f a (fst sn) of (s', e) \<Rightarrow> ((s', Suc (snd sn)), e))"

lemma retry_counted:
  "case retry_conflicts steps a (counted f) (s, n) of ((s', n'), e) \<Rightarrow>
     retry_conflicts steps a f s = (s', e) \<and> n' \<le> n + steps"
proof (induction steps arbitrary: a s n)
  case 0
  show ?case by simp
next
  case (Suc steps)
  obtain s1 e1 where f: "f a s = (s1, e1)" by fastforce
  from Suc.IH [of "Suc a" s1 "Suc n"] show ?case
    by (auto simp: f counted_def split: option.splits prod.splits)
qed

subsection \<open>Lemmas: writing the status\<close>

lemma updateStatus_equal:
  "status_equal (rr_status existing) (rr_status desired) \<Longrightarrow> updateStatus cl w existing desired = (w, None)"
  by (simp add: updateStatus_def RetryUpdateConflicts_def DefaultRetry_Steps_def numeral_eq_Suc update_attempt_def)

lemma updateStatus_unroll:
  "updateStatus cl w existing desired =
     (case update_attempt cl desired 0 (w, existing) of
        ((w1, x1), None) \<Rightarrow> (w1, None)
      | ((w1, x1), Some e) \<Rightarrow>
          if IsConflict e then
            (case retry_conflicts 4 1 (update_attempt cl desired) (w1, x1) of ((w', _), e') \<Rightarrow> (w', e'))
          else (w1, Some e))"
proof -
  have five: "DefaultRetry_Steps = Suc 4" by (simp add: DefaultRetry_Steps_def)
  show ?thesis
    unfolding updateStatus_def RetryUpdateConflicts_def five retry_conflicts.simps
    by (auto split: prod.splits option.splits)
qed

context rr_api
begin

lemma update_attempt_cases:
  assumes "update_attempt cl desired a (w, existing) = ((w', x'), e)"
  obtains (get_err) e' where "w' = w" "e = Some e'" "0 < a"
    | (equal) "w' = w" "e = None" "status_equal (rr_status x') (rr_status desired)"
        "a = 0 \<and> x' = existing \<or> cl_get cl w (m_namespace (meta desired)) (m_name (meta desired)) = Inr x'"
    | (err) e' where "w' = w" "e = Some e'"
    | (ok) x r' where "e = None" "x' = x\<lparr>rr_status := rr_status desired\<rparr>"
        "a = 0 \<and> x = existing \<or> cl_get cl w (m_namespace (meta desired)) (m_name (meta desired)) = Inr x"
        "cl_update_status cl w (m_namespace (meta x)) x' = (w', Inr r')"
proof -
  let ?src = "if 0 < a then cl_get cl w (m_namespace (meta desired)) (m_name (meta desired)) else Inr existing"
  show thesis
  proof (cases ?src)
    case (Inl e')
    with assms get_err show thesis by (auto simp: update_attempt_def split: if_splits)
  next
    case (Inr x)
    then have src: "a = 0 \<and> x = existing \<or> cl_get cl w (m_namespace (meta desired)) (m_name (meta desired)) = Inr x"
      by (auto split: if_splits)
    show thesis
    proof (cases "status_equal (rr_status x) (rr_status desired)")
      case True
      with assms Inr src equal show thesis by (auto simp: update_attempt_def)
    next
      case False
      let ?x = "x\<lparr>rr_status := rr_status desired\<rparr>"
      obtain w1 res where u: "cl_update_status cl w (m_namespace (meta x)) ?x = (w1, res)" by fastforce
      show thesis
      proof (cases res)
        case (Inl e')
        with u have "w1 = w" by (blast dest: update_status_err)
        with Inl assms Inr False u err show thesis by (auto simp: update_attempt_def Let_def)
      next
        case (Inr r')
        with assms \<open>?src = Inr x\<close> False u src ok [of x r'] show thesis
          by (auto simp: update_attempt_def Let_def)
      qed
    qed
  qed
qed

lemma update_attempt_inv:
  assumes "update_attempt cl desired a s = (s', e)" "inv (fst s)"
  shows "inv (fst s')"
proof -
  obtain w x w' x' where eq: "s = (w, x)" "s' = (w', x')" by fastforce
  with assms(2) have "inv w" by simp
  from assms(1) have "update_attempt cl desired a (w, x) = ((w', x'), e)" by (simp add: eq)
  then have "inv w'"
  proof (cases rule: update_attempt_cases)
    case (ok y r')
    from inv_update_status [of w "m_namespace (meta y)" x'] ok(4) \<open>inv w\<close> show ?thesis by simp
  qed (use \<open>inv w\<close> in simp_all)
  then show ?thesis by (simp add: eq)
qed

lemma update_attempt_written:
  assumes "update_attempt cl desired a (w, x) = ((w', x'), None)" "inv w"
    and "a = 0 \<Longrightarrow> m_namespace (meta x) = m_namespace (meta desired) \<and> m_name (meta x) = m_name (meta desired)"
  shows "(a = 0 \<and> w' = w \<and> status_equal (rr_status x) (rr_status desired)) \<or>
    (\<exists>s. cl_get cl w' (m_namespace (meta desired)) (m_name (meta desired)) = Inr s \<and>
         status_equal (rr_status s) (rr_status desired))"
  using assms(1)
proof (cases rule: update_attempt_cases)
  case (ok y r')
  have "m_namespace (meta y) = m_namespace (meta desired)" "m_name (meta y) = m_name (meta desired)"
    using ok(3) assms(2,3) get_meta by blast+
  with update_status_ok [OF assms(2) ok(4)] ok(2) show ?thesis by auto
qed auto

text \<open>A successful write of the status: either the copy in the cache already had the status, or
  the server now holds it.\<close>

lemma updateStatus_ok:
  assumes "updateStatus cl w existing desired = (w', None)" "inv w"
    and "m_namespace (meta existing) = m_namespace (meta desired)" "m_name (meta existing) = m_name (meta desired)"
  shows "w' = w \<and> status_equal (rr_status existing) (rr_status desired) \<or>
    (\<exists>s. cl_get cl w' (m_namespace (meta desired)) (m_name (meta desired)) = Inr s \<and>
         status_equal (rr_status s) (rr_status desired))"
proof -
  let ?f = "update_attempt cl desired"
  obtain w1 x1 e1 where first: "?f 0 (w, existing) = ((w1, x1), e1)" by (metis surj_pair)
  have inv1: "inv w1" using update_attempt_inv [OF first] assms(2) by simp
  show ?thesis
  proof (cases e1)
    case None
    with first assms(1) have "w' = w1" by (simp add: updateStatus_unroll)
    with update_attempt_written [OF first [unfolded None] assms(2)] assms(3,4) show ?thesis by simp
  next
    case (Some e)
    obtain w2 x' e2 where r: "retry_conflicts 4 1 ?f (w1, x1) = ((w2, x'), e2)" by (metis surj_pair)
    have "w2 = w'" "e2 = None"
      using assms(1) unfolding updateStatus_unroll first Some by (simp_all add: r [simplified] split: if_splits)
    with r have "retry_conflicts 4 1 ?f (w1, x1) = ((w', x'), None)" by simp
    from retry_last [OF this, of "\<lambda>s. inv (fst s)"] inv1
    obtain b s0 where "inv (fst s0)" "1 \<le> b" "?f b s0 = ((w', x'), None)"
      using update_attempt_inv by auto
    then obtain w0 x0 where "inv w0" "1 \<le> b" "?f b (w0, x0) = ((w', x'), None)" by (cases s0) simp
    with update_attempt_written [of desired b w0 x0 w' x'] show ?thesis by auto
  qed
qed

lemma updateStatus_inv: "inv w \<Longrightarrow> inv (fst (updateStatus cl w existing desired))"
proof -
  assume "inv w"
  obtain s e where r: "retry_conflicts DefaultRetry_Steps 0 (update_attempt cl desired) (w, existing) = (s, e)" by fastforce
  from retry_last [OF r, of "\<lambda>s. inv (fst s)"] \<open>inv w\<close> update_attempt_inv have "inv (fst s)"
    by (fastforce simp: DefaultRetry_Steps_def)
  then show ?thesis by (auto simp: updateStatus_def RetryUpdateConflicts_def r split: prod.split)
qed

end

subsection \<open>Lemmas: one run of the core controller\<close>

lemma ReconcileKind_event:
  assumes "ReconcileKind clk (Some r) = (Some r', ev)"
  shows "ev = None \<or> (\<exists>d. ev = Some (RequeueKeyError d))"
  using assms by (cases r rule: ReconcileKind_cases [where clk = clk]) (auto simp: ReconcileKind_branches)

lemma report_requeue [simp]: "report ip (Some (RequeueKeyError d)) = ([], Some (RequeueKeyError d))"
  by (simp add: report_def EventAs_def IsRequeueKey_def err_chain.simps)

lemma report_None [simp]: "report ip None = ([], None)"
  by (simp add: report_def)

lemma core_impl_sel [simp]:
  "ri_isLeader (core_impl clk leader) = leader" "ri_observe (core_impl clk leader) = None"
  "ri_finalize (core_impl clk leader) = None" "ri_observe_deletion (core_impl clk leader) = None"
  "ri_configStore (core_impl clk leader) = None" "ri_skipStatusUpdates (core_impl clk leader) = False"
  "ri_reconcile (core_impl clk leader) c w r =
     (case ReconcileKind clk (Some r) of (Some r', ev) \<Rightarrow> (w, r', ev) | (None, ev) \<Rightarrow> (w, r, ev))"
  by (simp_all add: core_impl_def core_reconciler_def)

lemma core_newState:
  "SplitMetaNamespaceKey ip key = Inr (ns, n) \<Longrightarrow>
   newState ip key (core_impl clk leader) =
     Inr \<lparr> st_key = key, st_namespace = ns, st_name = n, st_isROI = False, st_isLeader = leader ns n \<rparr>"
  by (simp add: newState_def)

lemma core_Reconcile_idle:
  shows "is_err (SplitMetaNamespaceKey ip key) \<Longrightarrow>
      Reconcile ip pre post cl idx (core_impl clk leader) c w key = (w, None, [])"
    and "SplitMetaNamespaceKey ip key = Inr (ns, n) \<Longrightarrow> \<not> leader ns n \<Longrightarrow>
      Reconcile ip pre post cl idx (core_impl clk leader) c w key = (w, Some (SkipKeyError key), [])"
    and "SplitMetaNamespaceKey ip key = Inr (ns, n) \<Longrightarrow> leader ns n \<Longrightarrow> is_err (lister_Get ip idx ns n) \<Longrightarrow>
      Reconcile ip pre post cl idx (core_impl clk leader) c w key = (w, None, [])"
    and "SplitMetaNamespaceKey ip key = Inr (ns, n) \<Longrightarrow> leader ns n \<Longrightarrow> lister_Get ip idx ns n = Inr r \<Longrightarrow>
      m_deletionTimestamp (meta r) \<noteq> None \<Longrightarrow>
      Reconcile ip pre post cl idx (core_impl clk leader) c w key = (w, None, [])"
  by (auto simp: Reconcile_def newState_def isNotLeaderNorObserver_def is_err_def lister_Get_def Let_def
      reconcileMethodFor_def run_target_def split: sum.splits option.splits)

lemma core_Reconcile_eq:
  assumes "SplitMetaNamespaceKey ip key = Inr (ns, n)" "leader ns n" "lister_Get ip idx ns n = Inr r"
    and "m_deletionTimestamp (meta r) = None"
    and "ReconcileKind clk (Some (PreProcessReconcile pre r)) = (Some r', ev)"
    and "q = PostProcessReconcile post r' r"
  shows "Reconcile ip pre post cl idx (core_impl clk leader) c w key =
    (case (if status_equal (rr_status r) (rr_status q) then (w, None) else updateStatus cl w r q) of
       (w2, None) \<Rightarrow> (w2, ev, [])
     | (w2, Some e) \<Rightarrow> (w2, Some e, [(EventTypeWarning, ''UpdateFailed'',
         ''Failed to update status for '' @ quote ip (m_name (meta q)) @ '': '' @ err_message ip e)]))"
proof -
  have rep: "report ip ev = ([], ev)" using ReconcileKind_event [OF assms(5)] by auto
  show ?thesis
    using assms
    by (simp add: Reconcile_def core_newState isNotLeaderNorObserver_def reconcileMethodFor_def run_target_def
        setFinalizerIfFinalizer_def rep Let_def split: prod.split option.split)
qed

text \<open>What the controller writes: the desired status of a request.\<close>

lemma IsDone_PreProcess:
  assumes "rr_wf r"
  shows "IsDone (PreProcessReconcile pre r) \<longleftrightarrow>
     IsDone r \<and> s_observedGeneration (rr_status r) = m_generation (meta r)"
proof (cases "s_observedGeneration (rr_status r) = m_generation (meta r)")
  case True
  show ?thesis
  proof (cases "condition_of r")
    case None
    with assms True show ?thesis
      by (simp add: IsDone_def PreProcessReconcile_def Let_def InitializeStatus_eq condition_of_def
          status_condition_def rr_wf_def status_wf_def cond_simps)
        (simp add: IsUnknown_def)
  next
    case (Some x)
    with True PreProcess_observed [OF True] show ?thesis by (simp add: IsDone_def)
  qed
next
  case False
  with PreProcess_new_generation(1) [OF assms False] show ?thesis
    by (simp add: IsDone_def condition_of_def)
qed

lemma core_desired:
  assumes "rr_wf r" "ReconcileKind clk (Some (PreProcessReconcile pre r)) = (Some r', ev)"
    and "q = PostProcessReconcile post r' r"
    and "\<not> (IsDone r \<and> s_observedGeneration (rr_status r) = m_generation (meta r))"
  shows "meta q = meta r" "s_observedGeneration (rr_status q) = m_generation (meta r)"
    "s_data (rr_status q) = s_data (rr_status r)"
    "if s_data (rr_status r) \<noteq> [] then IsTrue (condition_of q) \<and> ev = None
     else if clk 1 - m_creationTimestamp (meta r) > minute then
       IsFalse (condition_of q) \<and> GetReason (condition_of q) = ReasonResolutionTimedOut \<and> ev = None
     else IsUnknown (condition_of q) \<and> GetReason (condition_of q) = ReasonResolutionInProgress \<and>
       ev = Some (RequeueKeyError (dur_sub minute (time_sub (clk 3) (m_creationTimestamp (meta r)))))"
proof -
  let ?p = "PreProcessReconcile pre r"
  note frame = ReconcileKind_frame [OF assms(2)]
  have wf: "rr_wf ?p" using assms(1) by (rule PreProcess_wf)
  have open_p: "\<not> IsDone ?p" using assms(4) IsDone_PreProcess [OF assms(1)] by simp
  show "meta q = meta r" "s_observedGeneration (rr_status q) = m_generation (meta r)"
    "s_data (rr_status q) = s_data (rr_status r)"
    using frame assms(3) by simp_all
  note cond = ReconcileKind_conditions [OF wf open_p, of clk, unfolded assms(2)]
  show "if s_data (rr_status r) \<noteq> [] then IsTrue (condition_of q) \<and> ev = None
     else if clk 1 - m_creationTimestamp (meta r) > minute then
       IsFalse (condition_of q) \<and> GetReason (condition_of q) = ReasonResolutionTimedOut \<and> ev = None
     else IsUnknown (condition_of q) \<and> GetReason (condition_of q) = ReasonResolutionInProgress \<and>
       ev = Some (RequeueKeyError (dur_sub minute (time_sub (clk 3) (m_creationTimestamp (meta r)))))"
    using cond unfolding assms(3) PostProcess_condition by auto
qed

lemma status_equal_condition:
  assumes "status_equal a b"
  shows "IsTrue (status_condition a) = IsTrue (status_condition b)"
    "IsFalse (status_condition a) = IsFalse (status_condition b)"
    "IsUnknown (status_condition a) = IsUnknown (status_condition b)"
    "GetReason (status_condition a) = GetReason (status_condition b)"
    "GetMessage (status_condition a) = GetMessage (status_condition b)"
proof -
  have "list_all2 same_condition (s_conditions a) (s_conditions b)" using assms by (simp add: status_equal_def)
  then have "rel_option same_condition (status_condition a) (status_condition b)"
    unfolding status_condition_def GetCondition_def
    by (induction rule: list_all2_induct) (auto dest: same_condition_sel)
  then show "IsTrue (status_condition a) = IsTrue (status_condition b)"
    "IsFalse (status_condition a) = IsFalse (status_condition b)"
    "IsUnknown (status_condition a) = IsUnknown (status_condition b)"
    "GetReason (status_condition a) = GetReason (status_condition b)"
    "GetMessage (status_condition a) = GetMessage (status_condition b)"
    by (auto simp: IsTrue_def IsFalse_def IsUnknown_def GetReason_def GetMessage_def
        elim!: option.rel_cases dest: same_condition_sel)
qed

text \<open>An API server with optimistic concurrency: a status update is refused with a conflict when
  the resource version sent is not the stored one. It is an instance of the interface on which
  the theorems about conflicts are exercised.\<close>

definition occ_update :: "(nat \<Rightarrow> bool) \<Rightarrow> tracker \<Rightarrow> string \<Rightarrow> rr \<Rightarrow> tracker \<times> rr res" where
  "occ_update ip t ns obj =
     (case tracker_get ip t ns (m_name (meta obj)) of
        Inr cur \<Rightarrow> if m_resourceVersion (meta cur) \<noteq> m_resourceVersion (meta obj)
                   then (t, Inl (StatusError ''Conflict'' 409 ''the object has been modified''))
                   else fake_store ip True t ns obj
      | Inl e \<Rightarrow> (t, Inl e))"

definition occ_client :: "(nat \<Rightarrow> bool) \<Rightarrow> tracker rr_client" where
  "occ_client ip = (fake_client ip)\<lparr>cl_update_status := occ_update ip\<rparr>"

lemma occ_update_cases:
  "occ_update ip t ns obj = fake_store ip True t ns obj \<or> (\<exists>e. occ_update ip t ns obj = (t, Inl e))"
  by (simp add: occ_update_def split: sum.split)

lemma occ_client_sel [simp]:
  "cl_get (occ_client ip) = tracker_get ip" "cl_create (occ_client ip) = cl_create (fake_client ip)"
  "cl_update_status (occ_client ip) = occ_update ip" "cl_patch_status (occ_client ip) = cl_patch_status (fake_client ip)"
  by (simp_all add: occ_client_def)

lemma occ_update_ok:
  assumes "occ_update ip t ns r = (t', Inr r')"
  shows "cl_update_status (fake_client ip) t ns r = (t', Inr r')"
  using assms occ_update_cases [of ip t ns r] by auto

interpretation occ: rr_api "occ_client ip" tracker_wf for ip
proof
  fix t t' :: tracker and ns ns' n n' :: string and r r' :: rr and p x e
  show "m_namespace (meta r) = ns \<and> m_name (meta r) = n"
    if "tracker_wf t" "cl_get (occ_client ip) t ns n = Inr r"
    using that tracker_get_wf by simp
  show "\<exists>s. cl_get (occ_client ip) t' ns (m_name (meta r)) = Inr s \<and> rr_status s = rr_status r"
    if "tracker_wf t" "cl_update_status (occ_client ip) t ns r = (t', Inr r')"
    using fake.update_status_ok [OF that(1) occ_update_ok] that(2) by simp
  show "t' = t" if "cl_update_status (occ_client ip) t ns r = (t', Inl e)"
    using that occ_update_cases [of ip t ns r] fake.update_status_err [of ip t ns r t' e] by auto
  show "cl_get (occ_client ip) t' ns' n' = cl_get (occ_client ip) t ns' n'"
    if "tracker_wf t" "cl_update_status (occ_client ip) t ns r = (t', x)" "(ns', n') \<noteq> (ns, m_name (meta r))"
    using that(2) occ_update_cases [of ip t ns r] fake.update_status_frame [OF that(1) _ that(3), of ip t' x] by auto
  show "tracker_wf (fst (cl_update_status (occ_client ip) t ns r))" if "tracker_wf t"
    using occ_update_cases [of ip t ns r] fake.inv_update_status [OF that, of ip ns r] that by auto
  show "\<exists>s. cl_get (occ_client ip) t' ns n = Inr s \<and> s_data (rr_status s) = sp_data p \<and>
      same_conditions (s_conditions (rr_status s)) (s_conditions (rr_status r))"
    if "tracker_wf t" "cl_patch_status (occ_client ip) t ns n p = (t', Inr r')" "cl_get (occ_client ip) t ns n = Inr r"
    using fake.patch_status_ok [OF that(1), of ip ns n p t' r' r] that(2,3) by simp
  show "cl_get (occ_client ip) t' ns' n' = cl_get (occ_client ip) t ns' n'"
    if "tracker_wf t" "cl_patch_status (occ_client ip) t ns n p = (t', x)" "(ns', n') \<noteq> (ns, n)"
    using fake.patch_status_frame [OF that(1) _ that(3), of ip p t' x] that(2) by simp
  show "\<exists>s. cl_get (occ_client ip) t' ns (m_name (meta r)) = Inr s \<and> spec_params s = spec_params r \<and>
      m_labels (meta s) = m_labels (meta r) \<and> rr_status s = rr_status r"
    if "tracker_wf t" "cl_create (occ_client ip) t ns r = (t', Inr r')"
    using fake.create_ok [OF that(1), of ip ns r t' r'] that(2) by simp
qed (use fake.patch_status_err fake.create_err fake.inv_patch_status fake.inv_create in auto)

lemma tracker_add_replace:
  assumes "m_namespace (meta obj) = ns" "map_of t (ns, m_name (meta obj)) \<noteq> None"
  shows "tracker_add ip t obj ns True = Inr (AList.update (ns, m_name (meta obj)) (propagate_ns ns obj) t)"
proof -
  have "m_namespace (meta (propagate_ns ns obj)) = ns" using assms(1) by (simp add: propagate_ns_def)
  with assms(2) show ?thesis by (auto simp: tracker_add_def Let_def)
qed

lemma fake_updateStatus:
  assumes "map_of t (m_namespace (meta x), m_name (meta x)) \<noteq> None"
  shows "\<exists>t'. updateStatus (fake_client ip) t x desired = (t', None)"
proof (cases "status_equal (rr_status x) (rr_status desired)")
  case True
  then show ?thesis by (simp add: updateStatus_equal)
next
  case False
  let ?x = "x\<lparr>rr_status := rr_status desired\<rparr>"
  obtain t' where "tracker_add ip t ?x (m_namespace (meta x)) True = Inr t'"
    using tracker_add_replace [of ?x "m_namespace (meta x)" t ip] assms by auto
  with False show ?thesis
    by (simp add: updateStatus_unroll update_attempt_def Let_def fake_store_def tracker_get_add)
qed

text \<open>With the object stored, a run against the fake clientset never fails.\<close>

lemma core_Reconcile_fake:
  assumes "SplitMetaNamespaceKey ip key = Inr (ns, n)" "leader ns n" "lister_Get ip idx ns n = Inr r"
    and "m_deletionTimestamp (meta r) = None"
    and "tracker_wf t" "map_of t (m_namespace (meta r), m_name (meta r)) \<noteq> None"
  shows "\<exists>w' e. Reconcile ip pre post (fake_client ip) idx (core_impl clk leader) c t key = (w', e, [])"
proof -
  obtain r' ev where k: "ReconcileKind clk (Some (PreProcessReconcile pre r)) = (Some r', ev)"
    using ReconcileKind_total by blast
  show ?thesis
    using fake_updateStatus [OF assms(6), of ip "PostProcessReconcile post r' r"]
    by (auto simp: core_Reconcile_eq [where leader = leader, OF assms(1-4) k refl])
qed

definition example_cache :: indexer where
  "example_cache = [(''ns/git-1'', example_request)]"

definition example_tracker :: tracker where
  "example_tracker = [((''ns'', ''git-1''), example_request)]"

lemma example_meta [simp]:
  "m_namespace (meta example_request) = ''ns''" "m_name (meta example_request) = ''git-1''"
  "m_deletionTimestamp (meta example_request) = None" "m_generation (meta example_request) = 1"
  "m_resourceVersion (meta example_request) = []"
  by (simp_all add: example_request_def empty_meta_def)

lemma example_lookup:
  "SplitMetaNamespaceKey ip ''ns/git-1'' = Inr (''ns'', ''git-1'')"
  "lister_Get ip example_cache ''ns'' ''git-1'' = Inr example_request"
  "m_deletionTimestamp (meta example_request) = None"
  "tracker_get ip example_tracker ''ns'' ''git-1'' = Inr example_request"
  "tracker_wf example_tracker"
  "map_of example_tracker (m_namespace (meta example_request), m_name (meta example_request)) \<noteq> None"
  by (simp_all add: SplitMetaNamespaceKey_def lister_Get_def example_cache_def tracker_get_def
      example_tracker_def tracker_wf_def)

text \<open>The example after a resolver stored data and the controller marked it.\<close>

definition example_done :: rr where
  "example_done = example_request\<lparr>rr_status := MarkSucceeded (\<lambda>_. 0)
     (empty_status\<lparr>s_observedGeneration := 1, s_data := ''ZGF0YQ==''\<rparr>)\<rparr>"

lemma example_done_facts:
  "rr_wf example_done" "IsDone example_done"
  "s_observedGeneration (rr_status example_done) = m_generation (meta example_done)"
  by (simp_all add: example_done_def rr_wf_def status_wf_def lifecycle_eqs IsDone_def status_condition_def cond_simps
      empty_status_def go_wf_def example_request_def empty_meta_def)

lemma core_outcome:
  assumes "rr_api cl api_inv" "api_inv w" "rr_wf r"
    and "SplitMetaNamespaceKey ip key = Inr (ns, n)" "leader ns n"
    and "lister_Get ip idx ns n = Inr r" "m_namespace (meta r) = ns" "m_name (meta r) = n"
    and "m_deletionTimestamp (meta r) = None"
    and "\<not> (IsDone r \<and> s_observedGeneration (rr_status r) = m_generation (meta r))"
    and "Reconcile ip pre post cl idx (core_impl clk leader) c w key = (w', e, [])"
  shows "\<exists>s. (cl_get cl w' ns n = Inr s \<or> w' = w \<and> s = r) \<and>
     s_observedGeneration (rr_status s) = m_generation (meta r) \<and> s_data (rr_status s) = s_data (rr_status r) \<and>
     (if s_data (rr_status r) \<noteq> [] then IsTrue (condition_of s) \<and> e = None
      else if clk 1 - m_creationTimestamp (meta r) > minute then
        IsFalse (condition_of s) \<and> GetReason (condition_of s) = ReasonResolutionTimedOut \<and> e = None
      else IsUnknown (condition_of s) \<and> GetReason (condition_of s) = ReasonResolutionInProgress \<and>
        e = Some (RequeueKeyError (dur_sub minute (time_sub (clk 3) (m_creationTimestamp (meta r))))))"
proof -
  obtain r' ev where k: "ReconcileKind clk (Some (PreProcessReconcile pre r)) = (Some r', ev)"
    using ReconcileKind_total by blast
  define q where "q = PostProcessReconcile post r' r"
  note desired = core_desired [OF assms(3) k q_def assms(10)]
  have names: "m_namespace (meta q) = ns" "m_name (meta q) = n" using desired(1) assms(7,8) by simp_all
  note run = core_Reconcile_eq [where leader = leader, OF assms(4,5,6,9) k q_def, of cl c w, unfolded assms(11)]
  have "e = ev \<and> (\<exists>s. (cl_get cl w' ns n = Inr s \<or> w' = w \<and> s = r) \<and> status_equal (rr_status s) (rr_status q))"
  proof (cases "status_equal (rr_status r) (rr_status q)")
    case True
    with run show ?thesis by auto
  next
    case False
    with run have u: "updateStatus cl w r q = (w', None)" "e = ev" by (auto split: prod.splits option.splits)
    from rr_api.updateStatus_ok [OF assms(1) u(1) assms(2)] False u(2) names assms(7,8) show ?thesis by auto
  qed
  then obtain s where s: "e = ev" "cl_get cl w' ns n = Inr s \<or> w' = w \<and> s = r" "status_equal (rr_status s) (rr_status q)"
    by blast
  have "s_observedGeneration (rr_status s) = m_generation (meta r)" "s_data (rr_status s) = s_data (rr_status r)"
    using s(3) desired(2,3) by (simp_all add: status_equal_def)
  with s(1,2) desired(4) status_equal_condition [OF s(3)] show ?thesis
    unfolding condition_of_def by (intro exI [of _ s]) simp
qed

lemma core_settled_idle:
  assumes "rr_wf r" "IsDone r" "s_observedGeneration (rr_status r) = m_generation (meta r)"
    and "SplitMetaNamespaceKey ip key = Inr (ns, n)" "leader ns n" "lister_Get ip idx ns n = Inr r"
  shows "Reconcile ip pre post cl idx (core_impl clk leader) c w key = (w, None, [])"
proof (cases "m_deletionTimestamp (meta r)")
  case None
  let ?p = "PreProcessReconcile pre r"
  have "IsDone ?p" using assms(1-3) by (simp add: IsDone_PreProcess)
  then have k: "ReconcileKind clk (Some ?p) = (Some ?p, None)" by (rule ReconcileKind_done)
  have "condition_of r \<noteq> None" using assms(2) by (auto simp: IsDone_def condition_of_def IsUnknown_def split: option.splits)
  with assms(3) have st: "rr_status ?p = rr_status r" by (rule PreProcess_observed)
  have "rr_status (PostProcessReconcile post ?p r) = rr_status ?p"
    using assms(1,3) st by (intro PostProcess_id) (simp_all add: PreProcess_wf)
  with st show ?thesis by (simp add: core_Reconcile_eq [where leader = leader, OF assms(4-6) None k refl])
next
  case (Some t)
  with core_Reconcile_idle(4) [OF assms(4), of leader idx r] assms(5,6) show ?thesis by simp
qed

lemma example_run:
  "\<exists>w' s. Reconcile (\<lambda>_. False) (\<lambda>_. 0) 0 (fake_client (\<lambda>_. False)) example_cache
       (core_impl (\<lambda>_. 61 * second) (\<lambda>_ _. True)) Background example_tracker ''ns/git-1'' = (w', None, []) \<and>
     tracker_get (\<lambda>_. False) w' ''ns'' ''git-1'' = Inr s \<and> IsFalse (condition_of s)"
proof -
  let ?run = "Reconcile (\<lambda>_. False) (\<lambda>_. 0) 0 (fake_client (\<lambda>_. False)) example_cache
       (core_impl (\<lambda>_. 61 * second) (\<lambda>_ _. True)) Background example_tracker ''ns/git-1''"
  obtain w' e where run: "?run = (w', e, [])"
    using core_Reconcile_fake [where leader = "\<lambda>_ _. True", OF example_lookup(1) TrueI example_lookup(2,3,5,6)]
    by blast
  have open_r: "\<not> (IsDone example_request \<and> s_observedGeneration (rr_status example_request) = m_generation (meta example_request))"
    by (simp add: example_fresh)
  have "\<not> IsFalse (condition_of example_request)"
    using example_fresh(1) by (auto simp: IsDone_def condition_of_def dest: cond_exclusive)
  with core_outcome [where leader = "\<lambda>_ _. True", OF fake.rr_api_axioms example_lookup(5)
      example_request_wf example_lookup(1) TrueI example_lookup(2) example_meta(1,2) example_lookup(3) open_r run]
  show ?thesis using run by (auto simp: example_fresh second_def minute_def)
qed

text \<open>A status write that meets a conflict and then succeeds stores the status computed from the
  cached copy, whatever the server held by then.\<close>

lemma updateStatus_conflict:
  assumes "\<not> status_equal (rr_status existing) (rr_status desired)"
    and "cl_update_status cl w (m_namespace (meta existing)) (existing\<lparr>rr_status := rr_status desired\<rparr>) = (w, Inl e)"
    and "IsConflict e" "cl_get cl w (m_namespace (meta desired)) (m_name (meta desired)) = Inr x"
    and "\<not> status_equal (rr_status x) (rr_status desired)"
    and "cl_update_status cl w (m_namespace (meta x)) (x\<lparr>rr_status := rr_status desired\<rparr>) = (w', Inr x')"
  shows "updateStatus cl w existing desired = (w', None)"
proof -
  let ?f = "update_attempt cl desired"
  have 0: "?f 0 (w, existing) = ((w, existing\<lparr>rr_status := rr_status desired\<rparr>), Some e)"
    using assms(1,2) by (simp add: update_attempt_def Let_def)
  have 1: "?f 1 (w, y) = ((w', x\<lparr>rr_status := rr_status desired\<rparr>), None)" for y
    using assms(4-6) by (simp add: update_attempt_def Let_def)
  have four: "(4::nat) = Suc 3" by simp
  have "retry_conflicts 4 1 ?f (w, y) = ((w', x\<lparr>rr_status := rr_status desired\<rparr>), None)" for y
    unfolding four retry_conflicts.simps 1 by simp
  with 0 assms(3) show ?thesis unfolding updateStatus_unroll 0 by simp
qed

subsection \<open>Properties\<close>

text \<open>
  C3. One run of the core controller on a request that is not settled (not done, or done before
  its current generation was observed), as leader, against any API server that keeps the
  interface's laws: unless the write fails, which is returned and recorded as an event, the
  server holds afterwards (or the cache held before, and nothing was written) a status with the
  observed generation of the request whose condition is: succeeded when the request has data,
  failed with \<^verbatim>\<open>ResolutionTimedOut\<close> when it has none and is older than a minute, in progress
  otherwise, in which case the key is requeued.
\<close>

theorem core_Reconcile_outcome:
  assumes "rr_api cl api_inv" "api_inv w" "rr_wf r"
    and "SplitMetaNamespaceKey ip key = Inr (ns, n)" "leader ns n"
    and "lister_Get ip idx ns n = Inr r" "m_namespace (meta r) = ns" "m_name (meta r) = n"
    and "m_deletionTimestamp (meta r) = None"
    and "\<not> (IsDone r \<and> s_observedGeneration (rr_status r) = m_generation (meta r))"
    and "Reconcile ip pre post cl idx (core_impl clk leader) c w key = (w', e, [])"
  shows "\<exists>s. (cl_get cl w' ns n = Inr s \<or> w' = w \<and> s = r) \<and>
     s_observedGeneration (rr_status s) = m_generation (meta r) \<and> s_data (rr_status s) = s_data (rr_status r) \<and>
     (if s_data (rr_status r) \<noteq> [] then IsTrue (condition_of s) \<and> e = None
      else if clk 1 - m_creationTimestamp (meta r) > minute then
        IsFalse (condition_of s) \<and> GetReason (condition_of s) = ReasonResolutionTimedOut \<and> e = None
      else IsUnknown (condition_of s) \<and> GetReason (condition_of s) = ReasonResolutionInProgress \<and>
        e = Some (RequeueKeyError (dur_sub minute (time_sub (clk 3) (m_creationTimestamp (meta r))))))"
  using core_outcome [OF assms] .

theorem core_Reconcile_outcome_witness:
  "\<exists>w' s. Reconcile (\<lambda>_. False) (\<lambda>_. 0) 0 (fake_client (\<lambda>_. False)) example_cache
       (core_impl (\<lambda>_. 61 * second) (\<lambda>_ _. True)) Background example_tracker ''ns/git-1'' = (w', None, []) \<and>
     (tracker_get (\<lambda>_. False) w' ''ns'' ''git-1'' = Inr s \<or> w' = example_tracker \<and> s = example_request) \<and>
     IsFalse (condition_of s) \<and> GetReason (condition_of s) = ReasonResolutionTimedOut"
proof -
  let ?run = "Reconcile (\<lambda>_. False) (\<lambda>_. 0) 0 (fake_client (\<lambda>_. False)) example_cache
       (core_impl (\<lambda>_. 61 * second) (\<lambda>_ _. True)) Background example_tracker ''ns/git-1''"
  obtain w' e where run: "?run = (w', e, [])"
    using core_Reconcile_fake [where leader = "\<lambda>_ _. True", OF example_lookup(1) TrueI example_lookup(2,3,5,6)]
    by blast
  have "\<not> (IsDone example_request \<and> s_observedGeneration (rr_status example_request) = m_generation (meta example_request))"
    by (simp add: example_fresh)
  from core_Reconcile_outcome [where leader = "\<lambda>_ _. True", OF fake.rr_api_axioms example_lookup(5)
      example_request_wf example_lookup(1) TrueI example_lookup(2) example_meta(1,2) example_lookup(3) this run]
  obtain s where "tracker_get (\<lambda>_. False) w' ''ns'' ''git-1'' = Inr s \<or> w' = example_tracker \<and> s = example_request"
    "IsFalse (condition_of s)" "GetReason (condition_of s) = ReasonResolutionTimedOut" "e = None"
    by (auto simp: example_fresh second_def minute_def)
  with run show ?thesis by blast
qed

text \<open>
  C31. A settled request stays as it is: once a request is done and its generation observed, a run
  of the core controller returns no error, records no event and writes nothing, whatever the
  API client would do.
\<close>

theorem core_Reconcile_settled:
  assumes "rr_wf r" "IsDone r" "s_observedGeneration (rr_status r) = m_generation (meta r)"
    and "SplitMetaNamespaceKey ip key = Inr (ns, n)" "leader ns n" "lister_Get ip idx ns n = Inr r"
  shows "Reconcile ip pre post cl idx (core_impl clk leader) c w key = (w, None, [])"
  using core_settled_idle [where leader = leader, OF assms] .

theorem core_Reconcile_settled_witness:
  "Reconcile (\<lambda>_. False) (\<lambda>_. 0) 0 (fake_client (\<lambda>_. False)) [(''ns/git-1'', example_done)]
     (core_impl (\<lambda>_. 0) (\<lambda>_ _. True)) Background [] ''ns/git-1'' = ([], None, [])"
  by (rule core_Reconcile_settled [where leader = "\<lambda>_ _. True", OF example_done_facts(1,2,3) example_lookup(1) TrueI])
    (simp add: lister_Get_def)

text \<open>
  C32. The core controller writes to the API server only for a key that parses, whose bucket it
  leads, whose request is in the cache and not being deleted, and that is not settled.
\<close>

theorem core_Reconcile_writes_only:
  assumes "fst (Reconcile ip pre post cl idx (core_impl clk leader) c w key) \<noteq> w"
    and "list_all (\<lambda>(k, r). rr_wf r) idx"
  shows "\<exists>ns n r. SplitMetaNamespaceKey ip key = Inr (ns, n) \<and> leader ns n \<and>
     lister_Get ip idx ns n = Inr r \<and> m_deletionTimestamp (meta r) = None \<and>
     \<not> (IsDone r \<and> s_observedGeneration (rr_status r) = m_generation (meta r))"
proof -
  let ?run = "Reconcile ip pre post cl idx (core_impl clk leader) c w key"
  obtain ns n where key: "SplitMetaNamespaceKey ip key = Inr (ns, n)"
    using core_Reconcile_idle(1) [of ip key pre post cl idx clk leader c w] assms(1) by (cases "SplitMetaNamespaceKey ip key") (auto simp: is_err_def)
  have lead: "leader ns n" using core_Reconcile_idle(2) [OF key] assms(1) by (metis fst_conv)
  obtain r where r: "lister_Get ip idx ns n = Inr r"
    using core_Reconcile_idle(3) [OF key, of leader idx pre post cl clk c w] lead assms(1) by (cases "lister_Get ip idx ns n") (auto simp: is_err_def)
  have del: "m_deletionTimestamp (meta r) = None"
    using core_Reconcile_idle(4) [OF key, of leader] lead r assms(1) by (metis fst_conv)
  have "rr_wf r"
    using r assms(2) by (auto simp: lister_Get_def list_all_iff dest!: map_of_SomeD split: option.splits)
  with core_settled_idle [OF _ _ _ key] lead r assms(1)
  have "\<not> (IsDone r \<and> s_observedGeneration (rr_status r) = m_generation (meta r))" by (metis fst_conv)
  with key lead r del show ?thesis by blast
qed

theorem core_Reconcile_writes_only_witness:
  "\<exists>ns n r. SplitMetaNamespaceKey (\<lambda>_. False) ''ns/git-1'' = Inr (ns, n) \<and>
     lister_Get (\<lambda>_. False) example_cache ns n = Inr r \<and> m_deletionTimestamp (meta r) = None \<and>
     \<not> (IsDone r \<and> s_observedGeneration (rr_status r) = m_generation (meta r))"
proof -
  let ?run = "Reconcile (\<lambda>_. False) (\<lambda>_. 0) 0 (fake_client (\<lambda>_. False)) example_cache
       (core_impl (\<lambda>_. 61 * second) (\<lambda>_ _. True)) Background example_tracker ''ns/git-1''"
  obtain w' s where run: "?run = (w', None, [])"
    and s: "tracker_get (\<lambda>_. False) w' ''ns'' ''git-1'' = Inr s" "IsFalse (condition_of s)"
    using example_run by blast
  have "\<not> IsFalse (condition_of example_request)"
    using example_fresh(1) by (auto simp: IsDone_def condition_of_def dest: cond_exclusive)
  with s example_lookup(4) [of "\<lambda>_. False"] have "w' \<noteq> example_tracker" by auto
  with run have changed: "fst ?run \<noteq> example_tracker" by simp
  have "list_all (\<lambda>(k, r). rr_wf r) example_cache" by (simp add: example_cache_def)
  from core_Reconcile_writes_only [OF changed this] show ?thesis by simp
qed

text \<open>
  Retrying a conflicting write is bounded: the retried function is called at most five times,
  and counting the calls does not change the outcome.
\<close>

theorem RetryUpdateConflicts_bound:
  "case RetryUpdateConflicts (counted f) (s, 0) of ((s', calls), e) \<Rightarrow>
     RetryUpdateConflicts f s = (s', e) \<and> calls \<le> 5"
  using retry_counted [of DefaultRetry_Steps 0 f s 0]
  by (auto simp: RetryUpdateConflicts_def DefaultRetry_Steps_def split: prod.splits)

text \<open>
  C38. Lost update: when the first write of a status meets a conflict because another writer (a
  resolver storing its data) changed the request, the retry fetches the new object but stores
  the status computed from the old copy over it. The server's data is the cached copy's again.
\<close>

theorem updateStatus_loses_data:
  assumes "rr_api cl api_inv" "api_inv w"
    and "\<not> status_equal (rr_status existing) (rr_status desired)"
    and "cl_update_status cl w (m_namespace (meta existing)) (existing\<lparr>rr_status := rr_status desired\<rparr>) = (w, Inl e)"
    and "IsConflict e"
    and "cl_get cl w (m_namespace (meta desired)) (m_name (meta desired)) = Inr x"
    and "s_data (rr_status x) \<noteq> s_data (rr_status desired)"
    and "cl_update_status cl w (m_namespace (meta x)) (x\<lparr>rr_status := rr_status desired\<rparr>) = (w', Inr x')"
  shows "updateStatus cl w existing desired = (w', None) \<and>
    (\<exists>s. cl_get cl w' (m_namespace (meta desired)) (m_name (meta desired)) = Inr s \<and>
         s_data (rr_status s) = s_data (rr_status desired))"
proof -
  have "\<not> status_equal (rr_status x) (rr_status desired)" using assms(7) by (simp add: status_equal_def)
  from updateStatus_conflict [OF assms(3-6) this assms(8)]
  have "updateStatus cl w existing desired = (w', None)" .
  moreover have "m_namespace (meta x) = m_namespace (meta desired)" "m_name (meta x) = m_name (meta desired)"
    using rr_api.get_meta [OF assms(1,2,6)] by simp_all
  ultimately show ?thesis using rr_api.update_status_ok [OF assms(1,2,8)] by auto
qed

text \<open>The request whose status the resolver has just written, under a new resource version, and
  the status the core controller computed from its older copy.\<close>

definition example_resolved :: rr where
  "example_resolved = example_request\<lparr>
     meta := (meta example_request)\<lparr>m_resourceVersion := ''2''\<rparr>,
     rr_status := empty_status\<lparr>s_data := ''ZGF0YQ==''\<rparr>\<rparr>"

definition example_stale :: rr where
  "example_stale = example_request\<lparr>rr_status := MarkInProgress (\<lambda>_. 0) empty_status MessageWaitingForResolver\<rparr>"

theorem updateStatus_loses_data_witness:
  "\<exists>t' s. updateStatus (occ_client (\<lambda>_. False)) [((''ns'', ''git-1''), example_resolved)]
       example_request example_stale = (t', None) \<and>
     s_data (rr_status example_resolved) = ''ZGF0YQ=='' \<and>
     tracker_get (\<lambda>_. False) t' ''ns'' ''git-1'' = Inr s \<and> s_data (rr_status s) = []"
proof -
  let ?ip = "\<lambda>_::nat. False" and ?t = "[((''ns'', ''git-1''), example_resolved)]"
  let ?x = "example_resolved\<lparr>rr_status := rr_status example_stale\<rparr>"
  let ?e = "StatusError ''Conflict'' 409 ''the object has been modified''"
  have wf: "tracker_wf ?t" by (simp add: tracker_wf_def example_resolved_def)
  have neq: "\<not> status_equal (rr_status example_request) (rr_status example_stale)"
    by (simp add: status_equal_def example_stale_def example_request_def empty_status_def MarkInProgress_eq
        SetCondition_def)
  have get: "tracker_get ?ip ?t ''ns'' ''git-1'' = Inr example_resolved" by (simp add: tracker_get_def)
  have names: "m_namespace (meta example_stale) = ''ns''" "m_name (meta example_stale) = ''git-1''"
    "m_namespace (meta example_resolved) = ''ns''" "m_name (meta example_resolved) = ''git-1''"
    by (simp_all add: example_stale_def example_resolved_def)
  have conflict: "occ_update ?ip ?t ''ns'' (example_request\<lparr>rr_status := rr_status example_stale\<rparr>) = (?t, Inl ?e)"
    by (simp add: occ_update_def get) (simp add: example_resolved_def)
  have is_c: "IsConflict ?e" by (simp add: IsConflict_def status_is_def err_chain.simps)
  have data: "s_data (rr_status example_resolved) \<noteq> s_data (rr_status example_stale)"
    by (simp add: example_resolved_def example_stale_def empty_status_def)
  have "tracker_add ?ip ?t ?x ''ns'' True = Inr (AList.update (''ns'', ''git-1'') (propagate_ns ''ns'' ?x) ?t)"
    using tracker_add_replace [of ?x "''ns''" ?t ?ip] names by simp
  then obtain t' x' where second: "occ_update ?ip ?t ''ns'' ?x = (t', Inr x')"
    by (simp add: occ_update_def get names fake_store_def tracker_get_def update_conv)
  have "updateStatus (occ_client ?ip) ?t example_request example_stale = (t', None) \<and>
    (\<exists>s. cl_get (occ_client ?ip) t' (m_namespace (meta example_stale)) (m_name (meta example_stale)) = Inr s \<and>
      s_data (rr_status s) = s_data (rr_status example_stale))"
    using updateStatus_loses_data [where cl = "occ_client ?ip" and w = ?t and e = ?e and w' = t' and x' = x',
        OF occ.rr_api_axioms wf neq _ is_c _ data]
    by (simp add: names get conflict second)
  then show ?thesis by (auto simp: names example_resolved_def example_stale_def empty_status_def)
qed



end
