(* ===== verification/Framework.thy ===== *)
theory Framework
  imports Config_Store Base64 Gen_Reconciler
begin

section \<open>The resolver framework\<close>

text \<open>
  \<^verbatim>\<open>pkg/resolver/framework\<close>: the controller every resolver runs in. \<^verbatim>\<open>interface.go\<close> is the record
  \<open>resolver\<close>, its optional interfaces \<^verbatim>\<open>ConfigWatcher\<close> and \<^verbatim>\<open>TimedResolution\<close> being optional fields;
  \<^verbatim>\<open>controller.go\<close> is the construction of the controller and its event filter;
  \<^verbatim>\<open>reconciler.go\<close> is \<open>Reconcile_fw\<close> with \<open>OnError\<close>, \<open>fw_MarkFailed\<close> and \<open>writeResolvedData\<close>.

  \<^verbatim>\<open>resolve\<close> starts a goroutine that validates and resolves, and waits for its answer or for the
  end of the resolution context. That concurrency is the step relation \<open>resolve_step\<close>; what the
  \<^verbatim>\<open>select\<close> statement received is an \<open>outcome\<close>, and \<open>resolve\<close> is the code after it.
\<close>

subsection \<open>The resolver interface\<close>

record resolved_resource =
  res_Data :: string
  res_Annotations :: gomap

record resolver =
  rv_Initialize :: "ctx \<Rightarrow> err option"
  rv_GetName :: "ctx \<Rightarrow> string"
  rv_GetSelector :: "ctx \<Rightarrow> gomap"
  rv_ValidateParams :: "ctx \<Rightarrow> gomap \<Rightarrow> err option"
  rv_Resolve :: "ctx \<Rightarrow> gomap \<Rightarrow> resolved_resource res"
  rv_GetConfigName :: "(ctx \<Rightarrow> string) option"
  rv_GetResolutionTimeout :: "(ctx \<Rightarrow> duration \<Rightarrow> duration) option"

record fw_reconciler =
  fw_resolver :: resolver
  fw_configStore :: "config_store option"
  fw_clock_set :: bool

subsection \<open>Construction of the controller\<close>

text \<open>\<^verbatim>\<open>filterResolutionRequestsBySelector\<close>: the objects a handler receives are requests or something
  else (\<open>None\<close>).\<close>

fun selector_loop :: "gomap \<Rightarrow> (string \<times> string) list \<Rightarrow> bool" where
  "selector_loop labels [] = True"
| "selector_loop labels ((key, val) # rest) =
     (case go_lookup labels key of
        None \<Rightarrow> False
      | Some lookup \<Rightarrow> if lookup \<noteq> val then False else selector_loop labels rest)"

definition filterResolutionRequestsBySelector :: "gomap \<Rightarrow> rr option \<Rightarrow> bool" where
  "filterResolutionRequestsBySelector selector obj =
     (case obj of None \<Rightarrow> False
      | Some r \<Rightarrow>
          if go_len (m_labels (meta r)) = 0 then False
          else selector_loop (m_labels (meta r)) (go_entries selector))"

definition leaderAwareFuncs :: "indexer \<Rightarrow> (string \<times> string) list" where
  "leaderAwareFuncs idx = map (\<lambda>r. (m_namespace (meta r), m_name (meta r))) (lister_List idx Everything)"

definition ErrorMissingTypeSelector :: "(nat \<Rightarrow> bool) \<Rightarrow> err" where
  "ErrorMissingTypeSelector ip =
     ErrorString (''invalid resolver: minimum selector must include '' @ quote ip LabelKeyResolverType)"

definition validateResolver :: "(nat \<Rightarrow> bool) \<Rightarrow> ctx \<Rightarrow> resolver \<Rightarrow> err option" where
  "validateResolver ip c r =
     (case rv_GetSelector r c of
        None \<Rightarrow> Some (ErrorMissingTypeSelector ip)
      | sel \<Rightarrow> if go_index sel LabelKeyResolverType = [] then Some (ErrorMissingTypeSelector ip) else None)"

text \<open>\<^verbatim>\<open>watchConfigChanges\<close>: a panic is the error.\<close>

definition watchConfigChanges :: "ctx \<Rightarrow> fw_reconciler \<Rightarrow> fw_reconciler res" where
  "watchConfigChanges c r =
     (case rv_GetConfigName (fw_resolver r) of
        None \<Rightarrow> Inr r
      | Some getName \<Rightarrow>
          if getName c = [] then Inl (ErrorString ''resolver returned empty config name'')
          else Inr (r\<lparr>fw_configStore := Some (NewConfigStore (getName c))\<rparr>))"

definition applyModifiersAndDefaults :: "fw_reconciler \<Rightarrow> (fw_reconciler \<Rightarrow> fw_reconciler) list \<Rightarrow> fw_reconciler" where
  "applyModifiersAndDefaults r modifiers =
     (let r1 = fold (\<lambda>m r. m r) modifiers r in r1\<lparr>fw_clock_set := True\<rparr>)"

record fw_controller =
  fc_reconciler :: fw_reconciler
  fc_workQueueName :: string
  fc_filter :: "rr option \<Rightarrow> bool"

definition NewController ::
  "(nat \<Rightarrow> bool) \<Rightarrow> ctx \<Rightarrow> resolver \<Rightarrow> (fw_reconciler \<Rightarrow> fw_reconciler) list \<Rightarrow> fw_controller res" where
  "NewController ip c resolver modifiers =
     (case validateResolver ip c resolver of
        Some e \<Rightarrow> Inl e
      | None \<Rightarrow>
        (case rv_Initialize resolver c of
           Some e \<Rightarrow> Inl e
         | None \<Rightarrow>
           (case watchConfigChanges c \<lparr> fw_resolver = resolver, fw_configStore = None, fw_clock_set = False \<rparr> of
              Inl e \<Rightarrow> Inl e
            | Inr r \<Rightarrow>
              (let resolverName = replace_all (CHR '' '') [] (replace_all (CHR ''/'') [] (rv_GetName resolver c))
               in Inr \<lparr> fc_reconciler = applyModifiersAndDefaults r modifiers,
                        fc_workQueueName = ''TektonResolverFramework.'' @ resolverName,
                        fc_filter = filterResolutionRequestsBySelector (rv_GetSelector resolver c) \<rparr>))))"

subsection \<open>The goroutine and the select statement\<close>

text \<open>The worker is where the goroutine stands: about to validate, about to resolve, blocked on one
  of the two unbuffered channels, or finished. The resolution context is done once it carries an
  error; \<open>Canceled\<close> is the parent's cancellation or the deferred \<^verbatim>\<open>cancelFn\<close>.\<close>

datatype worker = Validating | Resolving | SendErr err | SendRes resolved_resource | Exited

datatype outcome = Got_err err | Got_done err | Got_resource resolved_resource

record select_state =
  ss_worker :: worker
  ss_ctx_err :: "err option"
  ss_result :: "outcome option"

definition select_init :: select_state where
  "select_init = \<lparr> ss_worker = Validating, ss_ctx_err = None, ss_result = None \<rparr>"

definition after_validate :: "resolver \<Rightarrow> ctx \<Rightarrow> string \<Rightarrow> (nat \<Rightarrow> bool) \<Rightarrow> gomap \<Rightarrow> worker" where
  "after_validate rv c key ip params =
     (case rv_ValidateParams rv c params of
        Some validationError \<Rightarrow> SendErr (ErrorInvalidRequest key (err_message ip validationError))
      | None \<Rightarrow> Resolving)"

definition after_resolve :: "resolver \<Rightarrow> ctx \<Rightarrow> string \<Rightarrow> gomap \<Rightarrow> worker" where
  "after_resolve rv c key params =
     (case rv_Resolve rv c params of
        Inl resolveErr \<Rightarrow> SendErr (ErrorGettingResource (rv_GetName rv c) key resolveErr)
      | Inr resource \<Rightarrow> SendRes resource)"

inductive resolve_step :: "resolver \<Rightarrow> ctx \<Rightarrow> string \<Rightarrow> (nat \<Rightarrow> bool) \<Rightarrow> gomap \<Rightarrow> select_state \<Rightarrow> select_state \<Rightarrow> bool"
  for rv :: resolver and c :: ctx and key :: string and ip :: "nat \<Rightarrow> bool" and params :: gomap where
  validate: "ss_worker s = Validating \<Longrightarrow>
     resolve_step rv c key ip params s (s\<lparr>ss_worker := after_validate rv c key ip params\<rparr>)"
| resolving: "ss_worker s = Resolving \<Longrightarrow>
     resolve_step rv c key ip params s (s\<lparr>ss_worker := after_resolve rv c key params\<rparr>)"
| recv_err: "ss_worker s = SendErr e \<Longrightarrow> ss_result s = None \<Longrightarrow>
     resolve_step rv c key ip params s (s\<lparr>ss_worker := Exited, ss_result := Some (Got_err e)\<rparr>)"
| recv_res: "ss_worker s = SendRes r \<Longrightarrow> ss_result s = None \<Longrightarrow>
     resolve_step rv c key ip params s (s\<lparr>ss_worker := Exited, ss_result := Some (Got_resource r)\<rparr>)"
| expire: "ss_ctx_err s = None \<Longrightarrow>
     resolve_step rv c key ip params s (s\<lparr>ss_ctx_err := Some DeadlineExceeded\<rparr>)"
| cancel: "ss_ctx_err s = None \<Longrightarrow>
     resolve_step rv c key ip params s (s\<lparr>ss_ctx_err := Some Canceled\<rparr>)"
| recv_done: "ss_ctx_err s = Some e \<Longrightarrow> ss_result s = None \<Longrightarrow>
     resolve_step rv c key ip params s (s\<lparr>ss_result := Some (Got_done e)\<rparr>)"

inductive resolve_reach :: "resolver \<Rightarrow> ctx \<Rightarrow> string \<Rightarrow> (nat \<Rightarrow> bool) \<Rightarrow> gomap \<Rightarrow> select_state \<Rightarrow> bool"
  for rv :: resolver and c :: ctx and key :: string and ip :: "nat \<Rightarrow> bool" and params :: gomap where
  init: "resolve_reach rv c key ip params select_init"
| step: "resolve_reach rv c key ip params s \<Longrightarrow> resolve_step rv c key ip params s s' \<Longrightarrow>
     resolve_reach rv c key ip params s'"

definition resolution_timeout :: "resolver \<Rightarrow> ctx \<Rightarrow> duration" where
  "resolution_timeout rv c =
     (case rv_GetResolutionTimeout rv of
        None \<Rightarrow> minute
      | Some getTimeout \<Rightarrow> getTimeout c minute)"

definition resolution_ctx :: "resolver \<Rightarrow> ctx \<Rightarrow> ctx" where
  "resolution_ctx rv c = WithTimeout c (resolution_timeout rv c)"

text \<open>The outcomes the scheduler can choose among.\<close>

definition resolve_outcome :: "resolver \<Rightarrow> ctx \<Rightarrow> string \<Rightarrow> (nat \<Rightarrow> bool) \<Rightarrow> gomap \<Rightarrow> outcome \<Rightarrow> bool" where
  "resolve_outcome rv c key ip params o' \<longleftrightarrow>
     (\<exists>s. resolve_reach rv (resolution_ctx rv c) key ip params s \<and> ss_result s = Some o')"

subsection \<open>Handling the outcome\<close>

text \<open>\<^verbatim>\<open>json.Marshal\<close> of the patch: strings are coerced to valid UTF-8, map keys are written in sorted
  order; encoding a struct of strings and string maps returns no error.\<close>

definition marshal_patch :: "status_patch \<Rightarrow> status_patch res" where
  "marshal_patch p =
     Inr \<lparr> sp_annotations =
             (case sp_annotations p of None \<Rightarrow> None
              | Some al \<Rightarrow> Some (copy_range [] (map (\<lambda>(k, v). (json_string k, json_string v)) (sort_key fst al)))),
           sp_data = json_string (sp_data p) \<rparr>"

definition fw_MarkFailed :: "(nat \<Rightarrow> bool) \<Rightarrow> clock \<Rightarrow> 'w rr_client \<Rightarrow> 'w \<Rightarrow> rr \<Rightarrow> err \<Rightarrow> 'w \<times> err option" where
  "fw_MarkFailed ip clk cl w r resolutionErr =
     (case ReasonError resolutionErr of (reason, resolutionErr') \<Rightarrow>
        (case cl_get cl w (m_namespace (meta r)) (m_name (meta r)) of
           Inl e \<Rightarrow> (w, Some e)
         | Inr latestGeneration \<Rightarrow>
             if IsDone latestGeneration then (w, None)
             else
               (case cl_update_status cl w (m_namespace (meta r))
                       (latestGeneration\<lparr>rr_status := MarkFailed clk (rr_status latestGeneration) reason
                          (err_message ip resolutionErr')\<rparr>) of
                  (w', Inl e) \<Rightarrow> (w', Some e)
                | (w', Inr _) \<Rightarrow> (w', None))))"

definition OnError :: "(nat \<Rightarrow> bool) \<Rightarrow> clock \<Rightarrow> 'w rr_client \<Rightarrow> 'w \<Rightarrow> rr option \<Rightarrow> err option \<Rightarrow> 'w \<times> err option" where
  "OnError ip clk cl w orr oerr =
     (case (orr, oerr) of
        (None, Some e) \<Rightarrow> (w, Some (PermanentError e))
      | (None, None) \<Rightarrow> (w, Some (PermanentError (ErrorString [])))
      | (Some r, Some e) \<Rightarrow> (fst (fw_MarkFailed ip clk cl w r e), Some (PermanentError e))
      | (Some r, None) \<Rightarrow> (w, None))"

definition request_key :: "rr \<Rightarrow> string" where
  "request_key r = m_namespace (meta r) @ ''/'' @ m_name (meta r)"

definition writeResolvedData :: "(nat \<Rightarrow> bool) \<Rightarrow> clock \<Rightarrow> 'w rr_client \<Rightarrow> 'w \<Rightarrow> rr \<Rightarrow> resolved_resource \<Rightarrow> 'w \<times> err option" where
  "writeResolvedData ip clk cl w r resource =
     (let encodedData = b64_encode (res_Data resource) in
      case marshal_patch \<lparr> sp_annotations = res_Annotations resource, sp_data = encodedData \<rparr> of
        Inl e \<Rightarrow> OnError ip clk cl w (Some r) (Some (ErrorUpdatingRequest (request_key r)
                   (WrapError ''error serializing resource request patch: '' e)))
      | Inr patch \<Rightarrow>
          (case cl_patch_status cl w (m_namespace (meta r)) (m_name (meta r)) patch of
             (w', Inl e) \<Rightarrow> OnError ip clk cl w' (Some r) (Some (ErrorUpdatingRequest (request_key r) e))
           | (w', Inr _) \<Rightarrow> (w', None)))"

definition resolve :: "(nat \<Rightarrow> bool) \<Rightarrow> clock \<Rightarrow> 'w rr_client \<Rightarrow> 'w \<Rightarrow> rr \<Rightarrow> outcome \<Rightarrow> 'w \<times> err option" where
  "resolve ip clk cl w r o' =
     (case o' of
        Got_err e \<Rightarrow> OnError ip clk cl w (Some r) (Some e)
      | Got_done e \<Rightarrow> OnError ip clk cl w (Some r) (Some e)
      | Got_resource resource \<Rightarrow> writeResolvedData ip clk cl w r resource)"

text \<open>\<^verbatim>\<open>Reconcile\<close>. The result \<open>None\<close> is the panic of a config store with an unregistered name. The
  outcome is chosen by \<open>sched\<close> from the context, the key and the request.\<close>

definition request_ctx :: "fw_reconciler \<Rightarrow> ctx \<Rightarrow> string \<Rightarrow> ctx option" where
  "request_ctx r c namespace =
     (let c1 = InjectRequestNamespace c namespace in
      case fw_configStore r of None \<Rightarrow> Some c1 | Some store \<Rightarrow> ToContext store c1)"

definition Reconcile_fw ::
  "(nat \<Rightarrow> bool) \<Rightarrow> clock \<Rightarrow> 'w rr_client \<Rightarrow> indexer \<Rightarrow> fw_reconciler \<Rightarrow> (ctx \<Rightarrow> string \<Rightarrow> rr \<Rightarrow> outcome)
     \<Rightarrow> ctx \<Rightarrow> 'w \<Rightarrow> string \<Rightarrow> ('w \<times> err option) option" where
  "Reconcile_fw ip clk cl idx r sched c w key =
     (case SplitMetaNamespaceKey ip key of
        Inl e \<Rightarrow> Some (w, Some (PermanentError (ErrorInvalidResourceKey key e)))
      | Inr (namespace, name) \<Rightarrow>
        (case lister_Get ip idx namespace name of
           Inl e \<Rightarrow> Some (w, Some (PermanentError (ErrorGettingResource ''resolutionrequest'' key e)))
         | Inr req \<Rightarrow>
             if IsDone req then Some (w, None)
             else
               (case request_ctx r c namespace of
                  None \<Rightarrow> None
                | Some c1 \<Rightarrow> Some (resolve ip clk cl w req (sched c1 key req)))))"

subsection \<open>Lemmas: the event filter\<close>

lemma selector_loop_iff: "selector_loop labels sel \<longleftrightarrow> (\<forall>(k, v) \<in> set sel. go_lookup labels k = Some v)"
  by (induction labels sel rule: selector_loop.induct) (auto split: option.splits)

lemma filter_single:
  "filterResolutionRequestsBySelector (Some [(k, v)]) (Some r) \<longleftrightarrow> go_lookup (m_labels (meta r)) k = Some v"
proof -
  have "go_len (m_labels (meta r)) = 0 \<Longrightarrow> go_lookup (m_labels (meta r)) k = None"
    by (simp add: go_len_def go_lookup_def)
  then show ?thesis by (auto simp: filterResolutionRequestsBySelector_def selector_loop_iff)
qed

text \<open>What the framework relies on of a resolver: it initialises, it selects requests by a type of
  its own, and the name of its configuration, if it has one, is not empty.\<close>

locale resolver_contract =
  fixes rv :: resolver
    and ty :: string
  assumes initialize: "rv_Initialize rv c = None"
    and selector: "rv_GetSelector rv c = Some [(LabelKeyResolverType, ty)]"
    and type_nonempty: "ty \<noteq> []"
    and config_name: "rv_GetConfigName rv = Some getName \<Longrightarrow> getName c \<noteq> []"
begin

lemma valid: "validateResolver ip c rv = None"
  by (simp add: validateResolver_def selector go_index_def go_lookup_def type_nonempty)

text \<open>The controller of such a resolver starts, receives exactly the requests of its type and has a
  usable configuration store if the resolver asked for one.\<close>

lemma controller:
  "\<exists>fc. NewController ip c rv [] = Inr fc \<and> fw_resolver (fc_reconciler fc) = rv \<and>
     (case fw_configStore (fc_reconciler fc) of
        None \<Rightarrow> rv_GetConfigName rv = None | Some store \<Rightarrow> store_wf store) \<and>
     {r. fc_filter fc (Some r)} = {r. go_lookup (m_labels (meta r)) LabelKeyResolverType = Some ty} \<and>
     \<not> fc_filter fc None"
  using config_name [of _ c]
  by (cases "rv_GetConfigName rv")
    (auto simp: NewController_def valid initialize watchConfigChanges_def applyModifiersAndDefaults_def Let_def
      selector filter_single [unfolded filterResolutionRequestsBySelector_def, simplified]
      filterResolutionRequestsBySelector_def)

end

subsection \<open>Lemmas: what select can receive\<close>

inductive_cases resolve_stepE: "resolve_step rv c key ip params s s'"

lemmas worker_defs = after_validate_def after_resolve_def

text \<open>The invariant of the goroutine and the select statement.\<close>

definition answer :: "resolver \<Rightarrow> ctx \<Rightarrow> string \<Rightarrow> (nat \<Rightarrow> bool) \<Rightarrow> gomap \<Rightarrow> worker" where
  "answer rv c key ip params =
     (case after_validate rv c key ip params of Resolving \<Rightarrow> after_resolve rv c key params | x \<Rightarrow> x)"

definition select_inv :: "resolver \<Rightarrow> ctx \<Rightarrow> string \<Rightarrow> (nat \<Rightarrow> bool) \<Rightarrow> gomap \<Rightarrow> select_state \<Rightarrow> bool" where
  "select_inv rv c key ip params s \<longleftrightarrow>
     (case ss_worker s of
        Validating \<Rightarrow> True
      | Resolving \<Rightarrow> after_validate rv c key ip params = Resolving
      | Exited \<Rightarrow> ss_result s \<noteq> None
      | x \<Rightarrow> x = answer rv c key ip params) \<and>
     (case ss_ctx_err s of None \<Rightarrow> True | Some e \<Rightarrow> e = DeadlineExceeded \<or> e = Canceled) \<and>
     (case ss_result s of
        None \<Rightarrow> True
      | Some (Got_done e) \<Rightarrow> e = DeadlineExceeded \<or> e = Canceled
      | Some (Got_err e) \<Rightarrow> answer rv c key ip params = SendErr e
      | Some (Got_resource r) \<Rightarrow> answer rv c key ip params = SendRes r)"

lemma after_validate_cases:
  obtains "after_validate rv c key ip params = Resolving"
    | e where "after_validate rv c key ip params = SendErr e"
  by (cases "rv_ValidateParams rv c params") (simp_all add: after_validate_def)

lemma after_resolve_cases:
  obtains e where "after_resolve rv c key params = SendErr e"
    | r where "after_resolve rv c key params = SendRes r"
  by (cases "rv_Resolve rv c params") (simp_all add: after_resolve_def)

lemma answer_sends:
  obtains e where "answer rv c key ip params = SendErr e" | r where "answer rv c key ip params = SendRes r"
proof (cases rule: after_validate_cases [of rv c key ip params])
  case 1
  with that show thesis
    by (cases rule: after_resolve_cases [of rv c key params]) (simp_all add: answer_def)
next
  case (2 e)
  with that show thesis by (simp add: answer_def)
qed

lemma select_inv_init: "select_inv rv c key ip params select_init"
  by (simp add: select_inv_def select_init_def)

lemma select_inv_step:
  assumes "resolve_step rv c key ip params s s'" "select_inv rv c key ip params s"
  shows "select_inv rv c key ip params s'"
  using assms(1)
proof cases
  case validate
  show ?thesis
    using assms(2) validate by (cases rule: after_validate_cases [of rv c key ip params])
      (simp_all add: select_inv_def answer_def)
next
  case resolving
  show ?thesis
    using assms(2) resolving by (cases rule: after_resolve_cases [of rv c key params])
      (simp_all add: select_inv_def answer_def)
qed (use assms(2) in \<open>auto simp: select_inv_def split: worker.splits\<close>)

lemma select_inv_reach: "resolve_reach rv c key ip params s \<Longrightarrow> select_inv rv c key ip params s"
  by (induction rule: resolve_reach.induct) (auto intro: select_inv_init select_inv_step)

text \<open>The goroutine always gets as far as its answer, whatever else happens.\<close>

lemma reach_answer:
  "resolve_reach rv c key ip params (select_init\<lparr>ss_worker := answer rv c key ip params\<rparr>)"
proof -
  let ?s1 = "select_init\<lparr>ss_worker := after_validate rv c key ip params\<rparr>"
  have r1: "resolve_reach rv c key ip params ?s1"
    by (rule resolve_reach.step [OF resolve_reach.init validate]) (simp add: select_init_def)
  show ?thesis
  proof (cases rule: after_validate_cases [of rv c key ip params])
    case 1
    with resolve_reach.step [OF r1 resolving] show ?thesis by (simp add: answer_def)
  next
    case (2 e)
    with r1 show ?thesis by (simp add: answer_def)
  qed
qed

lemma resolve_outcome_iff_answer:
  "resolve_outcome rv c key ip params o' \<longleftrightarrow>
     o' = Got_done DeadlineExceeded \<or> o' = Got_done Canceled \<or>
     (case answer rv (resolution_ctx rv c) key ip params of
        SendErr e \<Rightarrow> o' = Got_err e | SendRes r \<Rightarrow> o' = Got_resource r | _ \<Rightarrow> False)"
  (is "?lhs \<longleftrightarrow> ?rhs")
proof
  let ?c = "resolution_ctx rv c"
  show ?rhs if ?lhs
    using that
    by (auto simp: resolve_outcome_def select_inv_def dest!: select_inv_reach split: outcome.splits)
  have init: "ss_result select_init = None" "ss_ctx_err select_init = None" by (simp_all add: select_init_def)
  note a = reach_answer [of rv ?c key ip params]
  note fin = resolve_reach.step [OF resolve_reach.step [OF resolve_reach.init] recv_done]
  show ?lhs if r: ?rhs
    unfolding resolve_outcome_def
  proof -
    have d: "\<exists>s. resolve_reach rv ?c key ip params s \<and> ss_result s = Some (Got_done DeadlineExceeded)"
      by (rule exI, rule conjI, rule fin [OF expire [OF init(2)]]) (simp_all add: init)
    have x: "\<exists>s. resolve_reach rv ?c key ip params s \<and> ss_result s = Some (Got_done Canceled)"
      by (rule exI, rule conjI, rule fin [OF cancel [OF init(2)]]) (simp_all add: init)
    have e: "\<exists>s. resolve_reach rv ?c key ip params s \<and> ss_result s = Some (Got_err e)"
      if "answer rv ?c key ip params = SendErr e" for e
      by (rule exI, rule conjI, rule resolve_reach.step [OF a recv_err [of _ e]]) (simp_all add: that init)
    have g: "\<exists>s. resolve_reach rv ?c key ip params s \<and> ss_result s = Some (Got_resource r)"
      if "answer rv ?c key ip params = SendRes r" for r
      by (rule exI, rule conjI, rule resolve_reach.step [OF a recv_res [of _ r]]) (simp_all add: that init)
    from r d x e g show "\<exists>s. resolve_reach rv ?c key ip params s \<and> ss_result s = Some o'"
      by (auto split: worker.splits)
  qed
qed

subsection \<open>Lemmas: the patch\<close>

lemma alphabet_ascii: "\<forall>c \<in> insert (CHR ''='') (set alphabet). byte c < 128"
  by (simp add: alphabet_def)

lemma json_string_b64 [simp]: "json_string (b64_encode bs) = b64_encode bs"
  by (rule json_string_ascii) (use b64_encode_alphabet [of bs] alphabet_ascii in blast)

lemma marshal_patch_data [simp]:
  "\<exists>p. marshal_patch \<lparr> sp_annotations = a, sp_data = b64_encode bs \<rparr> = Inr p \<and> sp_data p = b64_encode bs"
  by (simp add: marshal_patch_def)

subsection \<open>Lemmas: the answers never carry a reason of their own\<close>

lemma answer_reason:
  assumes "answer rv c key ip params = SendErr e"
  shows "ReasonError e = (ReasonResolutionFailed, e)"
  using assms by (auto simp: answer_def worker_defs ReasonError_def split: option.splits sum.splits)

definition outcome_error :: "outcome \<Rightarrow> err option" where
  "outcome_error o' = (case o' of Got_err e \<Rightarrow> Some e | Got_done e \<Rightarrow> Some e | Got_resource _ \<Rightarrow> None)"

lemma outcome_reason:
  assumes "resolve_outcome rv c key ip params o'" "outcome_error o' = Some e"
  shows "ReasonError e = (ReasonResolutionFailed, e)"
  using assms answer_reason
  by (auto simp: resolve_outcome_iff_answer outcome_error_def ReasonError_def split: worker.splits outcome.splits)

lemma resolve_error:
  "outcome_error o' = Some e \<Longrightarrow>
   resolve ip clk cl w r o' = (fst (fw_MarkFailed ip clk cl w r e), Some (PermanentError e))"
  by (cases o') (auto simp: resolve_def outcome_error_def OnError_def)

context rr_api
begin

lemma fw_MarkFailed_marks:
  assumes "inv w" "cl_get cl w (m_namespace (meta r)) (m_name (meta r)) = Inr x"
    and "rr_wf x" "\<not> IsDone x" "fw_MarkFailed ip clk cl w r e = (w', None)"
  shows "\<exists>s. cl_get cl w' (m_namespace (meta r)) (m_name (meta r)) = Inr s \<and>
     IsFalse (condition_of s) \<and> GetReason (condition_of s) = fst (ReasonError e) \<and>
     GetMessage (condition_of s) = sprintf0 (err_message ip e) \<and> s_data (rr_status s) = s_data (rr_status x)"
proof -
  obtain reason e' where re: "ReasonError e = (reason, e')" by fastforce
  then have msg: "err_message ip e' = err_message ip e" using ReasonError_message [of ip e] by simp
  let ?x = "x\<lparr>rr_status := MarkFailed clk (rr_status x) reason (err_message ip e)\<rparr>"
  obtain x' where u: "cl_update_status cl w (m_namespace (meta r)) ?x = (w', Inr x')"
    using assms(2,4,5) by (auto simp: fw_MarkFailed_def re msg split: prod.splits sum.splits)
  have "m_name (meta x) = m_name (meta r)" using get_meta [OF assms(1,2)] by simp
  with update_status_ok [OF assms(1) u]
  obtain s where "cl_get cl w' (m_namespace (meta r)) (m_name (meta r)) = Inr s" "rr_status s = rr_status ?x"
    by auto
  moreover have "status_wf (rr_status x)" using assms(3) by (simp add: rr_wf_def)
  ultimately show ?thesis by (auto simp: condition_of_def status_after_mark re)
qed

lemma writeResolvedData_stores:
  assumes "inv w" "writeResolvedData ip clk cl w r resource = (w', None)"
    and "cl_get cl w (m_namespace (meta r)) (m_name (meta r)) = Inr x"
  shows "\<exists>s. cl_get cl w' (m_namespace (meta r)) (m_name (meta r)) = Inr s \<and>
     s_data (rr_status s) = b64_encode (res_Data resource) \<and>
     same_conditions (s_conditions (rr_status s)) (s_conditions (rr_status x))"
proof -
  obtain p where p: "marshal_patch \<lparr> sp_annotations = res_Annotations resource, sp_data = b64_encode (res_Data resource) \<rparr> = Inr p"
    "sp_data p = b64_encode (res_Data resource)" using marshal_patch_data by blast
  then obtain x' where "cl_patch_status cl w (m_namespace (meta r)) (m_name (meta r)) p = (w', Inr x')"
    using assms(2) by (auto simp: writeResolvedData_def Let_def OnError_def split: prod.splits sum.splits)
  from patch_status_ok [OF assms(1) this assms(3)] p(2) show ?thesis by auto
qed

end

lemma fw_failure:
  assumes "rr_api cl api_inv" "api_inv w"
    and "SplitMetaNamespaceKey ip key = Inr (ns, n)" "lister_Get ip idx ns n = Inr req" "\<not> IsDone req"
    and "m_namespace (meta req) = ns" "m_name (meta req) = n"
    and "request_ctx r c ns = Some c1"
    and "resolve_outcome (fw_resolver r) c1 key ip (spec_params req) (sched c1 key req)"
    and "outcome_error (sched c1 key req) = Some e"
    and "cl_get cl w ns n = Inr x" "rr_wf x" "\<not> IsDone x"
    and "snd (fw_MarkFailed ip clk cl w req e) = None"
  shows "\<exists>w' s. Reconcile_fw ip clk cl idx r sched c w key = Some (w', Some (PermanentError e)) \<and>
     cl_get cl w' ns n = Inr s \<and> IsFalse (condition_of s) \<and>
     GetReason (condition_of s) = ReasonResolutionFailed \<and>
     GetMessage (condition_of s) = sprintf0 (err_message ip e)"
proof -
  obtain w' where m: "fw_MarkFailed ip clk cl w req e = (w', None)" using assms(14) by (metis prod.collapse)
  have "cl_get cl w (m_namespace (meta req)) (m_name (meta req)) = Inr x" using assms(6,7,11) by simp
  from rr_api.fw_MarkFailed_marks [OF assms(1,2) this assms(12,13) m]
  obtain s where "cl_get cl w' ns n = Inr s" "IsFalse (condition_of s)"
    "GetReason (condition_of s) = fst (ReasonError e)" "GetMessage (condition_of s) = sprintf0 (err_message ip e)"
    using assms(6,7) by auto
  moreover have "fst (ReasonError e) = ReasonResolutionFailed" using outcome_reason [OF assms(9,10)] by simp
  moreover have "Reconcile_fw ip clk cl idx r sched c w key = Some (w', Some (PermanentError e))"
    using assms(3,4,5,8) m by (simp add: Reconcile_fw_def resolve_error [OF assms(10)])
  ultimately show ?thesis by auto
qed

lemma fw_success:
  assumes "rr_api cl api_inv" "api_inv w"
    and "SplitMetaNamespaceKey ip key = Inr (ns, n)" "lister_Get ip idx ns n = Inr req" "\<not> IsDone req"
    and "m_namespace (meta req) = ns" "m_name (meta req) = n"
    and "request_ctx r c ns = Some c1"
    and "rv_ValidateParams (fw_resolver r) (resolution_ctx (fw_resolver r) c1) (spec_params req) = None"
    and "rv_Resolve (fw_resolver r) (resolution_ctx (fw_resolver r) c1) (spec_params req) = Inr resource"
    and "resolve_outcome (fw_resolver r) c1 key ip (spec_params req) (sched c1 key req)"
    and "Reconcile_fw ip clk cl idx r sched c w key = Some (w', None)"
    and "cl_get cl w ns n = Inr x"
  shows "\<exists>s. cl_get cl w' ns n = Inr s \<and> s_data (rr_status s) = b64_encode (res_Data resource) \<and>
     same_conditions (s_conditions (rr_status s)) (s_conditions (rr_status x))"
proof -
  have run: "resolve ip clk cl w req (sched c1 key req) = (w', None)"
    using assms(3,4,5,8,12) by (simp add: Reconcile_fw_def)
  have "sched c1 key req = Got_resource resource"
  proof (cases "outcome_error (sched c1 key req)")
    case None
    with assms(9-11) show ?thesis
      by (auto simp: resolve_outcome_iff_answer answer_def worker_defs outcome_error_def split: outcome.splits)
  next
    case (Some e)
    with run show ?thesis by (simp add: resolve_error)
  qed
  with run have "writeResolvedData ip clk cl w req resource = (w', None)" by (simp add: resolve_def)
  from rr_api.writeResolvedData_stores [OF assms(1,2) this] assms(6,7,13) show ?thesis by simp
qed

text \<open>A resolver for examples: it accepts parameters with a \<^verbatim>\<open>path\<close>, refuses to resolve a private one
  with an error that carries a reason, and otherwise answers the path itself.\<close>

definition demo_resolver :: resolver where
  "demo_resolver =
     \<lparr> rv_Initialize = (\<lambda>_. None), rv_GetName = (\<lambda>_. ''Demo''),
       rv_GetSelector = (\<lambda>_. Some [(LabelKeyResolverType, ''demo'')]),
       rv_ValidateParams = (\<lambda>_ ps. if go_index ps ''path'' = [] then Some (ErrorString ''missing path'') else None),
       rv_Resolve = (\<lambda>_ ps. if go_index ps ''path'' = ''private''
          then Inl (NewError ''AccessDenied'' (ErrorString ''denied'')) 
          else Inr \<lparr> res_Data = go_index ps ''path'', res_Annotations = None \<rparr>),
       rv_GetConfigName = None, rv_GetResolutionTimeout = None \<rparr>"

definition example_private :: rr where
  "example_private = example_request\<lparr>spec_params := Some [(''path'', ''private'')]\<rparr>"

definition demo_denied :: err where
  "demo_denied = ErrorGettingResource ''Demo'' ''ns/git-1'' (Error ''AccessDenied'' (ErrorString ''denied''))"

lemma example_private_facts:
  "rr_wf example_private" "\<not> IsDone example_private"
  "m_namespace (meta example_private) = ''ns''" "m_name (meta example_private) = ''git-1''"
  using example_request_wf example_fresh(1)
  by (simp_all add: example_private_def rr_wf_def go_wf_def IsDone_def)

lemma fake_patch_ok:
  assumes "tracker_wf t" "map_of t (m_namespace (meta r), m_name (meta r)) \<noteq> None"
  shows "\<exists>t' x. fake_patch_status ip t (m_namespace (meta r)) (m_name (meta r)) p = (t', Inr x)"
proof -
  let ?ns = "m_namespace (meta r)" and ?n = "m_name (meta r)"
  obtain x where x: "tracker_get ip t ?ns ?n = Inr x" using assms(2) by (auto simp: tracker_get_def)
  let ?obj = "(json_rr x)\<lparr>rr_status := merge_status (rr_status (json_rr x)) p\<rparr>"
  have "m_namespace (meta ?obj) = ?ns" "m_name (meta ?obj) = ?n" using tracker_get_wf [OF assms(1) x] by simp_all
  with tracker_add_replace [of ?obj ?ns t ip] assms(2) x show ?thesis
    by (simp add: fake_patch_status_def Let_def)
qed

subsection \<open>Properties\<close>

text \<open>
  C6. Exactly what the select statement of \<^verbatim>\<open>resolve\<close> can receive, over all interleavings of the
  goroutine, the deadline and a cancellation: the end of the context, always; and the one answer
  of the goroutine, which is an invalid-request error when the resolver rejects the parameters,
  otherwise a getting-resource error when resolving fails, otherwise the resource. In
  particular the final \<^verbatim>\<open>unknown error\<close> of \<^verbatim>\<open>resolve\<close> is never returned.
\<close>

theorem resolve_outcomes:
  "resolve_outcome rv c key ip params o' \<longleftrightarrow>
     o' = Got_done DeadlineExceeded \<or> o' = Got_done Canceled \<or>
     (case rv_ValidateParams rv (resolution_ctx rv c) params of
        Some e \<Rightarrow> o' = Got_err (ErrorInvalidRequest key (err_message ip e))
      | None \<Rightarrow>
        (case rv_Resolve rv (resolution_ctx rv c) params of
           Inl e \<Rightarrow> o' = Got_err (ErrorGettingResource (rv_GetName rv (resolution_ctx rv c)) key e)
         | Inr resource \<Rightarrow> o' = Got_resource resource))"
  by (simp add: resolve_outcome_iff_answer answer_def worker_defs split: option.split sum.split)

text \<open>
  The goroutine leaks when the context ends first: for every resolver there is a run in which
  \<^verbatim>\<open>resolve\<close> returns on the deadline while the goroutine stands at its send on an unbuffered
  channel, and from there no sequence of steps ever lets it finish.
\<close>

theorem resolve_leaks_goroutine:
  "\<exists>s. resolve_reach rv c key ip params s \<and> ss_result s = Some (Got_done DeadlineExceeded) \<and>
     ss_worker s \<noteq> Exited \<and>
     {s'. (resolve_step rv c key ip params)\<^sup>*\<^sup>* s s'} \<subseteq> {s'. ss_worker s' = ss_worker s}"
proof -
  let ?a = "answer rv c key ip params"
  let ?s0 = "select_init\<lparr>ss_worker := ?a\<rparr>"
  let ?s1 = "?s0\<lparr>ss_ctx_err := Some DeadlineExceeded\<rparr>"
  let ?s2 = "?s1\<lparr>ss_result := Some (Got_done DeadlineExceeded)\<rparr>"
  have "resolve_reach rv c key ip params ?s1"
    by (rule resolve_reach.step [OF reach_answer expire]) (simp add: select_init_def)
  then have r: "resolve_reach rv c key ip params ?s2"
    by (rule resolve_reach.step [OF _ recv_done]) (simp_all add: select_init_def)
  have sends: "(\<exists>e. ?a = SendErr e) \<or> (\<exists>r. ?a = SendRes r)" by (rule answer_sends) blast+
  have "ss_worker s' = ?a \<and> ss_result s' \<noteq> None"
    if "(resolve_step rv c key ip params)\<^sup>*\<^sup>* ?s2 s'" for s'
    using that
  proof (induction rule: rtranclp_induct)
    case base
    show ?case by simp
  next
    case (step y z)
    from step(2,3) sends show ?case by (auto elim!: resolve_stepE)
  qed
  with r sends show ?thesis by (intro exI [of _ ?s2]) auto
qed

text \<open>
  The framework's \<^verbatim>\<open>Reconcile\<close> always returns, and every error it returns is permanent, so that
  the controller never retries the key on its own: an invalid key, a request missing from the
  cache, and every failed resolution, whatever the resolver, the API client and the scheduler do.
\<close>

theorem Reconcile_fw_permanent:
  assumes "case fw_configStore r of None \<Rightarrow> True | Some store \<Rightarrow> store_wf store"
  shows "\<exists>w' e. Reconcile_fw ip clk cl idx r sched c w key = Some (w', e) \<and>
     (case e of None \<Rightarrow> True | Some x \<Rightarrow> IsPermanentError x)"
proof -
  have ctx: "request_ctx r c ns \<noteq> None" for ns
    using assms ToContext_total by (auto simp: request_ctx_def Let_def split: option.splits)
  have oe: "case snd (OnError ip clk cl v q x) of None \<Rightarrow> True | Some y \<Rightarrow> IsPermanentError y" for v q x
    by (simp add: OnError_def split: option.split)
  have "case snd (resolve ip clk cl w q o') of None \<Rightarrow> True | Some y \<Rightarrow> IsPermanentError y" for q o'
    by (auto simp: resolve_def writeResolvedData_def Let_def oe marshal_patch_def split: outcome.split prod.split sum.split)
  then have "\<exists>w' e. Some (resolve ip clk cl w q o') = Some (w', e) \<and>
      (case e of None \<Rightarrow> True | Some x \<Rightarrow> IsPermanentError x)" for q o'
    by (metis option.inject prod.collapse)
  note res = this
  show ?thesis
  proof (cases "SplitMetaNamespaceKey ip key")
    case (Inl e)
    then show ?thesis by (simp add: Reconcile_fw_def)
  next
    case (Inr p)
    obtain ns n where p: "p = (ns, n)" by fastforce
    show ?thesis
    proof (cases "lister_Get ip idx ns n")
      case (Inl e)
      with Inr p show ?thesis by (simp add: Reconcile_fw_def)
    next
      case q: (Inr q)
      obtain c1 where c1: "request_ctx r c ns = Some c1" using ctx [of ns] by blast
      show ?thesis
      proof (cases "IsDone q")
        case True
        with Inr p q show ?thesis by (simp add: Reconcile_fw_def)
      next
        case False
        with Inr p q c1 have "Reconcile_fw ip clk cl idx r sched c w key = Some (resolve ip clk cl w q (sched c1 key q))"
          by (simp add: Reconcile_fw_def)
        with res show ?thesis by simp
      qed
    qed
  qed
qed

theorem Reconcile_fw_permanent_witness:
  "\<exists>w' e. Reconcile_fw (\<lambda>_. False) (\<lambda>_. 0) (fake_client (\<lambda>_. False)) example_cache
       \<lparr> fw_resolver = demo_resolver, fw_configStore = Some (NewConfigStore ''demo''), fw_clock_set = True \<rparr>
       (\<lambda>c key q. Got_done DeadlineExceeded) Background example_tracker ''ns/git-1'' = Some (w', e) \<and>
     (case e of None \<Rightarrow> True | Some x \<Rightarrow> IsPermanentError x)"
  by (rule Reconcile_fw_permanent) simp



text \<open>
  C5. A successful resolution is stored: when the resolver's resource is received and the patch is
  accepted, the server's request carries the base64 text of the resource's data, and its
  conditions are untouched (the core controller marks it).
\<close>

theorem Reconcile_fw_success:
  assumes "rr_api cl api_inv" "api_inv w"
    and "SplitMetaNamespaceKey ip key = Inr (ns, n)" "lister_Get ip idx ns n = Inr req" "\<not> IsDone req"
    and "m_namespace (meta req) = ns" "m_name (meta req) = n"
    and "request_ctx r c ns = Some c1"
    and "rv_ValidateParams (fw_resolver r) (resolution_ctx (fw_resolver r) c1) (spec_params req) = None"
    and "rv_Resolve (fw_resolver r) (resolution_ctx (fw_resolver r) c1) (spec_params req) = Inr resource"
    and "resolve_outcome (fw_resolver r) c1 key ip (spec_params req) (sched c1 key req)"
    and "Reconcile_fw ip clk cl idx r sched c w key = Some (w', None)"
    and "cl_get cl w ns n = Inr x"
  shows "\<exists>s. cl_get cl w' ns n = Inr s \<and> s_data (rr_status s) = b64_encode (res_Data resource) \<and>
     same_conditions (s_conditions (rr_status s)) (s_conditions (rr_status x))"
  using fw_success [where sched = sched, OF assms] .

theorem Reconcile_fw_success_witness:
  "\<exists>w' s. Reconcile_fw (\<lambda>_. False) (\<lambda>_. 0) (fake_client (\<lambda>_. False)) example_cache
       \<lparr> fw_resolver = demo_resolver, fw_configStore = None, fw_clock_set = True \<rparr>
       (\<lambda>c key q. Got_resource \<lparr> res_Data = ''p'', res_Annotations = None \<rparr>) Background example_tracker ''ns/git-1'' =
         Some (w', None) \<and>
     tracker_get (\<lambda>_. False) w' ''ns'' ''git-1'' = Inr s \<and> s_data (rr_status s) = b64_encode ''p''"
proof -
  let ?ip = "\<lambda>_::nat. False" and ?res = "\<lparr> res_Data = ''p'', res_Annotations = None \<rparr>"
  let ?r = "\<lparr> fw_resolver = demo_resolver, fw_configStore = None, fw_clock_set = True \<rparr>"
  let ?sched = "\<lambda>(c::ctx) (key::string) (q::rr). Got_resource ?res"
  have ctx: "request_ctx ?r Background ''ns'' = Some (InjectRequestNamespace Background ''ns'')"
    by (simp add: request_ctx_def)
  have acts: "rv_ValidateParams (fw_resolver ?r) c (spec_params example_request) = None"
    "rv_Resolve (fw_resolver ?r) c (spec_params example_request) = Inr ?res" for c
    by (simp_all add: demo_resolver_def example_request_def go_index_def go_lookup_def)
  have out: "resolve_outcome (fw_resolver ?r) c key ?ip (spec_params example_request) (Got_resource ?res)" for c key
    using acts by (simp add: resolve_outcome_iff_answer answer_def worker_defs)
  obtain w' where w: "writeResolvedData ?ip (\<lambda>_. 0) (fake_client ?ip) example_tracker example_request ?res = (w', None)"
  proof -
    obtain p where p: "marshal_patch \<lparr> sp_annotations = None, sp_data = b64_encode ''p'' \<rparr> = Inr p"
      using marshal_patch_data by blast
    obtain t' x where "fake_patch_status ?ip example_tracker (m_namespace (meta example_request))
        (m_name (meta example_request)) p = (t', Inr x)"
      using fake_patch_ok [OF example_lookup(5,6)] by blast
    with p that show thesis by (simp add: writeResolvedData_def Let_def del: b64_encode.simps)
  qed
  have run: "Reconcile_fw ?ip (\<lambda>_. 0) (fake_client ?ip) example_cache ?r ?sched Background example_tracker ''ns/git-1'' =
      Some (w', None)"
    by (simp add: Reconcile_fw_def example_lookup example_fresh ctx resolve_def w)
  show ?thesis
    using run Reconcile_fw_success [where sched = ?sched and r = ?r, OF fake.rr_api_axioms example_lookup(5,1,2)
        example_fresh(1) example_meta(1,2) ctx acts out run] example_lookup(4)
    by auto
qed

text \<open>
  A resolver sees the namespace of the request: the context that \<^verbatim>\<open>Reconcile\<close> builds from a context
  without a request namespace carries the namespace of the key, also under the deadline of the
  resolution, and no later injection replaces it.
\<close>

theorem request_namespace_seen:
  assumes "request_ctx r c ns = Some c1" "ctx_value c RequestNamespaceKey = None"
  shows "RequestNamespace (resolution_ctx rv c1) = ns \<and> RequestNamespace (InjectRequestNamespace c1 other) = ns"
  using assms
  by (auto simp: request_ctx_def Let_def resolution_ctx_def RequestNamespace_def ToContext_def InjectResolverConfigToContext_def InjectRequestNamespace_def split: option.splits)

theorem request_namespace_seen_witness:
  "RequestNamespace (resolution_ctx demo_resolver (InjectRequestNamespace Background ''ns'')) = ''ns''"
  using request_namespace_seen [of "\<lparr> fw_resolver = demo_resolver, fw_configStore = None, fw_clock_set = True \<rparr>"
      Background "''ns''" "InjectRequestNamespace Background ''ns''" demo_resolver]
  by (simp add: request_ctx_def)

end
