(* ===== verification/Git_Resolver.thy ===== *)
theory Git_Resolver
  imports Framework
begin

section \<open>The git resolver\<close>

text \<open>
  \<^verbatim>\<open>gitresolver/pkg/git\<close>: the resolver that fetches one file from a git repository. go-git's network
  and storage operations are the record \<open>git_ops\<close>, a parameter of the resolver; go-git's
  \<^verbatim>\<open>plumbing.NewHash\<close> and the choice of the commit in \<^verbatim>\<open>Worktree.Checkout\<close>, which decide what is
  fetched, are translated. A hash is its 20 bytes. \<open>frac\<close> is the floating-point expression of
  \<^verbatim>\<open>time.ParseDuration\<close> (see theory Go\_Time).
\<close>

subsection \<open>Constants\<close>

definition LabelValueGitResolverType :: string where "LabelValueGitResolverType = ''git''"
definition GitResolverName :: string where "GitResolverName = ''Git''"
definition YAMLContentType :: string where "YAMLContentType = ''application/x-yaml''"
definition URLParam :: string where "URLParam = ''url''"
definition PathParam :: string where "PathParam = ''path''"
definition CommitParam :: string where "CommitParam = ''commit''"
definition BranchParam :: string where "BranchParam = ''branch''"
definition AnnotationKeyCommitHash :: string where "AnnotationKeyCommitHash = ''commit''"
definition ConfigFieldTimeout :: string where "ConfigFieldTimeout = ''fetch-timeout''"

lemmas git_consts = URLParam_def PathParam_def CommitParam_def BranchParam_def

subsection \<open>Parameters\<close>

fun missing_loop :: "gomap \<Rightarrow> string list \<Rightarrow> string list \<Rightarrow> string list" where
  "missing_loop params missing [] = missing"
| "missing_loop params missing (p # ps) =
     missing_loop params
       (case go_lookup params p of None \<Rightarrow> missing @ [p] | Some v \<Rightarrow> if v = [] then missing @ [p] else missing) ps"

definition git_ValidateParams :: "(nat \<Rightarrow> bool) \<Rightarrow> gomap \<Rightarrow> err option" where
  "git_ValidateParams ip params =
     (let required = [URLParam, PathParam];
          missing = (if params = None then required else missing_loop params [] required) in
      if length missing > 0 then Some (ErrorString (''missing '' @ join '', '' missing))
      else if go_index params CommitParam \<noteq> [] \<and> go_index params BranchParam \<noteq> []
      then Some (ErrorString (''supplied both '' @ quote ip CommitParam @ '' and '' @ quote ip BranchParam))
      else None)"

subsection \<open>go-git\<close>

record 'g git_ops =
  git_clone :: "string \<Rightarrow> string option \<Rightarrow> 'g res"
  git_head :: "'g \<Rightarrow> string res"
  git_worktree :: "'g \<Rightarrow> err option"
  git_reference :: "'g \<Rightarrow> string \<Rightarrow> string res"
  git_reset :: "'g \<Rightarrow> string \<Rightarrow> 'g res"
  git_open :: "'g \<Rightarrow> string \<Rightarrow> string res res"

text \<open>\<^verbatim>\<open>hex.DecodeString\<close>, of which \<^verbatim>\<open>NewHash\<close> ignores the error: the bytes before the first pair that is
  not hexadecimal.\<close>

definition from_hex :: "char \<Rightarrow> nat option" where
  "from_hex ch =
     (let b = byte ch in
      if 48 \<le> b \<and> b \<le> 57 then Some (b - 48)
      else if 97 \<le> b \<and> b \<le> 102 then Some (b - 87)
      else if 65 \<le> b \<and> b \<le> 70 then Some (b - 55) else None)"

fun hex_decode :: "string \<Rightarrow> string" where
  "hex_decode (a # b # rest) =
     (case (from_hex a, from_hex b) of
        (Some x, Some y) \<Rightarrow> chr (16 * x + y) # hex_decode rest
      | _ \<Rightarrow> [])"
| "hex_decode _ = []"

definition ZeroHash :: string where
  "ZeroHash = replicate 20 (chr 0)"

definition NewHash :: "string \<Rightarrow> string" where
  "NewHash s = take 20 (hex_decode s @ ZeroHash)"

fun hash_String :: "string \<Rightarrow> string" where
  "hash_String [] = []"
| "hash_String (b # bs) = digit (byte b div 16) # digit (byte b mod 16) # hash_String bs"

definition NewBranchReferenceName :: "string \<Rightarrow> string" where
  "NewBranchReferenceName name = ''refs/heads/'' @ name"

text \<open>\<^verbatim>\<open>Checkout\<close> with only a hash set: \<^verbatim>\<open>Validate\<close> fills in the branch \<^verbatim>\<open>master\<close>, and
  \<^verbatim>\<open>getCommitFromCheckoutOptions\<close> takes the branch when the hash is zero.\<close>

definition checkout_commit :: "'g git_ops \<Rightarrow> 'g \<Rightarrow> string \<Rightarrow> string res" where
  "checkout_commit g repo h =
     (if h \<noteq> ZeroHash then Inr h else git_reference g repo (NewBranchReferenceName ''master''))"

definition git_Checkout :: "'g git_ops \<Rightarrow> 'g \<Rightarrow> string \<Rightarrow> 'g res" where
  "git_Checkout g repo h =
     (case checkout_commit g repo h of Inl e \<Rightarrow> Inl e | Inr c \<Rightarrow> git_reset g repo c)"

subsection \<open>Resolve\<close>

record resolved_git_resource =
  rg_Commit :: string
  rg_Content :: string

definition git_Annotations :: "resolved_git_resource \<Rightarrow> gomap" where
  "git_Annotations r =
     Some [(AnnotationKeyCommitHash, rg_Commit r), (AnnotationKeyContentType, YAMLContentType)]"

definition git_resource :: "resolved_git_resource \<Rightarrow> resolved_resource" where
  "git_resource r = \<lparr> res_Data = rg_Content r, res_Annotations = git_Annotations r \<rparr>"

text \<open>\<^verbatim>\<open>fmt.Errorf\<close> with \<^verbatim>\<open>%v\<close>: the text of the error, without the chain.\<close>

definition errorf_v :: "(nat \<Rightarrow> bool) \<Rightarrow> string \<Rightarrow> err \<Rightarrow> err" where
  "errorf_v ip prefix e = ErrorString (prefix @ err_message ip e)"

definition git_commit :: "'g git_ops \<Rightarrow> 'g \<Rightarrow> string \<Rightarrow> string res" where
  "git_commit g repo commit =
     (if commit = [] then
        (case git_head g repo of
           Inl e \<Rightarrow> Inl (WrapError ''error reading repository HEAD value: '' e)
         | Inr h \<Rightarrow> Inr (hash_String h))
      else Inr commit)"

definition git_file :: "(nat \<Rightarrow> bool) \<Rightarrow> 'g git_ops \<Rightarrow> 'g \<Rightarrow> string \<Rightarrow> string res" where
  "git_file ip g repo path =
     (case git_open g repo path of
        Inl e \<Rightarrow> Inl (errorf_v ip (''error opening file '' @ quote ip path @ '': '') e)
      | Inr (Inl e) \<Rightarrow> Inl (errorf_v ip (''error reading file '' @ quote ip path @ '': '') e)
      | Inr (Inr content) \<Rightarrow> Inr content)"

definition git_Resolve :: "(nat \<Rightarrow> bool) \<Rightarrow> 'g git_ops \<Rightarrow> gomap \<Rightarrow> resolved_git_resource res" where
  "git_Resolve ip g params =
     (let repo_url = go_index params URLParam;
          commit0 = go_index params CommitParam;
          branch = go_index params BranchParam;
          path = go_index params PathParam in
      case git_clone g repo_url (if branch \<noteq> [] then Some (NewBranchReferenceName branch) else None) of
        Inl e \<Rightarrow> Inl (WrapError ''clone error: '' e)
      | Inr repository \<Rightarrow>
        (case git_commit g repository commit0 of
           Inl e \<Rightarrow> Inl e
         | Inr commit \<Rightarrow>
           (case git_worktree g repository of
              Some e \<Rightarrow> Inl (errorf_v ip ''worktree error: '' e)
            | None \<Rightarrow>
              (case git_Checkout g repository (NewHash commit) of
                 Inl e \<Rightarrow> Inl (errorf_v ip ''checkout error: '' e)
               | Inr files \<Rightarrow>
                 (case git_file ip g files path of
                    Inl e \<Rightarrow> Inl e
                  | Inr content \<Rightarrow> Inr \<lparr> rg_Commit = commit, rg_Content = content \<rparr>)))))"

definition git_GetConfigName :: "ctx \<Rightarrow> string" where
  "git_GetConfigName c = ''git-resolver-config''"

definition git_GetResolutionTimeout :: "(int \<Rightarrow> int \<Rightarrow> int \<Rightarrow> int) \<Rightarrow> ctx \<Rightarrow> duration \<Rightarrow> duration" where
  "git_GetResolutionTimeout frac c defaultTimeout =
     (case go_lookup (GetResolverConfigFromContext c) ConfigFieldTimeout of
        None \<Rightarrow> defaultTimeout
      | Some timeoutString \<Rightarrow>
          (case parse_duration frac timeoutString of Some timeout \<Rightarrow> timeout | None \<Rightarrow> defaultTimeout))"

definition git_resolver :: "(nat \<Rightarrow> bool) \<Rightarrow> (int \<Rightarrow> int \<Rightarrow> int \<Rightarrow> int) \<Rightarrow> 'g git_ops \<Rightarrow> resolver" where
  "git_resolver ip frac g =
     \<lparr> rv_Initialize = (\<lambda>_. None), rv_GetName = (\<lambda>_. GitResolverName),
       rv_GetSelector = (\<lambda>_. Some [(LabelKeyResolverType, LabelValueGitResolverType)]),
       rv_ValidateParams = (\<lambda>_. git_ValidateParams ip),
       rv_Resolve = (\<lambda>_ params. map_sum id git_resource (git_Resolve ip g params)),
       rv_GetConfigName = Some git_GetConfigName,
       rv_GetResolutionTimeout = Some (git_GetResolutionTimeout frac) \<rparr>"

subsection \<open>Lemmas\<close>

interpretation git: resolver_contract "git_resolver ip frac g" LabelValueGitResolverType for ip frac g
  by unfold_locales (auto simp: git_resolver_def LabelValueGitResolverType_def git_GetConfigName_def)

lemma missing_loop_eq:
  "missing_loop params acc ps = acc @ filter (\<lambda>p. go_index params p = []) ps"
  by (induction params acc ps rule: missing_loop.induct) (auto simp: go_index_def split: option.splits)

lemma git_missing:
  "(if params = None then [URLParam, PathParam] else missing_loop params [] [URLParam, PathParam]) =
     filter (\<lambda>p. go_index params p = []) [URLParam, PathParam]"
  by (simp add: missing_loop_eq)

lemma length_NewHash: "length (NewHash s) = 20"
  by (simp add: NewHash_def ZeroHash_def)

lemma hex_digit_bytes: "n < 16 \<Longrightarrow> from_hex (digit n) = Some n"
proof -
  have "\<forall>n \<in> set [0..<16]. from_hex (digit n) = Some n" by (simp add: upt_rec digit_def from_hex_def)
  then show "n < 16 \<Longrightarrow> from_hex (digit n) = Some n" by simp
qed

lemma hex_decode_hash_String: "hex_decode (hash_String h) = h"
proof (induction h)
  case (Cons b h)
  have "byte b div 16 < 16" "byte b mod 16 < 16" by simp_all
  then show ?case by (simp add: hex_digit_bytes Cons.IH chr_def)
qed simp

text \<open>A hash that was printed is read back.\<close>

lemma NewHash_hash_String: "length h = 20 \<Longrightarrow> NewHash (hash_String h) = h"
  by (simp add: NewHash_def hex_decode_hash_String)

lemma NewHash_zero: "hex_decode s = [] \<Longrightarrow> NewHash s = ZeroHash"
  by (simp add: NewHash_def ZeroHash_def)

lemma git_Resolve_checked_out:
  assumes "git_clone g (go_index params URLParam)
      (if go_index params BranchParam \<noteq> [] then Some (NewBranchReferenceName (go_index params BranchParam)) else None) = Inr repo"
    and "git_commit g repo (go_index params CommitParam) = Inr commit" "git_worktree g repo = None"
    and "checkout_commit g repo (NewHash commit) = Inr h"
  shows "git_Resolve ip g params =
    (case git_reset g repo h of
       Inl e \<Rightarrow> Inl (errorf_v ip ''checkout error: '' e)
     | Inr files \<Rightarrow>
         map_sum id (\<lambda>content. \<lparr> rg_Commit = commit, rg_Content = content \<rparr>)
           (git_file ip g files (go_index params PathParam)))"
  using assms by (simp add: git_Resolve_def git_Checkout_def Let_def split: sum.split)

text \<open>A repository for examples, as a world of go-git operations: the HEAD is a commit of branch
  \<^verbatim>\<open>main\<close>, \<^verbatim>\<open>master\<close> is another one, and the only file names the commit that is checked out.\<close>

definition demo_git :: "string git_ops" where
  "demo_git =
     \<lparr> git_clone = (\<lambda>url ref. Inr []),
       git_head = (\<lambda>_. Inr (replicate 20 (chr 17))),
       git_worktree = (\<lambda>_. None),
       git_reference = (\<lambda>_ ref. if ref = ''refs/heads/master'' then Inr (replicate 20 (chr 34))
                                else Inl (ErrorString ''reference not found'')),
       git_reset = (\<lambda>_ h. Inr h),
       git_open = (\<lambda>files path. Inr (Inr (hash_String files))) \<rparr>"

subsection \<open>Properties\<close>

text \<open>
  \<^verbatim>\<open>ValidateParams\<close> of the git resolver: which parameters it accepts, and the exact error of each
  rejection (a missing or empty \<^verbatim>\<open>url\<close> or \<^verbatim>\<open>path\<close>, then a commit together with a branch).
\<close>

theorem git_ValidateParams_spec:
  "git_ValidateParams ip params =
     (if go_index params ''url'' = [] \<and> go_index params ''path'' = [] then Some (ErrorString ''missing url, path'')
      else if go_index params ''url'' = [] then Some (ErrorString ''missing url'')
      else if go_index params ''path'' = [] then Some (ErrorString ''missing path'')
      else if go_index params ''commit'' \<noteq> [] \<and> go_index params ''branch'' \<noteq> []
      then Some (ErrorString (''supplied both '' @ [chr 34] @ ''commit'' @ [chr 34] @ '' and '' @ [chr 34] @ ''branch'' @ [chr 34]))
      else None)"
proof -
  have "quote ip ''commit'' = [chr 34] @ ''commit'' @ [chr 34]" "quote ip ''branch'' = [chr 34] @ ''branch'' @ [chr 34]"
    by (rule quote_plain; simp add: plain_char_def)+
  then show ?thesis
    unfolding git_ValidateParams_def git_missing Let_def by (simp add: git_consts)
qed

text \<open>
  C11. Without a commit parameter the git resolver fetches the file from the commit the
  repository's HEAD names: printing the hash of HEAD and parsing it again gives the same
  commit, and the annotation of the result is that hash.
\<close>

theorem git_Resolve_head:
  assumes "go_index params ''commit'' = []"
    and "git_clone g (go_index params ''url'')
      (if go_index params ''branch'' \<noteq> [] then Some (''refs/heads/'' @ go_index params ''branch'') else None) = Inr repo"
    and "git_head g repo = Inr h" "length h = 20" "h \<noteq> ZeroHash" "git_worktree g repo = None"
    and "git_reset g repo h = Inr files" "git_open g files (go_index params ''path'') = Inr (Inr content)"
  shows "rv_Resolve (git_resolver ip frac g) c params =
    Inr \<lparr> res_Data = content,
          res_Annotations = Some [(''commit'', hash_String h), (''content-type'', ''application/x-yaml'')] \<rparr>"
proof -
  have "git_commit g repo (go_index params CommitParam) = Inr (hash_String h)"
    using assms(1,3) by (simp add: git_commit_def CommitParam_def)
  moreover have "checkout_commit g repo (NewHash (hash_String h)) = Inr h"
    using assms(4,5) by (simp add: checkout_commit_def NewHash_hash_String)
  ultimately have "git_Resolve ip g params = Inr \<lparr> rg_Commit = hash_String h, rg_Content = content \<rparr>"
    using assms(2,6,7,8)
    by (subst git_Resolve_checked_out [of g params repo "hash_String h" h])
      (simp_all add: git_consts NewBranchReferenceName_def git_file_def split: if_splits)
  then show ?thesis
    by (simp add: git_resolver_def git_resource_def git_Annotations_def AnnotationKeyCommitHash_def
        AnnotationKeyContentType_def YAMLContentType_def)
qed

theorem git_Resolve_head_witness:
  "rv_Resolve (git_resolver (\<lambda>_. False) (\<lambda>_ _ _. 0) demo_git) Background (Some [(''url'', ''u''), (''path'', ''p'')]) =
     Inr \<lparr> res_Data = hash_String (replicate 20 (chr 17)),
           res_Annotations = Some [(''commit'', hash_String (replicate 20 (chr 17))),
             (''content-type'', ''application/x-yaml'')] \<rparr>"
  by (intro git_Resolve_head [where repo = "[]" and files = "replicate 20 (chr 17)"])
    (simp_all add: demo_git_def go_index_def go_lookup_def ZeroHash_def chr_def)

text \<open>
  C40. A commit parameter that does not start with two hexadecimal digits (a branch or tag name,
  say) is not rejected: its hash is zero, the checkout falls back to the branch \<^verbatim>\<open>master\<close>, and the
  file of \<^verbatim>\<open>master\<close> is returned with the parameter's text as its commit annotation.
\<close>

theorem git_Resolve_bad_commit:
  assumes "go_index params ''commit'' = commit" "commit \<noteq> []" "hex_decode commit = []"
    and "git_clone g (go_index params ''url'')
      (if go_index params ''branch'' \<noteq> [] then Some (''refs/heads/'' @ go_index params ''branch'') else None) = Inr repo"
    and "git_worktree g repo = None" "git_reference g repo ''refs/heads/master'' = Inr m"
    and "git_reset g repo m = Inr files" "git_open g files (go_index params ''path'') = Inr (Inr content)"
  shows "rv_Resolve (git_resolver ip frac g) c params =
    Inr \<lparr> res_Data = content,
          res_Annotations = Some [(''commit'', commit), (''content-type'', ''application/x-yaml'')] \<rparr>"
proof -
  have "git_commit g repo (go_index params CommitParam) = Inr commit"
    using assms(1,2) by (simp add: git_commit_def CommitParam_def)
  moreover have "checkout_commit g repo (NewHash commit) = Inr m"
    using assms(6) NewHash_zero [OF assms(3)] by (simp add: checkout_commit_def NewBranchReferenceName_def)
  ultimately have "git_Resolve ip g params = Inr \<lparr> rg_Commit = commit, rg_Content = content \<rparr>"
    using assms(4,5,7,8)
    by (subst git_Resolve_checked_out [of g params repo commit m])
      (simp_all add: git_consts NewBranchReferenceName_def git_file_def split: if_splits)
  then show ?thesis
    by (simp add: git_resolver_def git_resource_def git_Annotations_def AnnotationKeyCommitHash_def
        AnnotationKeyContentType_def YAMLContentType_def)
qed

theorem git_Resolve_bad_commit_witness:
  "rv_Resolve (git_resolver (\<lambda>_. False) (\<lambda>_ _ _. 0) demo_git) Background
      (Some [(''url'', ''u''), (''path'', ''p''), (''commit'', ''main'')]) =
     Inr \<lparr> res_Data = hash_String (replicate 20 (chr 34)),
           res_Annotations = Some [(''commit'', ''main''), (''content-type'', ''application/x-yaml'')] \<rparr>"
  by (intro git_Resolve_bad_commit [where repo = "[]" and files = "replicate 20 (chr 34)" and m = "replicate 20 (chr 34)"])
    (simp_all add: demo_git_def go_index_def go_lookup_def from_hex_def)

text \<open>
  C35. The timeout of the git resolver is the \<^verbatim>\<open>fetch-timeout\<close> of the latest version of its
  ConfigMap when that parses as a duration, and one minute otherwise; it is always a 64-bit
  duration.
\<close>

theorem git_timeout_configured:
  assumes "\<forall>cm \<in> set cms. go_wf (cm_data cm)"
  shows "\<exists>c'. ToContext (fold (\<lambda>cm s. change s cm) cms (NewConfigStore ''git-resolver-config'')) c = Some c' \<and>
     resolution_timeout (git_resolver ip frac g) c' =
       (case map_of (latest_config ''git-resolver-config'' cms) ''fetch-timeout'' of
          None \<Rightarrow> minute
        | Some t \<Rightarrow> (case parse_duration frac t of None \<Rightarrow> minute | Some d \<Rightarrow> d)) \<and>
     in_int64 (resolution_timeout (git_resolver ip frac g) c')"
proof -
  obtain c' where c': "ToContext (fold (\<lambda>cm s. change s cm) cms (NewConfigStore ''git-resolver-config'')) c = Some c'"
    "GetResolverConfigFromContext c' = Some (latest_config ''git-resolver-config'' cms)"
    using GetResolverConfig_changes [OF assms, of "''git-resolver-config''"]
    by (auto simp: ToContext_def InjectResolverConfigToContext_def GetResolverConfigFromContext_def)
  have "in_int64 minute" using default_in_int64 by (simp add: defaultMaximumResolutionDuration_def)
  with c' show ?thesis
    by (auto simp: resolution_timeout_def git_resolver_def git_GetResolutionTimeout_def go_lookup_def
        ConfigFieldTimeout_def split: option.split dest: parse_duration_in_int64)
qed

theorem git_timeout_configured_witness:
  "\<exists>c'. ToContext (fold (\<lambda>cm s. change s cm)
        [\<lparr> cm_name = ''git-resolver-config'', cm_data = Some [(''fetch-timeout'', ''30s'')] \<rparr>]
        (NewConfigStore ''git-resolver-config'')) Background = Some c' \<and>
     resolution_timeout (git_resolver (\<lambda>_. False) (\<lambda>_ _ _. 0) demo_git) c' = 30 * second"
proof -
  have "parse_duration (\<lambda>_ _ _. 0) ''30s'' = Some (30 * second)"
    by (simp add: parse_duration_def Let_def parse_component_def component_number_def component_unit_def
        component_value_def unit_map_def num_char_def is_digit_def digit_val_def second_def wrap64_id
        in_int64_def min_int64_def max_int64_def)
  then show ?thesis
    using git_timeout_configured [of "[\<lparr> cm_name = ''git-resolver-config'', cm_data = Some [(''fetch-timeout'', ''30s'')] \<rparr>]"
        Background "\<lambda>_. False" "\<lambda>_ _ _. 0" demo_git]
    by (auto simp: go_wf_def latest_config_def)
qed

end
