(* ===== verification/Bundle_Resolver.thy ===== *)
theory Bundle_Resolver
  imports Framework
begin

section \<open>The bundle resolver\<close>

text \<open>
  \<^verbatim>\<open>bundleresolver/pkg/bundle\<close> and \<^verbatim>\<open>bundleresolver/cmd/bundleresolver/main.go\<close>: the resolver that
  fetches one entry of a Tekton bundle, an image whose layers are annotated with the kind, name
  and API version of a resource. The registry, the parser of image references and the keychain
  are the record \<open>bundle_ops\<close>, a parameter; an image is what go-containerregistry and
  \<^verbatim>\<open>archive/tar\<close> return for it: the manifest, the layers, and for each layer the two ways the code
  reads it (\<open>tar_next\<close> the size in the first tar header, \<open>tar_read\<close> one \<^verbatim>\<open>Read\<close> into a buffer of
  that size, \<open>read_all\<close> the raw content).
\<close>

subsection \<open>Constants and options\<close>

definition ParamServiceAccount :: string where "ParamServiceAccount = ''serviceAccount''"
definition ParamBundle :: string where "ParamBundle = ''bundle''"
definition ParamName :: string where "ParamName = ''name''"
definition ParamKind :: string where "ParamKind = ''kind''"
definition defaultServiceAccountName :: string where "defaultServiceAccountName = ''default''"
definition BundleAnnotationKind :: string where "BundleAnnotationKind = ''dev.tekton.image.kind''"
definition BundleAnnotationName :: string where "BundleAnnotationName = ''dev.tekton.image.name''"
definition BundleAnnotationAPIVersion :: string where "BundleAnnotationAPIVersion = ''dev.tekton.image.apiVersion''"

lemmas bundle_consts = ParamServiceAccount_def ParamBundle_def ParamName_def ParamKind_def defaultServiceAccountName_def
  BundleAnnotationKind_def BundleAnnotationName_def BundleAnnotationAPIVersion_def

record request_options =
  ro_ServiceAccount :: string
  ro_Bundle :: string
  ro_EntryName :: string
  ro_Kind :: string

definition OptionsFromParams :: "(nat \<Rightarrow> bool) \<Rightarrow> (string \<Rightarrow> 'ref res) \<Rightarrow> gomap \<Rightarrow> request_options res" where
  "OptionsFromParams ip parse params =
     (let sa = (case go_lookup params ParamServiceAccount of None \<Rightarrow> defaultServiceAccountName | Some v \<Rightarrow> v) in
      case go_lookup params ParamBundle of
        None \<Rightarrow> Inl (ErrorString (''parameter '' @ quote ip ParamBundle @ '' required''))
      | Some bundle \<Rightarrow>
        (case parse bundle of
           Inl e \<Rightarrow> Inl (WrapError ''invalid bundle reference: '' e)
         | Inr _ \<Rightarrow>
           (case go_lookup params ParamName of
              None \<Rightarrow> Inl (ErrorString (''parameter '' @ quote ip ParamName @ '' required''))
            | Some name \<Rightarrow>
              (case go_lookup params ParamKind of
                 None \<Rightarrow> Inl (ErrorString (''paramater '' @ quote ip ParamKind @ '' required''))
               | Some kind \<Rightarrow>
                   Inr \<lparr> ro_ServiceAccount = sa, ro_Bundle = bundle, ro_EntryName = name, ro_Kind = kind \<rparr>))))"

subsection \<open>Images\<close>

datatype read_err = EOF | ReadErr err

record layer_stream =
  tar_next :: "nat res"
  tar_read :: "nat \<Rightarrow> string \<times> read_err option"
  read_all :: "string res"

record image_layer =
  il_digest :: "string res"
  il_uncompressed :: "layer_stream res"

record manifest_layer =
  ml_annotations :: gomap
  ml_digest :: string

record image =
  im_manifest :: "manifest_layer list res"
  im_layers :: "image_layer list res"

record ('ref, 'kc) bundle_ops =
  bo_parse :: "string \<Rightarrow> 'ref res"
  bo_keychain :: "ctx \<Rightarrow> string \<Rightarrow> string \<Rightarrow> 'kc res"
  bo_image :: "ctx \<Rightarrow> 'kc option \<Rightarrow> 'ref \<Rightarrow> image res"

subsection \<open>GetEntry\<close>

definition entry_annotations :: "string \<Rightarrow> string \<Rightarrow> string \<Rightarrow> gomap" where
  "entry_annotations kind name apiVersion =
     Some [(BundleAnnotationKind, kind), (BundleAnnotationName, name), (BundleAnnotationAPIVersion, apiVersion)]"

text \<open>The body of the loop over the image's layers, for the layer whose digest matches.\<close>

definition read_tar :: "image_layer \<Rightarrow> string res" where
  "read_tar layer =
     (case il_uncompressed layer of
        Inl e \<Rightarrow> Inl (WrapError ''error decompressing layer: '' e)
      | Inr stream \<Rightarrow>
        (case tar_next stream of
           Inl e \<Rightarrow> Inl (WrapError ''error reading tarball header: '' e)
         | Inr sz \<Rightarrow>
           (case tar_read stream sz of
              (bytes, Some (ReadErr e)) \<Rightarrow> Inl (WrapError ''invalid tarball: '' e)
            | (bytes, _) \<Rightarrow>
                if length bytes \<noteq> sz
                then Inl (ErrorString (''layer data does not match size reported in header: expected '' @
                       utoa sz @ '' received '' @ utoa (length bytes)))
                else Inr bytes)))"

text \<open>The inner loop; \<open>None\<close> when it ends without returning.\<close>

fun find_layer :: "string \<Rightarrow> gomap \<Rightarrow> image_layer list \<Rightarrow> resolved_resource res option" where
  "find_layer digest annotations [] = None"
| "find_layer digest annotations (layer # layers) =
     (case il_digest layer of
        Inl e \<Rightarrow> Some (Inl (WrapError ''error reading layer digest: '' e))
      | Inr d \<Rightarrow>
          if d = digest then
            Some (map_sum id (\<lambda>data. \<lparr> res_Data = data, res_Annotations = annotations \<rparr>) (read_tar layer))
          else find_layer digest annotations layers)"

definition read_raw :: "image_layer \<Rightarrow> resolved_resource res" where
  "read_raw layer =
     (case il_uncompressed layer of
        Inl e \<Rightarrow> Inl (WrapError ''error decompressing layer: '' e)
      | Inr stream \<Rightarrow>
        (case read_all stream of
           Inl e \<Rightarrow> Inl (WrapError ''error reading layer content: '' e)
         | Inr data \<Rightarrow> Inr \<lparr> res_Data = data, res_Annotations = None \<rparr>))"

definition layer_annotation :: "nat \<Rightarrow> manifest_layer \<Rightarrow> string \<Rightarrow> string \<Rightarrow> string res" where
  "layer_annotation idx layer key what =
     (case go_lookup (ml_annotations layer) key of
        None \<Rightarrow> Inl (ErrorString (what @ '' annotation not found in bundle layer '' @ utoa idx))
      | Some v \<Rightarrow> Inr v)"

text \<open>The entry a manifest layer describes: its kind, name and API version.\<close>

definition layer_entry :: "nat \<Rightarrow> manifest_layer \<Rightarrow> (string \<times> string \<times> string) res" where
  "layer_entry idx layer =
     (case layer_annotation idx layer BundleAnnotationKind ''kind'' of
        Inl e \<Rightarrow> Inl e
      | Inr kind \<Rightarrow>
        (case layer_annotation idx layer BundleAnnotationName ''name'' of
           Inl e \<Rightarrow> Inl e
         | Inr name \<Rightarrow>
           (case layer_annotation idx layer BundleAnnotationAPIVersion ''apiVersion'' of
              Inl e \<Rightarrow> Inl e
            | Inr apiVersion \<Rightarrow> Inr (kind, name, apiVersion))))"

text \<open>What the code does with a manifest layer whose kind and name match: \<open>None\<close> continues the
  loop.\<close>

definition fetch_layer :: "image \<Rightarrow> nat \<Rightarrow> manifest_layer \<Rightarrow> string \<times> string \<times> string \<Rightarrow> resolved_resource res option" where
  "fetch_layer img idx mlayer entry =
     (case entry of (kind, name, apiVersion) \<Rightarrow>
        (case im_layers img of
           Inl e \<Rightarrow> Some (Inl (WrapError ''error reading layers: '' e))
         | Inr layers \<Rightarrow>
           (case find_layer (ml_digest mlayer) (entry_annotations kind name apiVersion) layers of
              Some x \<Rightarrow> Some x
            | None \<Rightarrow> if idx < length layers then Some (read_raw (layers ! idx)) else None)))"

fun manifest_loop :: "image \<Rightarrow> request_options \<Rightarrow> nat \<Rightarrow> manifest_layer list \<Rightarrow> resolved_resource res" where
  "manifest_loop img opts idx [] = Inl (ErrorString ''no matching image layer'')"
| "manifest_loop img opts idx (l # ls) =
     (case layer_entry idx l of
        Inl e \<Rightarrow> Inl e
      | Inr (kind, name, apiVersion) \<Rightarrow>
          if kind = ro_Kind opts \<and> name = ro_EntryName opts then
            (case fetch_layer img idx l (kind, name, apiVersion) of
               Some x \<Rightarrow> x
             | None \<Rightarrow> manifest_loop img opts (Suc idx) ls)
          else manifest_loop img opts (Suc idx) ls)"

definition GetEntry :: "('ref, 'kc) bundle_ops \<Rightarrow> ctx \<Rightarrow> 'kc option \<Rightarrow> request_options \<Rightarrow> resolved_resource res" where
  "GetEntry b c kc opts =
     (case bo_parse b (ro_Bundle opts) of
        Inl e \<Rightarrow> Inl (WrapError ''invalid bundle reference: '' e)
      | Inr imgRef \<Rightarrow>
        (case bo_image b c kc imgRef of
           Inl e \<Rightarrow> Inl (WrapError ''error retrieving image: '' e)
         | Inr img \<Rightarrow>
           (case im_manifest img of
              Inl e \<Rightarrow> Inl (WrapError ''error parsing bundle manifest: '' e)
            | Inr layers \<Rightarrow> manifest_loop img opts 0 layers)))"

subsection \<open>The resolver\<close>

definition timeoutDuration :: duration where
  "timeoutDuration = minute"

text \<open>The error of the keychain's construction is assigned and never looked at; the keychain is
  then nil.\<close>

definition bundle_Resolve :: "(nat \<Rightarrow> bool) \<Rightarrow> ('ref, 'kc) bundle_ops \<Rightarrow> ctx \<Rightarrow> gomap \<Rightarrow> resolved_resource res" where
  "bundle_Resolve ip b c params =
     (case OptionsFromParams ip (bo_parse b) params of
        Inl e \<Rightarrow> Inl e
      | Inr opts \<Rightarrow>
        (let kc = (case bo_keychain b c (RequestNamespace c) (ro_ServiceAccount opts) of Inl _ \<Rightarrow> None | Inr k \<Rightarrow> Some k)
         in GetEntry b (WithTimeout c timeoutDuration) kc opts))"

definition bundle_ValidateParams :: "(nat \<Rightarrow> bool) \<Rightarrow> ('ref, 'kc) bundle_ops \<Rightarrow> gomap \<Rightarrow> err option" where
  "bundle_ValidateParams ip b params =
     (case OptionsFromParams ip (bo_parse b) params of Inl e \<Rightarrow> Some e | Inr _ \<Rightarrow> None)"

definition bundle_resolver :: "(nat \<Rightarrow> bool) \<Rightarrow> ('ref, 'kc) bundle_ops \<Rightarrow> resolver" where
  "bundle_resolver ip b =
     \<lparr> rv_Initialize = (\<lambda>_. None), rv_GetName = (\<lambda>_. ''bundleresolver''),
       rv_GetSelector = (\<lambda>_. Some [(LabelKeyResolverType, ''bundles'')]),
       rv_ValidateParams = (\<lambda>_. bundle_ValidateParams ip b),
       rv_Resolve = bundle_Resolve ip b,
       rv_GetConfigName = None, rv_GetResolutionTimeout = None \<rparr>"

interpretation bdl: resolver_contract "bundle_resolver ip b" "''bundles''" for ip b
  by unfold_locales (auto simp: bundle_resolver_def)

subsection \<open>Lemmas\<close>

lemma read_tar_exact: "read_tar layer = Inr data \<Longrightarrow>
   \<exists>stream sz. il_uncompressed layer = Inr stream \<and> tar_next stream = Inr sz \<and> length data = sz \<and>
     fst (tar_read stream sz) = data"
  by (auto simp: read_tar_def split: sum.splits prod.splits option.splits read_err.splits if_splits)

lemma find_layer_InrD:
  assumes "find_layer digest annotations layers = Some (Inr r)"
  shows "res_Annotations r = annotations \<and>
    (\<exists>layer \<in> set layers. il_digest layer = Inr digest \<and> read_tar layer = Inr (res_Data r))"
  using assms
proof (induction digest annotations layers rule: find_layer.induct)
  case (2 digest annotations layer layers)
  then show ?case
    by (cases "read_tar layer") (auto split: sum.splits if_splits)
qed simp

text \<open>A layer that answers the request: it is annotated with the requested kind and name, and the data
  is what the image holds for it, by digest or by position.\<close>

definition serves :: "image \<Rightarrow> request_options \<Rightarrow> nat \<Rightarrow> manifest_layer \<Rightarrow> resolved_resource \<Rightarrow> bool" where
  "serves img opts idx ml r \<longleftrightarrow>
     (\<exists>apiVersion layers. layer_entry idx ml = Inr (ro_Kind opts, ro_EntryName opts, apiVersion) \<and>
        im_layers img = Inr layers \<and>
        ((\<exists>layer \<in> set layers. il_digest layer = Inr (ml_digest ml) \<and> read_tar layer = Inr (res_Data r)) \<and>
           res_Annotations r = entry_annotations (ro_Kind opts) (ro_EntryName opts) apiVersion \<or>
         idx < length layers \<and> (\<forall>layer \<in> set layers. il_digest layer \<noteq> Inr (ml_digest ml)) \<and> read_raw (layers ! idx) = Inr r))"

lemma find_layer_None: "find_layer digest annotations layers = None \<Longrightarrow> \<forall>layer \<in> set layers. il_digest layer \<noteq> Inr digest"
  by (induction digest annotations layers rule: find_layer.induct) (auto split: sum.splits if_splits)

lemma fetch_layer_InrD:
  assumes "fetch_layer img idx ml (kind, name, v) = Some (Inr r)" "kind = ro_Kind opts" "name = ro_EntryName opts"
    and "layer_entry idx ml = Inr (kind, name, v)"
  shows "serves img opts idx ml r"
proof -
  obtain layers where l: "im_layers img = Inr layers" using assms(1) by (auto simp: fetch_layer_def split: sum.splits)
  show ?thesis
  proof (cases "find_layer (ml_digest ml) (entry_annotations kind name v) layers")
    case None
    with assms l find_layer_None [OF None] show ?thesis
      by (auto simp: fetch_layer_def serves_def split: if_splits)
  next
    case (Some x)
    with assms(1) l have "x = Inr r" by (simp add: fetch_layer_def)
    with find_layer_InrD [of "ml_digest ml" _ layers r] Some assms(2-4) l show ?thesis
      unfolding serves_def by (intro exI [of _ v] exI [of _ layers]) auto
  qed
qed

lemma manifest_loop_InrD:
  "manifest_loop img opts idx mls = Inr r \<Longrightarrow> \<exists>j < length mls. serves img opts (idx + j) (mls ! j) r"
proof (induction img opts idx mls rule: manifest_loop.induct)
  case (2 img opts idx l ls)
  obtain k n v where e: "layer_entry idx l = Inr (k, n, v)"
    using 2(3) by (auto split: sum.splits)
  show ?case
  proof (cases "k = ro_Kind opts \<and> n = ro_EntryName opts \<and> fetch_layer img idx l (k, n, v) \<noteq> None")
    case True
    with 2(3) e have "fetch_layer img idx l (k, n, v) = Some (Inr r)" by auto
    from fetch_layer_InrD [OF this _ _ e] True show ?thesis by (intro exI [of _ 0]) simp
  next
    case False
    then have "manifest_loop img opts (Suc idx) ls = Inr r" using 2(3) e by (auto split: if_splits)
    then have "\<exists>j < length ls. serves img opts (Suc idx + j) (ls ! j) r"
      using 2(1,2) e False by (cases "k = ro_Kind opts \<and> n = ro_EntryName opts") auto
    then show ?thesis by (metis Suc_less_eq add_Suc_shift length_Cons nth_Cons_Suc)
  qed
qed simp

lemma manifest_loop_skip:
  assumes "\<forall>i < j. \<exists>k n v. layer_entry (idx + i) (mls ! i) = Inr (k, n, v) \<and> \<not> (k = ro_Kind opts \<and> n = ro_EntryName opts)"
    and "j < length mls" "layer_entry (idx + j) (mls ! j) = Inr (ro_Kind opts, ro_EntryName opts, v)"
    and "fetch_layer img (idx + j) (mls ! j) (ro_Kind opts, ro_EntryName opts, v) = Some x"
  shows "manifest_loop img opts idx mls = x"
  using assms
proof (induction j arbitrary: idx mls)
  case 0
  then obtain l ls where "mls = l # ls" by (cases mls) auto
  with 0 show ?case by simp
next
  case (Suc j)
  then obtain l ls where mls: "mls = l # ls" by (cases mls) auto
  have "\<exists>k n v. layer_entry (idx + 0) (mls ! 0) = Inr (k, n, v) \<and> \<not> (k = ro_Kind opts \<and> n = ro_EntryName opts)"
    by (rule Suc.prems(1) [rule_format]) simp
  then obtain k n v' where "layer_entry idx l = Inr (k, n, v')" "\<not> (k = ro_Kind opts \<and> n = ro_EntryName opts)"
    by (auto simp: mls)
  moreover have "\<forall>i < j. \<exists>k n v. layer_entry (Suc idx + i) (ls ! i) = Inr (k, n, v) \<and>
      \<not> (k = ro_Kind opts \<and> n = ro_EntryName opts)"
  proof (intro allI impI)
    fix i assume "i < j"
    then have "Suc i < Suc j" by simp
    with Suc.prems(1) have "\<exists>k n v. layer_entry (idx + Suc i) (mls ! Suc i) = Inr (k, n, v) \<and>
        \<not> (k = ro_Kind opts \<and> n = ro_EntryName opts)" by blast
    then show "\<exists>k n v. layer_entry (Suc idx + i) (ls ! i) = Inr (k, n, v) \<and>
        \<not> (k = ro_Kind opts \<and> n = ro_EntryName opts)" by (simp add: mls)
  qed
  ultimately show ?case using Suc.IH [of "Suc idx" ls] Suc.prems(2-4) mls by auto
qed

lemma find_layer_at:
  assumes "\<forall>l \<in> set pre. \<exists>d. il_digest l = Inr d \<and> d \<noteq> digest" "il_digest layer = Inr digest"
  shows "find_layer digest ann (pre @ layer # post) =
     Some (map_sum id (\<lambda>data. \<lparr> res_Data = data, res_Annotations = ann \<rparr>) (read_tar layer))"
  using assms by (induction pre) auto

text \<open>A bundle of two entries for examples.\<close>

definition demo_layer :: "string \<Rightarrow> string \<Rightarrow> image_layer" where
  "demo_layer digest content =
     \<lparr> il_digest = Inr digest,
       il_uncompressed = Inr \<lparr> tar_next = Inr (length content), tar_read = (\<lambda>n. (take n content, Some EOF)),
                              read_all = Inr content \<rparr> \<rparr>"

definition demo_manifest_layer :: "string \<Rightarrow> string \<Rightarrow> string \<Rightarrow> manifest_layer" where
  "demo_manifest_layer kind name digest =
     \<lparr> ml_annotations = Some [(''dev.tekton.image.kind'', kind), (''dev.tekton.image.name'', name),
         (''dev.tekton.image.apiVersion'', ''v1'')], ml_digest = digest \<rparr>"

definition demo_image :: image where
  "demo_image =
     \<lparr> im_manifest = Inr [demo_manifest_layer ''task'' ''a'' ''d1'', demo_manifest_layer ''task'' ''b'' ''d2''],
       im_layers = Inr [demo_layer ''d1'' ''AAA'', demo_layer ''d2'' ''BB''] \<rparr>"

definition demo_registry :: "(string, unit) bundle_ops" where
  "demo_registry =
     \<lparr> bo_parse = Inr, bo_keychain = (\<lambda>_ _ _. Inr ()), bo_image = (\<lambda>_ _ _. Inr demo_image) \<rparr>"

definition demo_options :: request_options where
  "demo_options = \<lparr> ro_ServiceAccount = ''default'', ro_Bundle = ''reg/img'', ro_EntryName = ''b'', ro_Kind = ''task'' \<rparr>"

subsection \<open>Properties\<close>

text \<open>
  Which parameters make bundle options: exactly those with a bundle whose reference parses, a
  name and a kind; the service account is \<^verbatim>\<open>default\<close> when it is not given.
\<close>

theorem OptionsFromParams_iff:
  "OptionsFromParams ip parse params = Inr opts \<longleftrightarrow>
     go_lookup params ''bundle'' = Some (ro_Bundle opts) \<and> \<not> is_err (parse (ro_Bundle opts)) \<and>
     go_lookup params ''name'' = Some (ro_EntryName opts) \<and> go_lookup params ''kind'' = Some (ro_Kind opts) \<and>
     ro_ServiceAccount opts = (case go_lookup params ''serviceAccount'' of None \<Rightarrow> ''default'' | Some sa \<Rightarrow> sa)"
  by (cases opts) (auto simp: OptionsFromParams_def bundle_consts is_err_def Let_def split: option.splits sum.splits)



text \<open>
  C28. \<^verbatim>\<open>GetEntry\<close> finds an entry that is there: when every manifest layer before the requested one is
  annotated and describes another entry, and an image layer with the requested layer's digest
  (the first one with it) holds a complete file, that file is returned with the annotations of
  the layer.
\<close>

theorem GetEntry_complete:
  assumes "bo_parse b (ro_Bundle opts) = Inr ref" "bo_image b c kc ref = Inr img" "im_manifest img = Inr mls"
    and "\<forall>i < j. \<exists>k n v. layer_entry i (mls ! i) = Inr (k, n, v) \<and> \<not> (k = ro_Kind opts \<and> n = ro_EntryName opts)"
    and "j < length mls" "layer_entry j (mls ! j) = Inr (ro_Kind opts, ro_EntryName opts, v)"
    and "im_layers img = Inr (pre @ layer # post)"
    and "\<forall>l \<in> set pre. \<exists>d. il_digest l = Inr d \<and> d \<noteq> ml_digest (mls ! j)"
    and "il_digest layer = Inr (ml_digest (mls ! j))" "read_tar layer = Inr data"
  shows "GetEntry b c kc opts =
     Inr \<lparr> res_Data = data, res_Annotations = entry_annotations (ro_Kind opts) (ro_EntryName opts) v \<rparr>"
proof -
  have "fetch_layer img j (mls ! j) (ro_Kind opts, ro_EntryName opts, v) =
      Some (Inr \<lparr> res_Data = data, res_Annotations = entry_annotations (ro_Kind opts) (ro_EntryName opts) v \<rparr>)"
    using find_layer_at [OF assms(8,9)] assms(7,10) by (simp add: fetch_layer_def)
  from manifest_loop_skip [of j 0 mls opts v img, OF _ assms(5)] this assms(1-4,6) show ?thesis
    by (simp add: GetEntry_def)
qed

theorem GetEntry_complete_witness:
  "GetEntry demo_registry Background None demo_options =
     Inr \<lparr> res_Data = ''BB'', res_Annotations = entry_annotations ''task'' ''b'' ''v1'' \<rparr>"
proof -
  let ?mls = "[demo_manifest_layer ''task'' ''a'' ''d1'', demo_manifest_layer ''task'' ''b'' ''d2'']"
  have "GetEntry demo_registry Background None demo_options =
     Inr \<lparr> res_Data = ''BB'', res_Annotations = entry_annotations (ro_Kind demo_options) (ro_EntryName demo_options) ''v1'' \<rparr>"
    by (rule GetEntry_complete [where ref = "''reg/img''" and img = demo_image and mls = ?mls and j = 1
          and pre = "[demo_layer ''d1'' ''AAA'']" and layer = "demo_layer ''d2'' ''BB''" and post = "[]"])
      (simp_all add: demo_registry_def demo_image_def demo_options_def demo_manifest_layer_def demo_layer_def
        layer_entry_def layer_annotation_def read_tar_def bundle_consts go_lookup_def)
  then show ?thesis by (simp add: demo_options_def)
qed

end
