(* ===== verification/Template_Resolver.thy ===== *)
theory Template_Resolver
  imports Framework
begin

section \<open>The resolver of the documentation\<close>

text \<open>
  \<^verbatim>\<open>docs/resolver-template/cmd/demoresolver/main.go\<close>, the resolver that authors of resolvers start from: it
  takes no parameters and answers every request of type \<^verbatim>\<open>demo\<close> with the same pipeline.
\<close>

definition nl :: string where
  "nl = [CHR 0x0A]"

definition pipeline :: string where
  "pipeline =
     nl @ ''apiVersion: tekton.dev/v1beta1'' @ nl @
     ''kind: Pipeline'' @ nl @
     ''metadata:'' @ nl @
     ''  name: my-pipeline'' @ nl @
     ''spec:'' @ nl @
     ''  tasks:'' @ nl @
     ''  - name: hello-world'' @ nl @
     ''    taskSpec:'' @ nl @
     ''      steps:'' @ nl @
     ''      - image: alpine:3.15.1'' @ nl @
     ''        script: |'' @ nl @
     ''          echo '' @ [CHR 0x22] @ ''hello world'' @ [CHR 0x22] @ nl"

definition template_ValidateParams :: "ctx \<Rightarrow> gomap \<Rightarrow> err option" where
  "template_ValidateParams c params = (if 0 < go_len params then Some (ErrorString ''no params allowed'') else None)"

definition myResolvedResource :: resolved_resource where
  "myResolvedResource = \<lparr> res_Data = pipeline, res_Annotations = None \<rparr>"

definition template_Resolve :: "ctx \<Rightarrow> gomap \<Rightarrow> resolved_resource res" where
  "template_Resolve c params = Inr myResolvedResource"

definition template_resolver :: resolver where
  "template_resolver =
     \<lparr> rv_Initialize = (\<lambda>_. None), rv_GetName = (\<lambda>_. ''Demo''),
       rv_GetSelector = (\<lambda>_. Some [(LabelKeyResolverType, ''demo'')]),
       rv_ValidateParams = template_ValidateParams, rv_Resolve = template_Resolve,
       rv_GetConfigName = None, rv_GetResolutionTimeout = None \<rparr>"

definition demoresolver_main :: "(nat \<Rightarrow> bool) \<Rightarrow> fw_controller res" where
  "demoresolver_main ip = NewController ip Background template_resolver []"

interpretation tpl: resolver_contract template_resolver "''demo''"
  by unfold_locales (auto simp: template_resolver_def)

text \<open>What \<^verbatim>\<open>select\<close> can receive: the pipeline or the rejection of parameters, unless the context ends first.\<close>

lemma template_outcome:
  "resolve_outcome template_resolver c key ip params out \<longleftrightarrow>
     out \<in> {Got_done DeadlineExceeded, Got_done Canceled,
       if go_len params = 0 then Got_resource myResolvedResource
       else Got_err (ErrorInvalidRequest key ''no params allowed'')}"
  by (cases out) (auto simp: resolve_outcome_iff_answer answer_def worker_defs template_resolver_def template_ValidateParams_def
      template_Resolve_def)

end
