(* ===== verification/Names.thy ===== *)
theory Names
  imports Common
begin

section \<open>Request names\<close>

text \<open>
  \<^verbatim>\<open>pkg/resource/name.go\<close>: reproducible names for requests, \<^verbatim>\<open>{prefix}-{hash}\<close>. The hash is Go's
  \<^verbatim>\<open>hash/fnv\<close> 128-bit FNV-1a, on 128-bit words; \<^verbatim>\<open>hash.Hash.Write\<close> never fails, so the error
  branches of the source are not reachable. The keys of the parameter map are collected in
  the iteration order of the map and then sorted.
\<close>

unbundle bit_operations_syntax

definition fnv_offset :: "128 word" where
  "fnv_offset = 0x6c62272e07bb014262b821756295c58d"

definition fnv_prime :: "128 word" where
  "fnv_prime = 0x0000000001000000000000000000013b"

definition fnv_byte :: "128 word \<Rightarrow> char \<Rightarrow> 128 word" where
  "fnv_byte h ch = (h XOR word_of_nat (byte ch)) * fnv_prime"

text \<open>The state of \<^verbatim>\<open>fnv.New128a()\<close> and \<^verbatim>\<open>Write\<close>.\<close>

definition nameHasher :: "128 word" where
  "nameHasher = fnv_offset"

definition hash_write :: "128 word \<Rightarrow> string \<Rightarrow> 128 word" where
  "hash_write h s = foldl fnv_byte h s"

text \<open>\<^verbatim>\<open>fmt.Sprintf("%x", hasher.Sum(nil))\<close>: sixteen bytes, high byte first, two digits each.\<close>

definition hash_hex :: "128 word \<Rightarrow> string" where
  "hash_hex h = hex_digits 32 (unat h)"

fun write_params :: "gomap \<Rightarrow> 128 word \<Rightarrow> string list \<Rightarrow> 128 word" where
  "write_params params h [] = h"
| "write_params params h (key # keys) =
     write_params params (hash_write (hash_write h key) (go_index params key)) keys"

definition GenerateDeterministicName :: "string \<Rightarrow> string \<Rightarrow> gomap \<Rightarrow> string" where
  "GenerateDeterministicName prefix base params =
     (let paramKeys = map fst (go_entries params);
          h = hash_write nameHasher base
      in prefix @ ''-'' @ hash_hex (write_params params h (sort paramKeys)))"

subsection \<open>The hash reads one byte string\<close>

text \<open>What the hash is computed from: the base and then each key and value in key order, with
  nothing in between.\<close>

definition name_input :: "string \<Rightarrow> gomap \<Rightarrow> string" where
  "name_input base params =
     base @ concat (map (\<lambda>key. key @ go_index params key) (sort (map fst (go_entries params))))"

lemma hash_write_append: "hash_write h (s @ t) = hash_write (hash_write h s) t"
  by (simp add: hash_write_def)

lemma write_params_eq:
  "write_params params h keys = hash_write h (concat (map (\<lambda>key. key @ go_index params key) keys))"
  by (induction keys arbitrary: h) (simp_all add: hash_write_append, simp add: hash_write_def)

lemma GenerateDeterministicName_eq:
  "GenerateDeterministicName prefix base params =
     prefix @ ''-'' @ hash_hex (hash_write nameHasher (name_input base params))"
  by (simp add: GenerateDeterministicName_def name_input_def write_params_eq hash_write_append)

lemma name_input_eqv:
  assumes "go_wf m" "go_wf n" "set (go_entries m) = set (go_entries n)"
  shows "name_input base m = name_input base n"
proof -
  have "go_lookup m = go_lookup n"
    using assms by (auto simp: go_lookup_def go_wf_def fun_eq_iff
        map_of_eq_if_set_eq [of "go_entries m" "go_entries n"])
  then have "go_index m = go_index n" by (simp add: go_index_def fun_eq_iff)
  moreover have "sort (map fst (go_entries m)) = sort (map fst (go_entries n))"
    using assms by (intro sort_keys_unique) (simp_all add: go_wf_def)
  ultimately show ?thesis by (simp add: name_input_def)
qed

lemma hex_digits_length [simp]: "length (hex_digits w n) = w"
  by (induction w arbitrary: n) auto

lemma hex_digits_set: "set (hex_digits w n) \<subseteq> set ''0123456789abcdef''"
proof (induction w arbitrary: n)
  case (Suc w)
  have "n mod 16 < 16" by simp
  then have "digit (n mod 16) \<in> set ''0123456789abcdef''"
    unfolding digit_def by (intro nth_mem) simp
  with Suc show ?case by simp
qed simp

lemma hash_hex_length [simp]: "length (hash_hex h) = 32"
  by (simp add: hash_hex_def)

lemma hash_hex_set: "set (hash_hex h) \<subseteq> set ''0123456789abcdef''"
  by (simp add: hash_hex_def hex_digits_set del: set_simps)

subsection \<open>Properties\<close>

text \<open>
  Names are reproducible: the name does not depend on the order in which the parameter map is
  iterated, a nil map gives the same name as an empty one, and a name is the prefix, a hyphen and
  thirty-two lower-case hexadecimal digits.
\<close>

theorem GenerateDeterministicName_reproducible:
  assumes "go_wf m" "go_wf n" "set (go_entries m) = set (go_entries n)"
  shows "GenerateDeterministicName prefix base m = GenerateDeterministicName prefix base n \<and>
    (\<exists>digits. GenerateDeterministicName prefix base m = prefix @ ''-'' @ digits \<and> length digits = 32 \<and>
       set digits \<subseteq> set ''0123456789abcdef'')"
proof
  show "GenerateDeterministicName prefix base m = GenerateDeterministicName prefix base n"
    using name_input_eqv [OF assms] by (simp add: GenerateDeterministicName_eq)
  show "\<exists>digits. GenerateDeterministicName prefix base m = prefix @ ''-'' @ digits \<and> length digits = 32 \<and>
       set digits \<subseteq> set ''0123456789abcdef''"
    unfolding GenerateDeterministicName_eq using hash_hex_length hash_hex_set by blast
qed

theorem GenerateDeterministicName_reproducible_witness:
  "GenerateDeterministicName ''git'' ''base'' (Some [(''url'', ''u''), (''path'', ''p'')]) =
   GenerateDeterministicName ''git'' ''base'' (Some [(''path'', ''p''), (''url'', ''u'')])"
  using GenerateDeterministicName_reproducible [of "Some [(''url'', ''u''), (''path'', ''p'')]"
      "Some [(''path'', ''p''), (''url'', ''u'')]" "''git''" "''base''"]
  by (simp add: go_wf_def insert_commute)

text \<open>
  Names are not separated: the hash reads the base, the keys and the values one after the other
  with nothing in between, so that moving text from a key to its value, or from the base to the
  first key, does not change the name.
\<close>

theorem GenerateDeterministicName_collides:
  "GenerateDeterministicName prefix base (Some [(k @ x, v)]) = GenerateDeterministicName prefix base (Some [(k, x @ v)]) \<and>
   GenerateDeterministicName prefix (base @ x) (Some [(k, v)]) = GenerateDeterministicName prefix base (Some [(x @ k, v)])"
  by (simp add: GenerateDeterministicName_eq name_input_def go_index_def go_lookup_def)

end
