(* ===== verification/Requester.thy ===== *)
theory Requester
  imports Framework Names
begin

section \<open>Requesting resources\<close>

text \<open>
  \<^verbatim>\<open>pkg/resource\<close>: the client side, through which Tekton Pipelines asks for a resource and reads it.
  \<^verbatim>\<open>request.go\<close> and \<^verbatim>\<open>resource.go\<close> are the record \<open>request\<close> (the optional interface \<^verbatim>\<open>OwnedRequest\<close> its
  last field), \<^verbatim>\<open>crd_resource.go\<close> is \<open>Submit\<close> and the read-only view of a finished request.
\<close>

subsection \<open>Requests\<close>

record request =
  req_Name :: string
  req_Namespace :: string
  req_Params :: gomap
  req_OwnerRef :: "owner_ref option"

definition NewRequest :: "string \<Rightarrow> string \<Rightarrow> gomap \<Rightarrow> request" where
  "NewRequest name namespace params =
     \<lparr> req_Name = name, req_Namespace = namespace, req_Params = params, req_OwnerRef = None \<rparr>"

subsection \<open>The resolved resource\<close>

definition resource_Annotations :: "rr \<Rightarrow> gomap" where
  "resource_Annotations r =
     (case s_annotations (rr_status r) of
        Some al \<Rightarrow> Some (copy_range [] al)
      | None \<Rightarrow> None)"

text \<open>\<^verbatim>\<open>base64.CorruptInputError\<close> with the offset of the first bad byte.\<close>

definition corrupt_input :: "nat \<Rightarrow> err" where
  "corrupt_input off = ErrorString (''illegal base64 data at input byte '' @ utoa off)"

definition resource_Data :: "rr \<Rightarrow> string res" where
  "resource_Data r =
     (case b64_decode (s_data (rr_status r)) of
        Inl off \<Rightarrow> Inl (WrapError ''error decoding data from base64: '' (corrupt_input off))
      | Inr bytes \<Rightarrow> Inr bytes)"

subsection \<open>Submit\<close>

text \<open>The two \<^verbatim>\<open>Controller\<close> pointers are compared as pointers.\<close>

definition ownerRefsAreEqual :: "owner_ref \<Rightarrow> owner_ref \<Rightarrow> bool" where
  "ownerRefsAreEqual a b \<longleftrightarrow>
     or_apiVersion a = or_apiVersion b \<and> or_kind a = or_kind b \<and> or_name a = or_name b \<and>
     or_uid a = or_uid b \<and> map_option fst (or_controller a) = map_option fst (or_controller b)"

definition appendOwnerReference :: "rr \<Rightarrow> request \<Rightarrow> rr" where
  "appendOwnerReference r req =
     (case req_OwnerRef req of
        None \<Rightarrow> r
      | Some newOwnerRef \<Rightarrow>
          if list_ex (\<lambda>ref. ownerRefsAreEqual ref newOwnerRef) (m_ownerReferences (meta r)) then r
          else r\<lparr>meta := (meta r)\<lparr>m_ownerReferences := m_ownerReferences (meta r) @ [newOwnerRef]\<rparr>\<rparr>)"

definition new_request_object :: "string \<Rightarrow> request \<Rightarrow> rr" where
  "new_request_object resolverName req =
     appendOwnerReference
       \<lparr> t_kind = ''ResolutionRequest'', t_apiVersion = ''resolution.tekton.dev/v1alpha1'',
         meta = empty_meta\<lparr>m_name := req_Name req, m_namespace := req_Namespace req,
                           m_labels := Some [(LabelKeyResolverType, resolverName)]\<rparr>,
         spec_params = req_Params req, rr_status = empty_status \<rparr> req"

definition createResolutionRequest :: "'w rr_client \<Rightarrow> 'w \<Rightarrow> string \<Rightarrow> request \<Rightarrow> 'w \<times> err option" where
  "createResolutionRequest cl w resolverName req =
     (let r = new_request_object resolverName req in
      case cl_create cl w (m_namespace (meta r)) r of
        (w', Inl e) \<Rightarrow> (w', Some e)
      | (w', Inr _) \<Rightarrow> (w', None))"

definition Submit :: "(nat \<Rightarrow> bool) \<Rightarrow> 'w rr_client \<Rightarrow> indexer \<Rightarrow> 'w \<Rightarrow> string \<Rightarrow> request \<Rightarrow> 'w \<times> rr res" where
  "Submit ip cl idx w resolverName req =
     (case lister_Get ip idx (req_Namespace req) (req_Name req) of
        Inl _ \<Rightarrow>
          (case createResolutionRequest cl w resolverName req of
             (w', Some e) \<Rightarrow> (w', Inl e)
           | (w', None) \<Rightarrow> (w', Inl ErrorRequestInProgress))
      | Inr r \<Rightarrow>
          if IsUnknown (status_condition (rr_status r)) then (w, Inl ErrorRequestInProgress)
          else if IsTrue (status_condition (rr_status r)) then (w, Inr r)
          else (w, Inl (NewError ReasonResolutionFailed (ErrorString (GetMessage (status_condition (rr_status r)))))))"

subsection \<open>Lemmas\<close>

lemma new_request_object_frame [simp]:
  "m_name (meta (new_request_object n req)) = req_Name req"
  "m_namespace (meta (new_request_object n req)) = req_Namespace req"
  "m_labels (meta (new_request_object n req)) = Some [(LabelKeyResolverType, n)]"
  "spec_params (new_request_object n req) = req_Params req"
  "rr_status (new_request_object n req) = empty_status"
  by (simp_all add: new_request_object_def appendOwnerReference_def empty_meta_def split: option.split)

lemma new_request_owner:
  "m_ownerReferences (meta (new_request_object n req)) =
     (case req_OwnerRef req of None \<Rightarrow> [] | Some ref \<Rightarrow> [ref])"
  by (simp add: new_request_object_def appendOwnerReference_def empty_meta_def split: option.split)

lemma new_request_valid: "n \<noteq> [] \<Longrightarrow> Validate (new_request_object n req) = None"
  by (simp add: Validate_cases getTypeLabel_eq go_index_def go_lookup_def)

lemma resource_Data_stored:
  "s_data (rr_status r) = b64_encode bytes \<Longrightarrow> resource_Data r = Inr bytes"
  by (simp add: resource_Data_def b64.dec_enc)

lemma Submit_cached:
  "lister_Get ip idx (req_Namespace req) (req_Name req) = Inr r \<Longrightarrow>
   Submit ip cl idx w resolverName req =
     (w, if IsUnknown (status_condition (rr_status r)) then Inl ErrorRequestInProgress
         else if IsTrue (status_condition (rr_status r)) then Inr r
         else Inl (NewError ReasonResolutionFailed (ErrorString (GetMessage (status_condition (rr_status r))))))"
  by (simp add: Submit_def)

context rr_api
begin

lemma Submit_creates:
  assumes "inv w" "is_err (lister_Get ip idx (req_Namespace req) (req_Name req))"
  shows "(\<exists>w' s. Submit ip cl idx w resolverName req = (w', Inl ErrorRequestInProgress) \<and>
      cl_get cl w' (req_Namespace req) (req_Name req) = Inr s \<and> spec_params s = req_Params req \<and>
      m_labels (meta s) = Some [(LabelKeyResolverType, resolverName)] \<and> rr_status s = empty_status) \<or>
    (\<exists>e. Submit ip cl idx w resolverName req = (w, Inl e))"
proof -
  let ?r = "new_request_object resolverName req"
  obtain w' x where c: "cl_create cl w (req_Namespace req) ?r = (w', x)" by fastforce
  show ?thesis
  proof (cases x)
    case (Inl e)
    with c have "w' = w" by (blast dest: create_err)
    with Inl c assms(2) show ?thesis
      by (auto simp: Submit_def createResolutionRequest_def Let_def is_err_def split: sum.splits)
  next
    case (Inr r')
    with create_ok [OF assms(1), of "req_Namespace req" ?r w' r'] c assms(2) show ?thesis
      by (auto simp: Submit_def createResolutionRequest_def Let_def is_err_def split: sum.splits)
  qed
qed

end

subsection \<open>Properties\<close>

text \<open>
  Submitting a request that is not in the cache: either the API server refuses it and nothing
  changes, or the server then holds a request with the parameters, the type label of the
  resolver and an empty status, which passes validation, and the caller is told that it is in
  progress.
\<close>

theorem Submit_new:
  assumes "rr_api cl api_inv" "api_inv w" "is_err (lister_Get ip idx (req_Namespace req) (req_Name req))"
    and "resolverName \<noteq> []"
  shows "(\<exists>w' s. Submit ip cl idx w resolverName req = (w', Inl ErrorRequestInProgress) \<and>
      cl_get cl w' (req_Namespace req) (req_Name req) = Inr s \<and> spec_params s = req_Params req \<and>
      getTypeLabel (m_labels (meta s)) = resolverName \<and> Validate s = None \<and> rr_status s = empty_status) \<or>
    (\<exists>e. Submit ip cl idx w resolverName req = (w, Inl e))"
proof -
  have "getTypeLabel (m_labels (meta s)) = resolverName \<and> Validate s = None"
    if "m_labels (meta s) = Some [(LabelKeyResolverType, resolverName)]" for s
    using that assms(4) by (simp add: Validate_cases getTypeLabel_eq go_index_def go_lookup_def)
  with rr_api.Submit_creates [OF assms(1-3), of resolverName] show ?thesis by blast
qed

theorem Submit_new_witness:
  "(\<exists>w' s. Submit (\<lambda>_. False) (fake_client (\<lambda>_. False)) [] [] ''git'' (NewRequest ''git-1'' ''ns'' None) =
        (w', Inl ErrorRequestInProgress) \<and>
      tracker_get (\<lambda>_. False) w' ''ns'' ''git-1'' = Inr s \<and> getTypeLabel (m_labels (meta s)) = ''git'') \<or>
    (\<exists>e. Submit (\<lambda>_. False) (fake_client (\<lambda>_. False)) [] [] ''git'' (NewRequest ''git-1'' ''ns'' None) = ([], Inl e))"
  using Submit_new [OF fake.rr_api_axioms, of "[]" "\<lambda>_. False" "[]" "NewRequest ''git-1'' ''ns'' None" "''git''" "\<lambda>_. False"]
  by (auto simp: tracker_wf_def lister_Get_def is_err_def NewRequest_def)

text \<open>
  Submitting again before the cache has caught up does not report progress: when the server
  already holds the request but the cache does not, \<^verbatim>\<open>Submit\<close> fails with the server's
  already-exists error and leaves the stored request alone.
\<close>

theorem Submit_stale_cache:
  assumes "is_err (lister_Get ip idx (req_Namespace req) (req_Name req))"
    and "tracker_get ip t (req_Namespace req) (req_Name req) = Inr r"
  shows "Submit ip (fake_client ip) idx t resolverName req =
    (t, Inl (NewAlreadyExists ip rr_resource (req_Name req)))"
proof -
  let ?r = "new_request_object resolverName req"
  have "m_namespace (meta (propagate_ns (req_Namespace req) ?r)) = req_Namespace req"
    by (simp add: propagate_ns_def)
  moreover have "map_of t (req_Namespace req, req_Name req) = Some r"
    using assms(2) by (simp add: tracker_get_def split: option.splits)
  ultimately have "tracker_add ip t ?r (req_Namespace req) False = Inl (NewAlreadyExists ip rr_resource (req_Name req))"
    by (simp add: tracker_add_def Let_def)
  with assms(1) show ?thesis
    by (auto simp: Submit_def createResolutionRequest_def Let_def fake_store_def is_err_def split: sum.splits)
qed

theorem Submit_stale_cache_witness:
  "Submit (\<lambda>_. False) (fake_client (\<lambda>_. False)) [] example_tracker ''git'' (NewRequest ''git-1'' ''ns'' None) =
     (example_tracker, Inl (NewAlreadyExists (\<lambda>_. False) rr_resource ''git-1''))"
  using Submit_stale_cache [of "\<lambda>_. False" "[]" "NewRequest ''git-1'' ''ns'' None" example_tracker example_request "''git''"]
    example_lookup(4) [of "\<lambda>_. False"]
  by (simp add: lister_Get_def is_err_def NewRequest_def)

text \<open>
  Reading the data of a resource is strict: text without line breaks is decoded to at most one
  byte string, and only when it is the canonical base64 text of those bytes; conversely, the
  canonical text of any bytes is decoded to them.
\<close>

theorem resource_Data_iff:
  assumes "list_all (\<lambda>ch. \<not> newline ch) (s_data (rr_status r))"
  shows "resource_Data r = Inr bytes \<longleftrightarrow> s_data (rr_status r) = b64_encode bytes"
proof
  assume "resource_Data r = Inr bytes"
  then have "b64_loop 0 [] (s_data (rr_status r)) = Inr bytes"
    by (simp add: resource_Data_def b64_decode_def split: sum.splits)
  from b64_loop_canonical [OF this _ assms] show "s_data (rr_status r) = b64_encode bytes"
    by (simp add: buf_ok_def)
qed (rule resource_Data_stored)

theorem resource_Data_iff_witness:
  "resource_Data example_done = Inr ''data'' \<longleftrightarrow> s_data (rr_status example_done) = b64_encode ''data''"
  by (rule resource_Data_iff) (simp add: example_done_def empty_status_def newline_def)

text \<open>
  Two requests can share one answer: when the cache holds a finished request under a generated
  name, submitting a different request whose parameters concatenate to the same text returns
  that other request's resource.
\<close>

theorem Submit_collision:
  assumes "lister_Get ip idx ns (GenerateDeterministicName prefix base (Some [(k @ x, v)])) = Inr r"
    and "IsTrue (status_condition (rr_status r))"
  shows "Submit ip cl idx w resolverName
      (NewRequest (GenerateDeterministicName prefix base (Some [(k, x @ v)])) ns (Some [(k, x @ v)])) = (w, Inr r)"
proof -
  have "GenerateDeterministicName prefix base (Some [(k, x @ v)]) = GenerateDeterministicName prefix base (Some [(k @ x, v)])"
    by (simp add: GenerateDeterministicName_eq name_input_def go_index_def go_lookup_def)
  with assms(1) have "lister_Get ip idx ns (GenerateDeterministicName prefix base (Some [(k, x @ v)])) = Inr r" by simp
  moreover have "\<not> IsUnknown (status_condition (rr_status r))" using assms(2) by (rule cond_exclusive(2))
  ultimately show ?thesis using assms(2) by (simp add: Submit_def NewRequest_def)
qed

theorem Submit_collision_witness:
  "\<exists>n idx. Submit (\<lambda>_. False) (fake_client (\<lambda>_. False)) idx [] ''git'' (NewRequest n ''ns'' (Some [(''a'', ''b'' @ ''c'')])) =
     ([], Inr example_done)"
proof -
  define n where "n = GenerateDeterministicName ''git'' [] (Some [(''a'' @ ''b'', ''c'')])"
  have "status_wf (empty_status\<lparr>s_observedGeneration := 1, s_data := ''ZGF0YQ==''\<rparr>)"
    by (simp add: status_wf_def empty_status_def go_wf_def)
  then have t: "IsTrue (status_condition (rr_status example_done))"
    by (simp add: example_done_def status_after_mark)
  have look: "lister_Get (\<lambda>_. False) [(''ns'' @ ''/'' @ n, example_done)] ''ns'' n = Inr example_done"
    by (simp add: lister_Get_def)
  show ?thesis
    using Submit_collision [OF look [unfolded n_def] t, of "fake_client (\<lambda>_. False)" "[]" "''git''"] by blast
qed

end
