(* ===== verification/System.thy ===== *)
theory System
  imports Git_Resolver Bundle_Resolver Template_Resolver Requester Controller
begin

section \<open>Components together\<close>

text \<open>
  Lemmas for the properties that span components: what a status patch leaves on the server, that the
  writes of the resolver framework go through on the fake clientset, and the controllers that the
  three binaries start.
\<close>

subsection \<open>The binaries\<close>

text \<open>\<^verbatim>\<open>cmd/gitresolver\<close>, \<^verbatim>\<open>cmd/bundleresolver\<close> (the framework around a resolver) and \<^verbatim>\<open>cmd/controller\<close> (the
  generated reconciler around the core one).\<close>

definition gitresolver_main :: "(nat \<Rightarrow> bool) \<Rightarrow> (int \<Rightarrow> int \<Rightarrow> int \<Rightarrow> int) \<Rightarrow> 'g git_ops \<Rightarrow> fw_controller res" where
  "gitresolver_main ip frac g = NewController ip Background (git_resolver ip frac g) []"

definition bundleresolver_main :: "(nat \<Rightarrow> bool) \<Rightarrow> ('ref, 'kc) bundle_ops \<Rightarrow> fw_controller res" where
  "bundleresolver_main ip b = NewController ip Background (bundle_resolver ip b) []"

definition controller_main :: "clock \<Rightarrow> (string \<Rightarrow> string \<Rightarrow> bool) \<Rightarrow> 'w controller_impl option" where
  "controller_main clk leader = NewImpl (core_reconciler clk leader) []"

text \<open>\<^verbatim>\<open>pkg/reconciler/resolutionrequest/controller.go\<close>: the informer's handler enqueues every added,
  updated or deleted request.\<close>

definition core_handler :: "rr \<Rightarrow> ctl \<Rightarrow> ctl" where
  "core_handler r c = EnqueueKey (m_namespace (meta r), m_name (meta r)) c"

definition fw_handler :: "fw_controller \<Rightarrow> rr option \<Rightarrow> ctl \<Rightarrow> ctl" where
  "fw_handler fc obj c =
     (if fc_filter fc obj then
        (case obj of Some r \<Rightarrow> EnqueueKey (m_namespace (meta r), m_name (meta r)) c | None \<Rightarrow> c)
      else c)"

text \<open>The core reconciler as a worker of the controller runs it: the recorded events go elsewhere.\<close>

definition core_worker ::
  "(nat \<Rightarrow> bool) \<Rightarrow> clock \<Rightarrow> time \<Rightarrow> 'w rr_client \<Rightarrow> indexer \<Rightarrow> 'w reconciler_impl \<Rightarrow> ctx \<Rightarrow> 'w \<Rightarrow> string \<Rightarrow> 'w \<times> err option" where
  "core_worker ip pre post cl idx r c w key = (case Reconcile ip pre post cl idx r c w key of (w', e, evs) \<Rightarrow> (w', e))"

subsection \<open>Patched requests\<close>

lemma merge_annotations_wf: "go_wf old \<Longrightarrow> go_wf (merge_annotations old new)"
  by (simp add: merge_annotations_def go_wf_def copy_range_distinct split: option.split)

lemma json_map_wf: "go_wf m \<Longrightarrow> go_wf (json_map m)"
  by (simp add: json_map_def)

lemma same_conditions_status:
  assumes "same_conditions (s_conditions a) (s_conditions b)"
  shows "IsUnknown (status_condition a) = IsUnknown (status_condition b)"
proof -
  let ?a = "a\<lparr>s_observedGeneration := 0, s_annotations := None, s_data := []\<rparr>"
  let ?b = "b\<lparr>s_observedGeneration := 0, s_annotations := None, s_data := []\<rparr>"
  have "status_equal ?a ?b" using assms by (simp add: status_equal_def same_conditions_def)
  from status_equal_condition(3) [OF this] show ?thesis by simp
qed

lemma conds_wf_json: "conds_wf (map (\<lambda>c. c\<lparr>c_ltt := json_time (c_ltt c)\<rparr>) cs) = conds_wf cs"
proof -
  have "c_type \<circ> (\<lambda>c :: condition. c\<lparr>c_ltt := json_time (c_ltt c)\<rparr>) = c_type" by (simp add: fun_eq_iff)
  then show ?thesis by (simp add: conds_wf_def)
qed

text \<open>Patching a stored request succeeds; what is stored is well-formed, is done exactly when it was
  before, and carries the patch's data.\<close>

lemma fake_patch_result:
  assumes "tracker_wf t" "tracker_get ip t ns n = Inr r" "rr_wf r"
  shows "\<exists>t' x. fake_patch_status ip t ns n p = (t', Inr x) \<and> tracker_wf t' \<and> tracker_get ip t' ns n = Inr x \<and>
    rr_wf x \<and> IsDone x = IsDone r \<and> s_data (rr_status x) = sp_data p \<and>
    m_namespace (meta x) = ns \<and> m_name (meta x) = n \<and>
    m_deletionTimestamp (meta x) = json_deletion (m_deletionTimestamp (meta r)) \<and>
    m_creationTimestamp (meta x) = json_time (m_creationTimestamp (meta r))"
proof -
  note names = tracker_get_wf [OF assms(1,2)]
  define x where "x = (json_rr r)\<lparr>rr_status := merge_status (rr_status (json_rr r)) p\<rparr>"
  have xn: "m_namespace (meta x) = ns" "m_name (meta x) = n" using names by (simp_all add: x_def)
  have "map_of t (ns, m_name (meta x)) \<noteq> None"
    using assms(2) xn by (auto simp: tracker_get_def split: option.splits)
  from tracker_add_replace [OF xn(1) this, of ip]
  obtain t' where t': "tracker_add ip t x ns True = Inr t'" by blast
  have own: "propagate_ns ns x = x" by (cases "ns = []") (simp_all add: propagate_ns_def xn)
  have get: "tracker_get ip t' ns n = Inr x" using tracker_get_add [OF t'] xn own by simp
  have run: "fake_patch_status ip t ns n p = (t', Inr x)"
    using assms(2) t' by (simp add: fake_patch_status_def Let_def x_def)
  have "same_conditions (s_conditions (rr_status x)) (s_conditions (rr_status r))"
    using same_conditions_json [of r] by (simp add: x_def merge_status_def)
  then have "IsDone x = IsDone r" by (simp add: IsDone_def same_conditions_status)
  moreover have "rr_wf x"
    using assms(3)
    by (simp add: x_def rr_wf_def status_wf_def merge_status_def json_rr_def merge_annotations_wf json_map_wf conds_wf_json)
  moreover have "s_data (rr_status x) = sp_data p" by (simp add: x_def merge_status_def)
  moreover have "m_deletionTimestamp (meta x) = json_deletion (m_deletionTimestamp (meta r))"
    "m_creationTimestamp (meta x) = json_time (m_creationTimestamp (meta r))"
    by (simp_all add: x_def json_rr_def)
  ultimately show ?thesis using run get xn tracker_add_wf [OF assms(1) t'] by blast
qed

lemma writeResolvedData_fake:
  assumes "tracker_wf t" "tracker_get ip t (m_namespace (meta q)) (m_name (meta q)) = Inr r" "rr_wf r"
  shows "\<exists>t' x. writeResolvedData ip clk (fake_client ip) t q res = (t', None) \<and> tracker_wf t' \<and>
    tracker_get ip t' (m_namespace (meta q)) (m_name (meta q)) = Inr x \<and> rr_wf x \<and> IsDone x = IsDone r \<and>
    s_data (rr_status x) = b64_encode (res_Data res) \<and>
    m_namespace (meta x) = m_namespace (meta q) \<and> m_name (meta x) = m_name (meta q) \<and>
    m_deletionTimestamp (meta x) = json_deletion (m_deletionTimestamp (meta r)) \<and>
    m_creationTimestamp (meta x) = json_time (m_creationTimestamp (meta r))"
proof -
  obtain p where p: "marshal_patch \<lparr> sp_annotations = res_Annotations res, sp_data = b64_encode (res_Data res) \<rparr> = Inr p"
    "sp_data p = b64_encode (res_Data res)" using marshal_patch_data by blast
  from fake_patch_result [OF assms, of p] p show ?thesis
    by (auto simp: writeResolvedData_def Let_def)
qed

lemma fw_MarkFailed_fake:
  assumes "tracker_wf t" "tracker_get ip t (m_namespace (meta q)) (m_name (meta q)) = Inr x"
  shows "snd (fw_MarkFailed ip clk (fake_client ip) t q e) = None"
proof -
  note names = tracker_get_wf [OF assms]
  obtain reason e' where re: "ReasonError e = (reason, e')" by fastforce
  let ?x = "x\<lparr>rr_status := MarkFailed clk (rr_status x) reason (err_message ip e')\<rparr>"
  have "map_of t (m_namespace (meta q), m_name (meta ?x)) \<noteq> None"
    using assms(2) names by (auto simp: tracker_get_def split: option.splits)
  from tracker_add_replace [OF _ this, of ip] names
  obtain t' where "tracker_add ip t ?x (m_namespace (meta q)) True = Inr t'" by auto
  then show ?thesis
    using assms(2) by (simp add: fw_MarkFailed_def re fake_store_def tracker_get_add)
qed

lemma split_request_key:
  assumes "CHR ''/'' \<notin> set ns" "CHR ''/'' \<notin> set n"
  shows "SplitMetaNamespaceKey ip (ns @ ''/'' @ n) = Inr (ns, n)"
  using split_key_pair [OF assms] .

text \<open>One run of the core controller on a request that carries data marks it succeeded on the server.\<close>

lemma Submit_fake_new:
  assumes "tracker_wf t" "map_of t (req_Namespace req, req_Name req) = None" "go_wf (req_Params req)"
    and "is_err (lister_Get ip idx (req_Namespace req) (req_Name req))"
  shows "\<exists>t' r. Submit ip (fake_client ip) idx t resolverName req = (t', Inl ErrorRequestInProgress) \<and> tracker_wf t' \<and>
    tracker_get ip t' (req_Namespace req) (req_Name req) = Inr r \<and> rr_wf r \<and> \<not> IsDone r \<and> spec_params r = req_Params req \<and>
    m_deletionTimestamp (meta r) = None"
proof -
  let ?r = "new_request_object resolverName req"
  let ?t = "AList.update (req_Namespace req, req_Name req) ?r t"
  have own: "propagate_ns (req_Namespace req) ?r = ?r" by (cases "req_Namespace req = []") (simp_all add: propagate_ns_def)
  have add: "tracker_add ip t ?r (req_Namespace req) False = Inr ?t" using assms(2) by (simp add: tracker_add_def own Let_def)
  have get: "tracker_get ip ?t (req_Namespace req) (req_Name req) = Inr ?r" by (simp add: tracker_get_def update_conv)
  have "Submit ip (fake_client ip) idx t resolverName req = (?t, Inl ErrorRequestInProgress)"
    using assms(4) by (auto simp: Submit_def createResolutionRequest_def fake_store_def add get is_err_def split: sum.splits)
  moreover have "rr_wf ?r"
    using assms(3) by (simp add: rr_wf_def status_wf_def empty_status_def conds_wf_def go_wf_def)
  moreover have "\<not> IsDone ?r" by (simp add: IsDone_def empty_status_def status_condition_def GetCondition_def IsUnknown_def)
  moreover have "m_deletionTimestamp (meta ?r) = None"
    by (simp add: new_request_object_def appendOwnerReference_def empty_meta_def split: option.split)
  ultimately show ?thesis using tracker_add_wf [OF assms(1) add] get by auto
qed

lemma core_succeeds_fake:
  assumes "tracker_wf t" "tracker_get ip t ns n = Inr x" "rr_wf x" "\<not> IsDone x" "s_data (rr_status x) \<noteq> []"
    and "m_deletionTimestamp (meta x) = None" "SplitMetaNamespaceKey ip key = Inr (ns, n)" "leader ns n"
    and "lister_Get ip idx ns n = Inr x"
  shows "\<exists>t' s. Reconcile ip pre post (fake_client ip) idx (core_impl clk leader) c t key = (t', None, []) \<and>
    tracker_get ip t' ns n = Inr s \<and> IsTrue (condition_of s) \<and> s_data (rr_status s) = s_data (rr_status x)"
proof -
  note names = tracker_get_wf [OF assms(1,2)]
  have stored: "map_of t (m_namespace (meta x), m_name (meta x)) \<noteq> None"
    using assms(2) names by (auto simp: tracker_get_def split: option.splits)
  obtain t' e where run: "Reconcile ip pre post (fake_client ip) idx (core_impl clk leader) c t key = (t', e, [])"
    using core_Reconcile_fake [where leader = leader, OF assms(7,8,9,6,1) stored] by blast
  have unsettled: "\<not> (IsDone x \<and> s_observedGeneration (rr_status x) = m_generation (meta x))" using assms(4) by simp
  from core_outcome [where leader = leader, OF fake.rr_api_axioms assms(1,3,7,8,9) names assms(6) unsettled run] assms(5)
  obtain s where s: "tracker_get ip t' ns n = Inr s \<or> t' = t \<and> s = x" "s_data (rr_status s) = s_data (rr_status x)"
    "IsTrue (condition_of s)" "e = None" by auto
  have "\<not> IsTrue (condition_of x)" using assms(4) by (auto simp: IsDone_def condition_of_def dest: cond_exclusive)
  with s run show ?thesis by blast
qed

text \<open>What one run leaves of an open request \<open>r\<close>: the request \<open>s\<close> and the error \<open>e\<close>.\<close>

definition core_result :: "clock \<Rightarrow> rr \<Rightarrow> rr \<Rightarrow> err option \<Rightarrow> bool" where
  "core_result clk r s e =
     (if s_data (rr_status r) \<noteq> [] \<or> clk 1 - m_creationTimestamp (meta r) > minute then IsDone s \<and> e = None
      else \<not> IsDone s \<and> e = Some (RequeueKeyError (dur_sub minute (time_sub (clk 3) (m_creationTimestamp (meta r))))))"

lemma core_worker_fake:
  assumes "tracker_wf t" "tracker_get ip t ns n = Inr r" "lister_Get ip idx ns n = Inr r" "rr_wf r" "\<not> IsDone r"
    and "m_deletionTimestamp (meta r) = None" "ns \<noteq> []" "CHR ''/'' \<notin> set ns" "CHR ''/'' \<notin> set n" "leader ns n"
  shows "\<exists>t' e s. core_worker ip pre post (fake_client ip) idx (core_impl clk leader) c t (safeKey (ns, n)) = (t', e) \<and>
    tracker_get ip t' ns n = Inr s \<and> core_result clk r s e"
proof -
  note names = tracker_get_wf [OF assms(1,2)]
  have stored: "map_of t (m_namespace (meta r), m_name (meta r)) \<noteq> None"
    using assms(2) names by (auto simp: tracker_get_def split: option.splits)
  note key = split_request_key [OF assms(8,9), of ip]
  obtain t' e where run: "Reconcile ip pre post (fake_client ip) idx (core_impl clk leader) c t (ns @ ''/'' @ n) = (t', e, [])"
    using core_Reconcile_fake [where leader = leader, OF key assms(10,3,6,1) stored] by blast
  then have work: "core_worker ip pre post (fake_client ip) idx (core_impl clk leader) c t (safeKey (ns, n)) = (t', e)"
    using assms(7) by (simp add: core_worker_def safeKey_def)
  have unsettled: "\<not> (IsDone r \<and> s_observedGeneration (rr_status r) = m_generation (meta r))" using assms(5) by simp
  from core_outcome [where leader = leader, OF fake.rr_api_axioms assms(1,4) key assms(10,3) names assms(6) unsettled run]
  obtain s where s: "tracker_get ip t' ns n = Inr s" and out:
    "if s_data (rr_status r) \<noteq> [] then IsTrue (condition_of s) \<and> e = None
      else if clk 1 - m_creationTimestamp (meta r) > minute then IsFalse (condition_of s) \<and> e = None
      else IsUnknown (condition_of s) \<and>
        e = Some (RequeueKeyError (dur_sub minute (time_sub (clk 3) (m_creationTimestamp (meta r)))))"
    using assms(2) by (fastforce split: if_splits)
  have "core_result clk r s e"
    using out by (auto simp: core_result_def IsDone_def condition_of_def dest: cond_exclusive split: if_splits)
  with work s show ?thesis by blast
qed

text \<open>A cache that has seen the state of one key.\<close>

definition synced :: "tracker \<Rightarrow> string \<Rightarrow> string \<Rightarrow> indexer" where
  "synced t ns n = (case map_of t (ns, n) of None \<Rightarrow> [] | Some r \<Rightarrow> [(ns @ ''/'' @ n, r)])"

lemma synced_get: "tracker_get ip t ns n = Inr x \<Longrightarrow> lister_Get ip (synced t ns n) ns n = Inr x"
  by (auto simp: synced_def lister_Get_def tracker_get_def split: option.splits if_splits)

lemma json_time_le: "json_time t \<le> t"
  by (simp add: json_time_def second_def)

subsection \<open>Examples\<close>

text \<open>A controller that has the key of the example request to process.\<close>

definition example_ctl :: ctl where
  "example_ctl = demo_ctl\<lparr>ctl_queue := (ctl_queue demo_ctl)\<lparr>tl_consumer := wq_Add (''ns'', ''git-1'') newQueue\<rparr>\<rparr>"

text \<open>A request for the bundle resolver.\<close>

definition example_bundle_request :: rr where
  "example_bundle_request =
     (let r = example_request\<lparr>spec_params := Some [(''bundle'', ''registry/b''), (''name'', ''n''), (''kind'', ''task'')]\<rparr>
      in r\<lparr>meta := (meta r)\<lparr>m_labels := Some [(LabelKeyResolverType, ''bundles'')]\<rparr>\<rparr>)"

lemma example_bundle_facts:
  "rr_wf example_bundle_request" "\<not> IsDone example_bundle_request"
  "m_namespace (meta example_bundle_request) = ''ns''" "m_name (meta example_bundle_request) = ''git-1''"
  "go_lookup (m_labels (meta example_bundle_request)) LabelKeyResolverType = Some ''bundles''"
  "go_index (spec_params example_bundle_request) ''url'' = []"
  using example_request_wf example_fresh(1)
  by (simp_all add: example_bundle_request_def rr_wf_def go_wf_def IsDone_def Let_def go_lookup_def go_index_def)

end
