(* ===== verification/Spec2Isabelle.thy ===== *)
theory Spec2Isabelle
  imports Webhook Deep_Copy Injection Dynamic_Lister Run_Context Lane_Refinement System
begin

text \<open>
  Tekton Resolution: a verification library for the controllers of the repository.

  \<^bold>\<open>The program.\<close> A client that needs a remote resource submits a \<^verbatim>\<open>ResolutionRequest\<close> object to a
  Kubernetes cluster (\<^verbatim>\<open>pkg/resource\<close>). Its label \<^verbatim>\<open>resolution.tekton.dev/type\<close> names a resolver. Every
  resolver (\<^verbatim>\<open>gitresolver\<close>, \<^verbatim>\<open>bundleresolver\<close>) is a controller made by \<^verbatim>\<open>pkg/resolver/framework\<close>: it takes
  the requests of its type from an informer, validates the parameters, resolves them in a goroutine
  under a deadline, and patches base64 data into the status, or marks the request failed. The core
  controller (\<^verbatim>\<open>pkg/reconciler/resolutionrequest\<close> inside the generated reconciler under
  \<^verbatim>\<open>pkg/client/injection/reconciler\<close>) watches all requests: it initialises conditions, marks a request
  that carries data succeeded, fails one that is older than a minute, and requeues the rest. The
  client submits again and reads the decoded data. The controllers share nothing but the API server
  and their caches of it. They read their caches through informers and write through a generated
  clientset, both found in a context into which \<^verbatim>\<open>pkg/client/injection\<close> puts them. The admission webhook
  (\<^verbatim>\<open>cmd/webhook\<close>) defaults and validates every request before the server stores it.

  \<^bold>\<open>Theories.\<close>

  \<^item> \<^verbatim>\<open>Prelude\<close>: Go maps (association lists, with nil), \<^verbatim>\<open>int64\<close> wrap-around, results as sums with the
    error on the left, the collections of simplification rules.
  \<^item> \<^verbatim>\<open>Go_Strings\<close>, \<^verbatim>\<open>Go_Time\<close>, \<^verbatim>\<open>Go_Calendar\<close>, \<^verbatim>\<open>Base64\<close>: what the sources use of the standard library: splitting and
    joining, decimal numbers, UTF-8, \<^verbatim>\<open>%q\<close>, \<^verbatim>\<open>Sprintf\<close> of a format without arguments; durations, times,
    their printing and parsing; the calendar and the text of times in RFC 3339 with its round trip for
    the years 1 to 9999; strict standard base64 with its round trip.
  \<^item> \<^verbatim>\<open>Common\<close>: \<^verbatim>\<open>pkg/common\<close>: errors with their texts and chains, reasons, the request context.
  \<^item> \<^verbatim>\<open>Conditions\<close>, \<^verbatim>\<open>Field_Error\<close>: the condition manager and the field errors of knative that the API
    type calls. \<^verbatim>\<open>V1alpha1\<close>: \<^verbatim>\<open>pkg/apis/resolution/v1alpha1\<close>, the object as the record \<open>rr\<close>, its
    lifecycle, defaulting and validation, and the invariant \<open>rr_wf\<close>.
  \<^item> \<^verbatim>\<open>Names\<close>: \<^verbatim>\<open>pkg/resource/name.go\<close> on 128-bit words.
  \<^item> \<^verbatim>\<open>Label_Selectors\<close>: label selectors with their lexer, parser, printer and validation, and the syntax of
    field selectors.
  \<^item> \<^verbatim>\<open>Api\<close>: keys, API errors, the generated lister, the client as the record \<open>rr_client\<close>, its contract
    as the locale \<open>rr_api\<close>, and the generated fake clientset, which interprets it. The state of the
    server is a type variable, so that theorems over \<open>rr_api\<close> hold for every server that keeps the
    laws: what a successful write leaves, and that names do not change.
  \<^item> \<^verbatim>\<open>Core_Reconciler\<close>: \<^verbatim>\<open>ReconcileKind\<close>. \<^verbatim>\<open>Gen_Reconciler\<close>: the generated reconciler with finalizers,
    status writes and their retries, events, options and the event recorder, and the core controller
    inside it.
  \<^item> \<^verbatim>\<open>Config_Store\<close>, \<^verbatim>\<open>Framework\<close>: the configuration of a resolver, and the resolver framework. The
    goroutine and the \<^verbatim>\<open>select\<close> of \<^verbatim>\<open>resolve\<close> are the step relation \<open>resolve_step\<close>; the rest of
    \<^verbatim>\<open>Reconcile\<close> is a function of the outcome. The locale \<open>resolver_contract\<close> is what the framework
    relies on of a resolver.
  \<^item> \<^verbatim>\<open>Git_Resolver\<close>, \<^verbatim>\<open>Bundle_Resolver\<close>, \<^verbatim>\<open>Template_Resolver\<close>: the two resolvers and the one of
    \<^verbatim>\<open>docs/resolver-template\<close>, which interpret that locale.
  \<^item> \<^verbatim>\<open>Requester\<close>: \<^verbatim>\<open>pkg/resource\<close>, the client's side.
  \<^item> \<^verbatim>\<open>Work_Queue\<close>, \<^verbatim>\<open>Controller\<close>: the two-lane work queue with its goroutines as the step relation
    \<open>tl_step\<close>, the rate limiter, one round of a worker, leadership. \<^verbatim>\<open>Wait_Heap\<close>, \<^verbatim>\<open>Delaying_Queue\<close>: the heap of
    delayed items on a store of entries (the locale \<open>deadline_queue\<close> is what its loop relies on) and the waiting
    loop with its callers and timer as the step relation \<open>dq_own\<close>; \<^verbatim>\<open>Lane_Refinement\<close>: the two-lane queue with this
    delaying queue refines the one of \<open>Work_Queue\<close>, which has a list of delayed items. \<^verbatim>\<open>Run_Context\<close>: the run of a
    controller from the start of its workers to the end of its shutdown, as the step relation \<open>run_step\<close>.
  \<^item> \<^verbatim>\<open>Json\<close>, \<^verbatim>\<open>Json_Codec\<close>, \<^verbatim>\<open>Json_Patch\<close>: JSON values, the encoding of a ResolutionRequest by its field
    tags and its decoding with unknown members allowed or not, JSON merge patches; the patches of
    \<open>Api\<close> are shown to be those on documents.
  \<^item> \<^verbatim>\<open>Registration\<close>: group, version, kinds and the schemes (\<^verbatim>\<open>register.go\<close> of the API and of the clientsets).
    \<^verbatim>\<open>Webhook\<close>: \<^verbatim>\<open>cmd/webhook/main.go\<close> over knative's admission controllers.
  \<^item> \<^verbatim>\<open>Rest\<close>, \<^verbatim>\<open>Clientset\<close>: client-go's request builder, and the generated typed client and clientset as the
    HTTP requests they send. \<^verbatim>\<open>Dynamic_Client\<close>: the client over a dynamic client
    (\<^verbatim>\<open>injection/client/client.go\<close>). \<^verbatim>\<open>Fake_Clientset\<close>: the fake clientset with watchers.
  \<^item> \<^verbatim>\<open>Deep_Copy\<close>: \<^verbatim>\<open>zz_generated.deepcopy.go\<close> on a store with addresses; the locale \<open>deep_copy\<close> is what a copy
    promises, and every copying method interprets it.
  \<^item> \<^verbatim>\<open>Informers\<close>, \<^verbatim>\<open>Injection\<close>: the informer factory, the injection of clients, factories and informers, and
    the registries that the \<^verbatim>\<open>init\<close> functions of \<^verbatim>\<open>pkg/client/injection\<close> fill. \<^verbatim>\<open>Dynamic_Lister\<close>: the listers over a
    dynamic client; the locale \<open>label_client\<close> is what they rely on of a client, and the fake clientset keeps it.
  \<^item> \<^verbatim>\<open>System\<close>: the binaries and the lemmas on components together; this theory: the properties that
    span them.

  \<^bold>\<open>How the code is represented.\<close> A Go struct is a record, an interface a record of functions with the
  optional interfaces as optional fields, an error a value of \<open>err\<close>; a function that returns a value
  and an error returns \<open>err + 'a\<close>. The API server is explicit state passed through the calls. The
  informer's cache is an argument, independent of the server, so that every theorem that does not
  say otherwise allows a stale cache. Every reading of the wall clock is a value of its own: the
  argument \<open>clk\<close> maps the number of the reading to a time in nanoseconds. Times are integers;
  durations are \<^verbatim>\<open>int64\<close> with the saturation of \<^verbatim>\<open>Time.Sub\<close> and the wrap-around of subtraction written
  out. Panics are the value \<open>None\<close>. Messages are reproduced to the letter; the classification of
  printable characters beyond ASCII (\<^verbatim>\<open>strconv.IsPrint\<close>) is the argument \<open>ip\<close>, and the floating-point
  product of \<^verbatim>\<open>time.ParseDuration\<close> the argument \<open>frac\<close>.

  \<^bold>\<open>What is a parameter.\<close> The repository operations of go-git (\<open>git_ops\<close>), the registry client, keychain
  and tar reader (\<open>bundle_ops\<close>, \<open>layer_stream\<close>), the delay of the token bucket, the API server (as
  laws, or as a function on HTTP requests), the text of a type mismatch in JSON (\<open>codec\<close>), the scheduler's choice among the outcomes of \<^verbatim>\<open>select\<close>.

  \<^bold>\<open>What the properties show.\<close> End to end: a submitted request comes back with the resolver's data
  unchanged, and an open request is marked or comes back in time. For the core controller: all of \<^verbatim>\<open>ReconcileKind\<close>, that it stops requeueing, what one run leaves on any
  lawful server, that a settled request is never written, and when a write happens at all. For the
  framework: which outcomes \<^verbatim>\<open>select\<close> can produce over all interleavings, that failures are recorded
  and never retried, that successes are stored. For the resolvers: which parameters are accepted
  with which errors, which file or layer is returned. For the queue: a delayed key is added when it is due and
  is not lost, the real delaying queue does what the two-lane queue takes it to do, so that a key is
  never with two workers at once; a controller that shuts down gives every key that is on its way to the reconciler and
  then returns, after a bounded number of steps. For the
  clients and caches: the typed client and the one over a dynamic client agree, a watcher is told of
  every change, an informer is shared and run once, a linked controller finds its client and its
  informer in the context, copies share nothing, requests survive JSON and selectors their text, a
  filtered lister over a dynamic client selects by both its selectors. For the webhook: which
  documents it lets through, and that what the requester submits is among them. The last group makes
  precise where the code does something its authors may not expect: empty resources, requests of
  another type after a promotion, an early failure that is reset, status data lost in a retry, a
  commits that are not hexadecimal, filtered factories that share one selector; lemmas show the same
  for a goroutine that never ends, colliding names, patches that lose their subresource, the deletion
  of collections by the fake client, the selector that matches nothing and reviews without an object.

  \<^bold>\<open>Bounds.\<close> The only fuel is the number of retries of \<^verbatim>\<open>DefaultRetry\<close>, five, which is the code's own
  bound; every other loop is structural or has a termination proof.

  \<^bold>\<open>Not modelled.\<close> The HTTP transport with its retries, throttling and TLS (a server is a function of its
  state and the request), the text of JSON documents, the JSON differ and the ConfigMap
  constructors behind the webhook, its certificates, what a running informer does between listing and the index, patch types other than merge patches, how event recorders aggregate
  events, leader election itself, draining a queue on shutdown (which the program does not ask for),
  logging and metrics, Go panics other than the ones above.
\<close>

section \<open>Properties of the system\<close>

text \<open>
  A resource travels unchanged from the resolver to the requester. When a resolver's resource
  with non-empty data is written for an open request, one run of the core controller with a cache
  that has seen the write marks the request succeeded, and then submitting the request again,
  with a cache that has seen that, returns a resource whose data is byte for byte the resolver's.
\<close>

lemma stored_resource_returned:
  assumes "tracker_wf t" "tracker_get ip t ns n = Inr r" "rr_wf r" "\<not> IsDone r"
    and "m_deletionTimestamp (meta r) = None" "CHR ''/'' \<notin> set ns" "CHR ''/'' \<notin> set n" "leader ns n"
    and "res_Data res \<noteq> []" "req_Namespace req = ns" "req_Name req = n"
    and "\<And>t1 x. tracker_get ip t1 ns n = Inr x \<Longrightarrow> lister_Get ip (cache1 t1) ns n = Inr x"
    and "\<And>t2 x. tracker_get ip t2 ns n = Inr x \<Longrightarrow> lister_Get ip (cache2 t2) ns n = Inr x"
  shows "\<exists>t1 t2 x. writeResolvedData ip clk1 (fake_client ip) t r res = (t1, None) \<and>
     Reconcile ip pre post (fake_client ip) (cache1 t1) (core_impl clk leader) c t1 (ns @ ''/'' @ n) = (t2, None, []) \<and>
     Submit ip (fake_client ip) (cache2 t2) t2 resolverName req = (t2, Inr x) \<and> resource_Data x = Inr (res_Data res)"
proof -
  note names = tracker_get_wf [OF assms(1,2)]
  obtain t1 x1 where w: "writeResolvedData ip clk1 (fake_client ip) t r res = (t1, None)"
    and x1: "tracker_wf t1" "tracker_get ip t1 ns n = Inr x1" "rr_wf x1" "\<not> IsDone x1"
      "s_data (rr_status x1) = b64_encode (res_Data res)" "m_deletionTimestamp (meta x1) = None"
    using writeResolvedData_fake [of t ip r r clk1 res] assms(1-5) names by auto
  have data: "s_data (rr_status x1) \<noteq> []" using x1(5) assms(9) by simp
  have look1: "lister_Get ip (cache1 t1) ns n = Inr x1" using assms(12) [OF x1(2)] .
  obtain t2 s where run: "Reconcile ip pre post (fake_client ip) (cache1 t1) (core_impl clk leader) c t1 (ns @ ''/'' @ n) = (t2, None, [])"
    and s: "tracker_get ip t2 ns n = Inr s" "IsTrue (condition_of s)" "s_data (rr_status s) = b64_encode (res_Data res)"
    using core_succeeds_fake [where leader = leader and pre = pre and post = post and clk = clk and c = c,
        OF x1(1-4) data x1(6) split_request_key [OF assms(6,7)] assms(8) look1]
    unfolding x1(5) by blast
  have look2: "lister_Get ip (cache2 t2) (req_Namespace req) (req_Name req) = Inr s"
    using assms(13) [OF s(1)] by (simp add: assms(10,11))
  have "\<not> IsUnknown (status_condition (rr_status s))" using s(2) cond_exclusive(2) by (auto simp: condition_of_def)
  with s(2) Submit_cached [OF look2, of "fake_client ip" t2 resolverName]
  have "Submit ip (fake_client ip) (cache2 t2) t2 resolverName req = (t2, Inr s)"
    by (simp add: condition_of_def)
  with w run resource_Data_stored [OF s(3)] show ?thesis by blast
qed



text \<open>
  C7. One round of a worker of the core controller on an open request that the cache shows as the
  server holds it. When the request has data or is older than a minute, it is done on the server
  afterwards and its key is not queued again; otherwise it stays open and its key comes back:
  it waits for a delay that ends no earlier than one minute after the request's creation, or is
  queued at once when that moment has passed. So no open request is ever forgotten.
\<close>

theorem core_worker_round:
  assumes "tracker_wf t" "tracker_get ip t ns n = Inr r" "lister_Get ip idx ns n = Inr r" "rr_wf r" "\<not> IsDone r"
    and "m_deletionTimestamp (meta r) = None" "m_creationTimestamp (meta r) \<le> clk 3"
    and "ns \<noteq> []" "CHR ''/'' \<notin> set ns" "CHR ''/'' \<notin> set n" "leader ns n"
    and "tl_reach (ctl_queue q)" "wq_Get (tl_consumer (ctl_queue q)) = Some (Some (ns, n), q0)"
    and "\<not> ShuttingDown q"
  shows "\<exists>t' q' s. processNextWorkItem bucket (core_worker ip pre post (fake_client ip) idx (core_impl clk leader) c) t q =
       Some (True, t', q') \<and> tl_reach (ctl_queue q') \<and> tracker_get ip t' ns n = Inr s \<and>
     (if s_data (rr_status r) \<noteq> [] \<or> clk 1 - m_creationTimestamp (meta r) > minute
      then IsDone s \<and> tl_waiting (ctl_queue q') = tl_waiting (ctl_queue q) \<and> tl_fast (ctl_queue q') = tl_fast (ctl_queue q)
      else \<not> IsDone s \<and> (\<exists>d. clk 3 + d \<ge> m_creationTimestamp (meta r) + minute \<and>
        (if d \<le> 0 then (ns, n) \<in> wq_dirty (tl_fast (ctl_queue q'))
         else tl_waiting (ctl_queue q') = tl_waiting (ctl_queue q) @ [((ns, n), d)])))"
proof -
  obtain t' e s where work: "core_worker ip pre post (fake_client ip) idx (core_impl clk leader) c t (safeKey (ns, n)) = (t', e)"
    and s: "tracker_get ip t' ns n = Inr s" and out: "core_result clk r s e"
    using core_worker_fake [where leader = leader, OF assms(1-6,8-11)] by blast
  have inv: "wq_inv (tl_consumer (ctl_queue q))" using tl_reach_inv [OF assms(12)] by (simp add: tl_inv_def)
  note reach = process_reach [where reconcile = "core_worker ip pre post (fake_client ip) idx (core_impl clk leader) c", OF assms(12)]
  show ?thesis
  proof (cases "s_data (rr_status r) \<noteq> [] \<or> clk 1 - m_creationTimestamp (meta r) > minute")
    case True
    with out have "e = None" "IsDone s" by (auto simp: core_result_def)
    with process_forgets [where reconcile = "core_worker ip pre post (fake_client ip) idx (core_impl clk leader) c",
        OF inv assms(13) work, of bucket] s True reach show ?thesis by auto
  next
    case False
    let ?d = "dur_sub minute (time_sub (clk 3) (m_creationTimestamp (meta r)))"
    from False out have d: "e = Some (RequeueKeyError ?d)"
      and u: "\<not> IsDone s" by (auto simp: core_result_def)
    from process_requeues [where reconcile = "core_worker ip pre post (fake_client ip) idx (core_impl clk leader) c",
        OF assms(13) work [unfolded d] requeue_error assms(14), of bucket]
    obtain q' where run: "processNextWorkItem bucket (core_worker ip pre post (fake_client ip) idx (core_impl clk leader) c) t q =
        Some (True, t', q')" and "if ?d \<le> 0 then (ns, n) \<in> wq_dirty (tl_fast (ctl_queue q'))
         else tl_waiting (ctl_queue q') = tl_waiting (ctl_queue q) @ [((ns, n), ?d)]" by blast
    with delay_reaches_timeout [OF assms(7)] s u False reach [OF run] show ?thesis
      by (intro exI [of _ t'] exI [of _ q'] exI [of _ s] conjI) (simp_all only: if_False if_True, blast)
  qed
qed

theorem core_worker_round_witness:
  "\<exists>t' q' s. processNextWorkItem 1 (core_worker (\<lambda>_. False) (\<lambda>_. 0) 0 (fake_client (\<lambda>_. False)) example_cache
        (core_impl (\<lambda>_. 20 * second) (\<lambda>_ _. True)) Background) example_tracker example_ctl = Some (True, t', q') \<and>
     tracker_get (\<lambda>_. False) t' ''ns'' ''git-1'' = Inr s \<and> \<not> IsDone s"
proof -
  let ?ip = "\<lambda>_::nat. False" and ?q = "example_ctl"
  obtain q0 where g: "wq_Get (tl_consumer (ctl_queue ?q)) = Some (Some (''ns'', ''git-1''), q0)"
    by (simp add: example_ctl_def wq_Get_def wq_Add_def newQueue_def Let_def)
  have i: "tl_reach (ctl_queue ?q)" using tl_reach_one [of "(''ns'', ''git-1'')"] by (simp add: example_ctl_def demo_ctl_def)
  have sd: "\<not> ShuttingDown ?q"
    by (simp add: ShuttingDown_def example_ctl_def demo_ctl_def newTwoLaneWorkQueue_def newQueue_def)
  show ?thesis
    using core_worker_round [where leader = "\<lambda>_ _. True" and clk = "\<lambda>_. 20 * second" and bucket = 1 and pre = "\<lambda>_. 0"
        and post = 0 and c = Background, OF example_lookup(5,4,2) example_request_wf example_fresh(1) example_meta(3) _ _ _ _ _ i g sd]
    by (simp add: example_fresh second_def minute_def) blast
qed

text \<open>
  The two resolver binaries start, and their informers deliver to each exactly the requests
  with its own type label; the git resolver follows the ConfigMap \<^verbatim>\<open>git-resolver-config\<close>, the bundle
  resolver has no configuration.
\<close>

theorem resolvers_start:
  "\<exists>gc bc. gitresolver_main ip frac g = Inr gc \<and> bundleresolver_main ip b = Inr bc \<and>
     {r. fc_filter gc (Some r)} = {r. go_lookup (m_labels (meta r)) LabelKeyResolverType = Some ''git''} \<and>
     {r. fc_filter bc (Some r)} = {r. go_lookup (m_labels (meta r)) LabelKeyResolverType = Some ''bundles''} \<and>
     fw_configStore (fc_reconciler gc) = Some (NewConfigStore ''git-resolver-config'') \<and>
     fw_configStore (fc_reconciler bc) = None \<and>
     fc_workQueueName gc = ''TektonResolverFramework.Git'' \<and>
     fc_workQueueName bc = ''TektonResolverFramework.bundleresolver''"
proof -
  obtain gc where g: "gitresolver_main ip frac g = Inr gc"
    "{r. fc_filter gc (Some r)} = {r. go_lookup (m_labels (meta r)) LabelKeyResolverType = Some LabelValueGitResolverType}"
    using git.controller [of ip Background ip frac g] unfolding gitresolver_main_def by blast
  obtain bc where b: "bundleresolver_main ip b = Inr bc"
    "{r. fc_filter bc (Some r)} = {r. go_lookup (m_labels (meta r)) LabelKeyResolverType = Some ''bundles''}"
    using bdl.controller [of ip Background ip b] unfolding bundleresolver_main_def by blast
  note run = NewController_def validateResolver_def go_index_def go_lookup_def watchConfigChanges_def applyModifiersAndDefaults_def Let_def
    git_resolver_def bundle_resolver_def git_GetConfigName_def GitResolverName_def LabelValueGitResolverType_def
  have "fw_configStore (fc_reconciler gc) = Some (NewConfigStore ''git-resolver-config'')"
    "fc_workQueueName gc = ''TektonResolverFramework.Git''"
    using g(1) by (auto simp: gitresolver_main_def run)
  moreover have "fw_configStore (fc_reconciler bc) = None" "fc_workQueueName bc = ''TektonResolverFramework.bundleresolver''"
    using b(1) by (auto simp: bundleresolver_main_def run)
  ultimately show ?thesis using g b by (auto simp: LabelValueGitResolverType_def)
qed

text \<open>
  C36. The event filter does not protect requests of other types: on becoming leader, the framework
  enqueues every request of the cache, and \<^verbatim>\<open>Reconcile\<close> does not look at the type. When the git
  resolver's controller is promoted, an open request for the bundle resolver, which its filter
  rejects, is enqueued, and reconciling it marks it failed on the server, whatever the scheduler
  does.
\<close>

theorem promotion_fails_foreign_request:
  assumes "gitresolver_main ip frac g = Inr fc"
    and "tracker_wf t" "tracker_get ip t ns n = Inr req" "lister_Get ip idx ns n = Inr req" "rr_wf req" "\<not> IsDone req"
    and "CHR ''/'' \<notin> set ns" "CHR ''/'' \<notin> set n"
    and "go_lookup (m_labels (meta req)) LabelKeyResolverType = Some ''bundles''" "go_index (spec_params req) ''url'' = []"
    and "request_ctx (fc_reconciler fc) c ns = Some c1"
    and "resolve_outcome (git_resolver ip frac g) c1 (ns @ ''/'' @ n) ip (spec_params req) (sched c1 (ns @ ''/'' @ n) req)"
  shows "\<not> fc_filter fc (Some req) \<and> (ns, n) \<in> set (leaderAwareFuncs idx) \<and>
    (\<exists>t' e s. Reconcile_fw ip clk (fake_client ip) idx (fc_reconciler fc) sched c t (ns @ ''/'' @ n) =
        Some (t', Some (PermanentError e)) \<and>
      tracker_get ip t' ns n = Inr s \<and> IsFalse (condition_of s) \<and> GetReason (condition_of s) = ReasonResolutionFailed)"
proof -
  note names = tracker_get_wf [OF assms(2,3)]
  obtain fc' where fc': "gitresolver_main ip frac g = Inr fc'" "fw_resolver (fc_reconciler fc') = git_resolver ip frac g"
    "{r. fc_filter fc' (Some r)} = {r. go_lookup (m_labels (meta r)) LabelKeyResolverType = Some LabelValueGitResolverType}"
    using git.controller [of ip Background ip frac g] unfolding gitresolver_main_def by blast
  with assms(1) have fc: "fw_resolver (fc_reconciler fc) = git_resolver ip frac g" 
    "fc_filter fc (Some req) = (go_lookup (m_labels (meta req)) LabelKeyResolverType = Some LabelValueGitResolverType)" by auto
  have flt: "\<not> fc_filter fc (Some req)" unfolding fc(2) assms(9) by (simp add: LabelValueGitResolverType_def)
  have listed: "(ns, n) \<in> set (leaderAwareFuncs idx)"
    using assms(4) names
    by (force simp: leaderAwareFuncs_def lister_List_def lister_Get_def dest!: map_of_SomeD split: option.splits)
  obtain e where e: "outcome_error (sched c1 (ns @ ''/'' @ n) req) = Some e"
  proof -
    have "git_ValidateParams ip (spec_params req) \<noteq> None"
      unfolding git_ValidateParams_def git_missing Let_def using assms(10) by (simp add: git_consts)
    then obtain ve where "rv_ValidateParams (git_resolver ip frac g) x (spec_params req) = Some ve" for x
      by (auto simp: git_resolver_def)
    with assms(12) that show thesis
      by (auto simp: resolve_outcome_iff_answer answer_def worker_defs outcome_error_def)
  qed
  have out: "resolve_outcome (fw_resolver (fc_reconciler fc)) c1 (ns @ ''/'' @ n) ip (spec_params req) (sched c1 (ns @ ''/'' @ n) req)"
    using assms(12) fc(1) by simp
  have get: "tracker_get ip t (m_namespace (meta req)) (m_name (meta req)) = Inr req" using assms(3) names by simp
  have clget: "cl_get (fake_client ip) t ns n = Inr req" using assms(3) by simp
  from fw_failure [where sched = sched, OF fake.rr_api_axioms assms(2) split_request_key [OF assms(7,8)] assms(4,6) names
      assms(11) out e clget assms(5,6) fw_MarkFailed_fake [OF assms(2) get, of clk e]] flt listed
  show ?thesis unfolding fake_client_sel by blast
qed

theorem promotion_fails_foreign_request_witness:
  "\<exists>fc t' e s. gitresolver_main (\<lambda>_. False) (\<lambda>_ _ _. 0) demo_git = Inr fc \<and>
    \<not> fc_filter fc (Some example_bundle_request) \<and>
    (''ns'', ''git-1'') \<in> set (leaderAwareFuncs [(''ns/git-1'', example_bundle_request)]) \<and>
    Reconcile_fw (\<lambda>_. False) (\<lambda>_. 0) (fake_client (\<lambda>_. False)) [(''ns/git-1'', example_bundle_request)] (fc_reconciler fc)
        (\<lambda>_ _ _. Got_done DeadlineExceeded) Background [((''ns'', ''git-1''), example_bundle_request)] (''ns'' @ ''/'' @ ''git-1'') =
        Some (t', Some (PermanentError e)) \<and>
    tracker_get (\<lambda>_. False) t' ''ns'' ''git-1'' = Inr s \<and> IsFalse (condition_of s)"
proof -
  let ?ip = "\<lambda>_::nat. False" and ?frac = "\<lambda>_ _ _. 0::int" and ?sched = "\<lambda>_ _ _. Got_done DeadlineExceeded"
  let ?idx = "[(''ns/git-1'', example_bundle_request)]" and ?t = "[((''ns'', ''git-1''), example_bundle_request)]"
  obtain fc where fc: "gitresolver_main ?ip ?frac demo_git = Inr fc"
    "\<And>store. fw_configStore (fc_reconciler fc) = Some store \<Longrightarrow> store_wf store"
    using git.controller [of ?ip Background ?ip ?frac demo_git] unfolding gitresolver_main_def
    by (auto split: option.splits)
  then obtain c1 where c1: "request_ctx (fc_reconciler fc) Background ''ns'' = Some c1"
    using ToContext_total by (cases "fw_configStore (fc_reconciler fc)") (fastforce simp: request_ctx_def Let_def)+
  have out: "resolve_outcome (git_resolver ?ip ?frac demo_git) c1 (''ns'' @ ''/'' @ ''git-1'') ?ip
      (spec_params example_bundle_request) (Got_done DeadlineExceeded)"
    by (simp add: resolve_outcome_iff_answer)
  have look: "tracker_wf ?t" "tracker_get ?ip ?t ''ns'' ''git-1'' = Inr example_bundle_request"
    "lister_Get ?ip ?idx ''ns'' ''git-1'' = Inr example_bundle_request"
    using example_bundle_facts by (simp_all add: lister_Get_def tracker_get_def tracker_wf_def)
  show ?thesis
    using promotion_fails_foreign_request [where sched = ?sched and clk = "\<lambda>_. 0", OF fc(1) look example_bundle_facts(1,2) _ _
        example_bundle_facts(5,6) c1 out] fc(1)
    by (intro exI [of _ fc]) (simp, blast)
qed

text \<open>C1. The whole life of a request. A request that no cluster object and no cache entry has the name of is
  submitted: the caller is told that it is in progress. When the resolver accepts its parameters,
  resolves them to non-empty data and answers before its deadline, one run of the resolver's
  reconciler stores the data without an error, one run of the core controller afterwards marks the
  request succeeded, and then submitting it again returns a resource with exactly the data the
  resolver returned. Each cache has seen the write before it.\<close>

theorem request_lifecycle:
  assumes "req_Namespace req = ns" "req_Name req = n" "tracker_wf t" "map_of t (ns, n) = None" "CHR ''/'' \<notin> set ns" "CHR ''/'' \<notin> set n" "go_wf (req_Params req)"
    and "is_err (lister_Get ip idx ns n)" "leader ns n"
    and "\<And>k t x. tracker_get ip t ns n = Inr x \<Longrightarrow> lister_Get ip (cache k t) ns n = Inr x"
    and "request_ctx fwr c ns = Some c1"
    and "rv_ValidateParams (fw_resolver fwr) (resolution_ctx (fw_resolver fwr) c1) (req_Params req) = None"
    and "rv_Resolve (fw_resolver fwr) (resolution_ctx (fw_resolver fwr) c1) (req_Params req) = Inr res" "res_Data res \<noteq> []"
    and "\<And>key q. resolve_outcome (fw_resolver fwr) c1 key ip (spec_params q) (sched c1 key q)" "\<And>key q e. sched c1 key q \<noteq> Got_done e"
  shows "\<exists>t1 t2 t3 x.
    Submit ip (fake_client ip) idx t resolverName req = (t1, Inl ErrorRequestInProgress) \<and>
    Reconcile_fw ip clk1 (fake_client ip) (cache 1 t1) fwr sched c t1 (ns @ ''/'' @ n) = Some (t2, None) \<and>
    Reconcile ip pre post (fake_client ip) (cache 2 t2) (core_impl clk leader) c' t2 (ns @ ''/'' @ n) = (t3, None, []) \<and>
    Submit ip (fake_client ip) (cache 3 t3) t3 resolverName req = (t3, Inr x) \<and> resource_Data x = Inr (res_Data res)"
proof -
  note key = split_request_key [OF assms(5,6)]
  obtain t1 r where t1: "Submit ip (fake_client ip) idx t resolverName req = (t1, Inl ErrorRequestInProgress)" "tracker_wf t1"
    "tracker_get ip t1 ns n = Inr r" "rr_wf r" "\<not> IsDone r" "spec_params r = req_Params req" "m_deletionTimestamp (meta r) = None"
    using Submit_fake_new [of t req ip idx resolverName] assms(1-4,7,8) by auto
  have out: "sched c1 (ns @ ''/'' @ n) r = Got_resource res"
    using assms(15) [of "ns @ ''/'' @ n" r] assms(16) [of "ns @ ''/'' @ n" r] assms(12,13) t1(6)
    by (auto simp: resolve_outcome_iff_answer answer_def worker_defs)
  obtain t2 t3 x where run: "writeResolvedData ip clk1 (fake_client ip) t1 r res = (t2, None)"
    "Reconcile ip pre post (fake_client ip) (cache 2 t2) (core_impl clk leader) c' t2 (ns @ ''/'' @ n) = (t3, None, [])"
    "Submit ip (fake_client ip) (cache 3 t3) t3 resolverName req = (t3, Inr x)" "resource_Data x = Inr (res_Data res)"
    using stored_resource_returned [where leader = leader and pre = pre and post = post and clk = clk and c = c' and ?clk1.0 = clk1
        and resolverName = resolverName and ?cache1.0 = "cache 2" and ?cache2.0 = "cache 3", OF t1(2-5,7) assms(5,6,9,14,1,2)]
      assms(10) by blast
  have "Reconcile_fw ip clk1 (fake_client ip) (cache 1 t1) fwr sched c t1 (ns @ ''/'' @ n) = Some (t2, None)"
    using run(1) t1(5) unfolding Reconcile_fw_def key sum.case prod.case assms(10) [OF t1(3)] assms(11) option.case out by (simp add: resolve_def)
  with t1(1) run(2-4) show ?thesis by blast
qed

theorem request_lifecycle_witness:
  "\<exists>t1 t2 t3 x.
    Submit (\<lambda>_. False) (fake_client (\<lambda>_. False)) [] [] ''demo'' (Requester.NewRequest ''demo-1'' ''ns'' None) =
      (t1, Inl ErrorRequestInProgress) \<and>
    Reconcile_fw (\<lambda>_. False) (\<lambda>_. 0) (fake_client (\<lambda>_. False)) (synced t1 ''ns'' ''demo-1'')
      \<lparr> fw_resolver = template_resolver, fw_configStore = None, fw_clock_set = True \<rparr>
      (\<lambda>_ key q. if go_len (spec_params q) = 0 then Got_resource myResolvedResource
         else Got_err (ErrorInvalidRequest key ''no params allowed''))
      Background t1 ''ns/demo-1'' = Some (t2, None) \<and>
    Reconcile (\<lambda>_. False) (\<lambda>_. 0) 0 (fake_client (\<lambda>_. False)) (synced t2 ''ns'' ''demo-1'') (core_impl (\<lambda>_. 0) (\<lambda>_ _. True))
      Background t2 ''ns/demo-1'' = (t3, None, []) \<and>
    Submit (\<lambda>_. False) (fake_client (\<lambda>_. False)) (synced t3 ''ns'' ''demo-1'') t3 ''demo'' (Requester.NewRequest ''demo-1'' ''ns'' None) =
      (t3, Inr x) \<and>
    resource_Data x = Inr pipeline"
proof -
  let ?ip = "\<lambda>_::nat. False" and ?req = "Requester.NewRequest ''demo-1'' ''ns'' None"
  let ?fw = "\<lparr> fw_resolver = template_resolver, fw_configStore = None, fw_clock_set = True \<rparr>"
  let ?sched = "\<lambda>(_::ctx) key q. if go_len (spec_params q) = 0 then Got_resource myResolvedResource
    else Got_err (ErrorInvalidRequest key ''no params allowed'')"
  have ctx: "request_ctx ?fw Background ''ns'' = Some (InjectRequestNamespace Background ''ns'')" by (simp add: request_ctx_def)
  have rv: "rv_ValidateParams (fw_resolver ?fw) c (req_Params ?req) = None"
    "rv_Resolve (fw_resolver ?fw) c (req_Params ?req) = Inr myResolvedResource" for c
    by (simp_all add: template_resolver_def template_ValidateParams_def template_Resolve_def Requester.NewRequest_def go_len_def)
  have res: "res_Data myResolvedResource = pipeline" "pipeline \<noteq> []" by (simp_all add: myResolvedResource_def pipeline_def nl_def)
  have req: "req_Namespace ?req = ''ns''" "req_Name ?req = ''demo-1''" "go_wf (req_Params ?req)" "tracker_wf []"
    "is_err (lister_Get ?ip [] ''ns'' ''demo-1'')"
    by (simp_all add: Requester.NewRequest_def go_wf_def tracker_wf_def lister_Get_def is_err_def)
  show ?thesis
    using request_lifecycle [where fwr = ?fw and sched = ?sched and cache = "\<lambda>_ t. synced t ''ns'' ''demo-1''" and leader = "\<lambda>_ _. True"
        and resolverName = "''demo''" and pre = "\<lambda>_. 0" and post = 0 and clk = "\<lambda>_. 0" and ?clk1.0 = "\<lambda>_. 0" and c' = Background,
        OF req(1,2,4) _ _ _ req(3,5) _ _ ctx rv(1) rv(2)]
    by (simp add: template_outcome synced_get res)
qed

text \<open>The requester over the generated clientset: what it calls of a client.\<close>

definition rest_rr_client :: "codec \<Rightarrow> 'w server \<Rightarrow> rest_client \<Rightarrow> 'w rr_client" where
  "rest_rr_client cd srv c =
     \<lparr> cl_get = (\<lambda>w ns name. snd (rest_Get cd srv c ns w name [])),
       cl_create = (\<lambda>w ns obj. rest_Create cd srv c ns w obj []),
       cl_update_status = (\<lambda>w ns obj. rest_UpdateStatus cd srv c ns w obj []),
       cl_patch_status = (\<lambda>w ns name patch.
         rest_Patch cd srv c ns w name ''application/merge-patch+json'' (enc_status_patch patch) [] [''status'']),
       cl_patch_finalizers = (\<lambda>w ns name fins rv.
         rest_Patch cd srv c ns w name ''application/merge-patch+json''
           (JObj [(''metadata'', JObj [(''finalizers'', JArr (map enc_str fins)), (''resourceVersion'', enc_str rv)])]) [] []) \<rparr>"

text \<open>C12. What the requester submits passes the admission webhook. Submitting a request that is not in the
  cache through the generated clientset sends one POST to the collection of the request's
  namespace; a review of that very document at the validating webhook is allowed exactly when a
  resolver was named, and when the server refuses the document the requester returns the server's
  error.\<close>

theorem submitted_request_admitted:
  assumes "client_ok c" "valid_segment (req_Namespace req)" "json_ok (new_request_object resolverName req)"
    and "is_err (lister_Get ip idx (req_Namespace req) (req_Name req))"
    and "ar_kind review = rr_kind" "ar_operation review = ''CREATE''" "ar_oldObject review = None"
  shows "\<exists>hr j resp.
    hr_verb hr = ''POST'' \<and> hr_path hr = api_path c [''namespaces'', req_Namespace req, ''resolutionrequests''] \<and> hr_body hr = Some j \<and>
    ServeHTTP cd diff checksum (main_webhook env l ob) ''application/json'' ''/resource-validation'' (Inr (review\<lparr>ar_object := Some j\<rparr>)) =
      Some (Reply resp) \<and> (rs_allowed resp \<longleftrightarrow> resolverName \<noteq> []) \<and>
    fst (Submit ip (rest_rr_client cd srv c) idx w resolverName req) = fst (srv w hr) \<and>
    (\<forall>e. snd (srv w hr) = Inl e \<longrightarrow> snd (Submit ip (rest_rr_client cd srv c) idx w resolverName req) = Inl e)"
proof -
  define obj where "obj = new_request_object resolverName req"
  have obj: "SetGroupVersionKind rr_gvk obj = obj" "t_kind obj \<noteq> ''metadata''" "t_apiVersion obj \<noteq> ''metadata''"
    "m_namespace (meta obj) = req_Namespace req" "getTypeLabel (m_labels (meta obj)) = resolverName"
    by (simp_all add: obj_def new_request_object_def appendOwnerReference_def SetGroupVersionKind_def rr_gvk_def gvk_string_def gv_string_def
        getTypeLabel_eq go_index_def go_lookup_def split: option.split)
  define hr where "hr = rr_http c (rc_timeout c) ''POST'' (req_Namespace req) [] [] ''application/json'' (Some (enc_rr obj))"
  have sent: "cl_create (rest_rr_client cd srv c) w (req_Namespace req) obj = answer_with (Into cd) (srv w hr)"
    using rest_requests(2) [OF assms(1,2), of cd srv w obj "[]"] unfolding obj(1) by (simp add: rest_rr_client_def hr_def)
  let ?j = "enc_rr obj"
  have dec: "Decode cd ?j empty_rr True = Inr (reread (cd_addr cd) obj)"
    using Decode_enc [OF _ obj(2,3)] assms(3) by (simp add: obj_def)
  have lab: "getTypeLabel (m_labels (meta (reread (cd_addr cd) obj))) = resolverName"
    using getTypeLabel_reread [of obj "cd_addr cd"] assms(3) obj(5) by (simp add: obj_def)
  have adm: "rs_allowed (validation_Admit cd NewValidationAdmissionController (review\<lparr>ar_object := Some ?j\<rparr>)) \<longleftrightarrow> resolverName \<noteq> []"
    using validation_allowed [of "review\<lparr>ar_object := Some ?j\<rparr>" cd] assms(5-7) dec lab by simp
  have web: "ServeHTTP cd diff checksum (main_webhook env l ob) ''application/json'' ''/resource-validation'' (Inr (review\<lparr>ar_object := Some ?j\<rparr>)) =
      Some (Reply ((validation_Admit cd NewValidationAdmissionController (review\<lparr>ar_object := Some ?j\<rparr>))\<lparr>rs_uid := ar_uid review\<rparr>))"
    by (simp add: admissionHandler_def)
  obtain w' x where srv: "srv w hr = (w', x)" by force
  obtain e where miss: "lister_Get ip idx (req_Namespace req) (req_Name req) = Inl e"
    using assms(4) by (auto simp: is_err_def split: sum.splits)
  have "fst (Submit ip (rest_rr_client cd srv c) idx w resolverName req) = w'"
    "x = Inl e \<longrightarrow> snd (Submit ip (rest_rr_client cd srv c) idx w resolverName req) = Inl e" for e
    using sent unfolding Submit_def miss createResolutionRequest_def obj_def [symmetric] Let_def obj(4)
    by (auto simp: srv answer_with_def split: sum.splits)
  moreover have "hr_verb hr = ''POST''" "hr_path hr = api_path c [''namespaces'', req_Namespace req, ''resolutionrequests'']"
    "hr_body hr = Some ?j" by (simp_all add: hr_def rr_http_def)
  ultimately show ?thesis using web adm
    by (intro exI [of _ hr] exI [of _ ?j]) (simp add: srv del: serve_paths)
qed

theorem submitted_request_admitted_witness:
  "\<exists>(hr :: http_request) j resp. hr_verb hr = ''POST'' \<and> hr_body hr = Some j \<and>
    ServeHTTP example_codec (\<lambda>_ _. Inr ([] :: nat list)) (\<lambda>s. s) (main_webhook (\<lambda>_. []) (\<lambda>_. None) (\<lambda>_. None)) ''application/json''
      ''/resource-validation'' (Inr (example_review j)) = Some (Reply resp) \<and> rs_allowed resp"
proof -
  let ?req = "Requester.NewRequest ''git-1'' ''ns'' None"
  have ok: "json_ok (new_request_object ''git'' ?req)" by code_simp
  have miss: "is_err (lister_Get (\<lambda>_. False) [] (req_Namespace ?req) (req_Name ?req))" by (simp add: lister_Get_def is_err_def)
  have ns: "valid_segment (req_Namespace ?req)" by (simp add: valid_segment_iff Requester.NewRequest_def)
  have r: "ar_kind (example_review (JObj [])) = rr_kind" "ar_operation (example_review (JObj [])) = ''CREATE''"
    "ar_oldObject (example_review (JObj [])) = None" by (simp_all add: example_review_def)
  have up: "(example_review (JObj []))\<lparr>ar_object := Some j\<rparr> = example_review j" for j by (simp add: example_review_def)
  obtain hr :: http_request and j resp where "hr_verb hr = ''POST''" "hr_body hr = Some j"
    and web: "ServeHTTP example_codec (\<lambda>_ _. Inr ([] :: nat list)) (\<lambda>s. s) (main_webhook (\<lambda>_. []) (\<lambda>_. None) (\<lambda>_. None)) ''application/json''
      ''/resource-validation'' (Inr (example_review j)) = Some (Reply resp)" and "rs_allowed resp \<longleftrightarrow> ''git'' \<noteq> []"
    using submitted_request_admitted [OF example_client_ok ns ok miss r, where diff = "\<lambda>_ _. Inr ([] :: nat list)" and checksum = "\<lambda>s. s"
        and env = "\<lambda>_. []" and l = "\<lambda>_. None" and ob = "\<lambda>_. None" and srv = "echo_server example_created" and w = 0]
    unfolding up by blast
  then show ?thesis by (intro exI [of _ hr] exI [of _ j] exI [of _ resp] conjI web) simp_all
qed

end
